(* ===== verification/Nyx_Prelude.thy ===== *)
theory Nyx_Prelude
  imports Complex_Main "HOL-Library.Word" "HOL-Library.Char_ord" "HOL-Library.List_Lexorder"
    "HOL-Library.AList" "HOL-Library.Multiset" "HOL-Library.Code_Target_Nat"
begin

text \<open>
  The prelude of the development: the machine integers of the code, the collections of
  rewrite rules that the component theories fill, and the generic facts on lists that more
  than one component uses.
\<close>

section \<open>Types and collections\<close>

text \<open>Go's \<open>int32\<close> is a 32-bit word read with \<open>sint\<close>.\<close>

type_synonym int32 = "32 word"

text \<open>
  A Go map with string keys is an association list without repeated keys; a nil map and an
  empty one are the same list where the code does not distinguish them.
\<close>

type_synonym 'v gomap = "(string \<times> 'v) list"

text \<open>
  Go's \<open>error\<close> values. The errors of the Kubernetes API are told apart the way the code
  tells them apart (\<open>apierrors.IsNotFound\<close>, \<open>IsConflict\<close>, \<open>IsAlreadyExists\<close>, and the status
  cause \<open>NamespaceTerminating\<close>); the others are the \<open>fmt.Errorf\<close> values of the operator.
\<close>

datatype api_error =
    NotFound
  | AlreadyExists
  | Conflict
  | NamespaceTerminating
  | OtherAPIError string

datatype go_error =
    ApiError api_error
  | LoadTimezone string
  | InvalidRelative string
  | RelativeNotPositive string
  | InvalidExpiry string
  | NoExpiryNoDefault
  | CorruptCheckpoint string
  | CorruptSuspend string
  | CorruptNodeSelector string
  | CorruptHPA string
  | UnsupportedKind string
  | InvalidSelector string
  | UnknownTargetMode string

named_theorems prog_simps \<open>equations that run the error-and-state programs of the model\<close>
named_theorems time_simps \<open>readings of instants as wall-clock fields\<close>
named_theorems handler_defs \<open>definitions of the workload handlers\<close>

section \<open>Lists\<close>

text \<open>The first element that satisfies a predicate, as a loop with \<open>break\<close> finds it.\<close>

fun first_such :: "('a \<Rightarrow> bool) \<Rightarrow> 'a list \<Rightarrow> 'a option" where
  "first_such P [] = None"
| "first_such P (x # xs) = (if P x then Some x else first_such P xs)"

lemma first_such_None_iff: "first_such P xs = None \<longleftrightarrow> (\<forall>x \<in> set xs. \<not> P x)"
  by (induction xs) auto

lemma first_such_SomeD: "first_such P xs = Some x \<Longrightarrow> x \<in> set xs \<and> P x"
  by (induction xs) (auto split: if_splits)

lemma first_such_sorted_least:
  fixes xs :: "'a :: linorder list"
  assumes "sorted xs" and "first_such P xs = Some x" and "y \<in> set xs" and "P y"
  shows "x \<le> y"
  using assms by (induction xs) (auto split: if_splits)

lemma sorted_list_update_swap_mset:
  assumes "i < length xs" and "j < length xs"
  shows "mset (xs[i := xs ! j, j := xs ! i]) = mset xs"
  using assms by (simp add: mset_swap)

lemma sorted_by_nth_step:
  fixes xs :: "'a :: linorder list"
  shows "sorted xs \<longleftrightarrow> (\<forall>i. Suc i < length xs \<longrightarrow> xs ! i \<le> xs ! Suc i)"
  by (rule sorted_iff_nth_Suc)

text \<open>Two sorted lists with the same elements are the same list.\<close>

lemma sorted_mset_unique:
  fixes xs :: "'a :: linorder list"
  assumes "sorted xs" and "mset xs = mset ys"
  shows "sort ys = xs"
  using assms by (metis properties_for_sort)

end
