(* ===== verification/Go_Time.thy ===== *)
theory Go_Time
  imports Nyx_Prelude
begin

text \<open>
  What the operator uses of Go's package \<open>time\<close>: instants and durations, the proleptic
  Gregorian calendar, time zones, \<open>time.Date\<close>, \<open>Time.AddDate\<close> and the wall-clock
  readings \<open>Hour\<close>, \<open>Minute\<close>, \<open>Weekday\<close>. An instant is the number of nanoseconds since
  the Unix epoch (an \<open>int\<close>, so that \<open>Add\<close> and \<open>Date\<close> need no bound); a
  \<open>time.Duration\<close> is a number of nanoseconds that fits into 64 bits. The zone data behind
  \<open>time.LoadLocation\<close> is not part of the program: it is a parameter.
\<close>

section \<open>Instants and durations\<close>

type_synonym instant = int
type_synonym duration = int

abbreviation d_Second :: int where "d_Second \<equiv> 1000000000"
abbreviation d_Minute :: int where "d_Minute \<equiv> 60000000000"
abbreviation d_Hour :: int where "d_Hour \<equiv> 3600000000000"

abbreviation max_duration :: int where "max_duration \<equiv> 9223372036854775807"
abbreviation min_duration :: int where "min_duration \<equiv> - 9223372036854775808"

definition is_duration :: "int \<Rightarrow> bool" where
  "is_duration d \<longleftrightarrow> min_duration \<le> d \<and> d \<le> max_duration"

text \<open>\<open>Time.Add\<close>, \<open>Time.After\<close> and \<open>Time.Before\<close> are the arithmetic of instants;
  \<open>Time.Sub\<close> saturates at the ends of \<open>Duration\<close>.\<close>

definition time_Add :: "instant \<Rightarrow> duration \<Rightarrow> instant" where
  "time_Add t d = t + d"

definition time_After :: "instant \<Rightarrow> instant \<Rightarrow> bool" where
  "time_After t u \<longleftrightarrow> u < t"

definition time_Before :: "instant \<Rightarrow> instant \<Rightarrow> bool" where
  "time_Before t u \<longleftrightarrow> t < u"

definition time_Sub :: "instant \<Rightarrow> instant \<Rightarrow> duration" where
  "time_Sub t u = max min_duration (min max_duration (t - u))"

text \<open>The zero \<open>time.Time\<close> is midnight UTC of 1 January of year 1.\<close>

definition zero_time :: instant where
  "zero_time = - 62135596800000000000"

definition time_IsZero :: "instant \<Rightarrow> bool" where
  "time_IsZero t \<longleftrightarrow> t = zero_time"

lemmas time_order_defs = time_Add_def time_After_def time_Before_def

lemma is_duration_time_Sub [simp]: "is_duration (time_Sub t u)"
  by (simp add: is_duration_def time_Sub_def)

lemma time_Sub_pos_iff: "0 < time_Sub t u \<longleftrightarrow> u < t"
  by (auto simp: time_Sub_def)

section \<open>The calendar\<close>

definition leap_year :: "int \<Rightarrow> bool" where
  "leap_year y \<longleftrightarrow> y mod 4 = 0 \<and> (y mod 100 \<noteq> 0 \<or> y mod 400 = 0)"

text \<open>Days from 1 January of year 1 to 1 January of year \<open>y\<close>.\<close>

definition days_before_year :: "int \<Rightarrow> int" where
  "days_before_year y = 365 * (y - 1) + (y - 1) div 4 - (y - 1) div 100 + (y - 1) div 400"

definition days_before_month :: "bool \<Rightarrow> int \<Rightarrow> int" where
  "days_before_month leap m =
     (let l = (if leap then 1 else 0) in
      if m \<le> 1 then 0 else if m = 2 then 31 else if m = 3 then 59 + l
      else if m = 4 then 90 + l else if m = 5 then 120 + l else if m = 6 then 151 + l
      else if m = 7 then 181 + l else if m = 8 then 212 + l else if m = 9 then 243 + l
      else if m = 10 then 273 + l else if m = 11 then 304 + l else 334 + l)"

definition days_in :: "int \<Rightarrow> int \<Rightarrow> int" where
  "days_in m y =
     (if m = 2 then (if leap_year y then 29 else 28)
      else if m = 4 \<or> m = 6 \<or> m = 9 \<or> m = 11 then 30 else 31)"

text \<open>Days since the Unix epoch of a date whose month is in range.\<close>

definition days_of_civil :: "int \<Rightarrow> int \<Rightarrow> int \<Rightarrow> int" where
  "days_of_civil y m d =
     days_before_year y + days_before_month (leap_year y) m + (d - 1) - 719162"

text \<open>The inverse: cycles of 400, 100, 4 and 1 years, then the month of the day of the year.\<close>

definition year_of_days :: "int \<Rightarrow> int" where
  "year_of_days n =
     (let r400 = n mod 146097; c = min 3 (r400 div 36524);
          r100 = r400 - 36524 * c; q = r100 div 1461;
          r4 = r100 mod 1461; o1 = min 3 (r4 div 365)
      in 400 * (n div 146097) + 100 * c + 4 * q + o1 + 1)"

definition month_of_yday :: "bool \<Rightarrow> int \<Rightarrow> int" where
  "month_of_yday leap yd =
     (let l = (if leap then 1 else 0) in
      if yd < 31 then 1 else if yd < 59 + l then 2 else if yd < 90 + l then 3
      else if yd < 120 + l then 4 else if yd < 151 + l then 5 else if yd < 181 + l then 6
      else if yd < 212 + l then 7 else if yd < 243 + l then 8 else if yd < 273 + l then 9
      else if yd < 304 + l then 10 else if yd < 334 + l then 11 else 12)"

definition civil_of_days :: "int \<Rightarrow> int \<times> int \<times> int" where
  "civil_of_days n =
     (let N = n + 719162; y = year_of_days N; yd = N - days_before_year y;
          m = month_of_yday (leap_year y) yd
      in (y, m, yd - days_before_month (leap_year y) m + 1))"

lemma capped_div:
  fixes r k u :: int
  assumes "0 \<le> r" and "r < 4 * u + e" and "0 < u" and "0 \<le> e" and "e \<le> 1"
  defines "b \<equiv> min 3 (r div u)"
  shows "0 \<le> b" and "b \<le> 3" and "0 \<le> r - u * b" and "r - u * b \<le> u - 1 + e"
    and "b < 3 \<Longrightarrow> r - u * b \<le> u - 1"
proof -
  define t where "t = r div u"
  have r: "r = u * t + r mod u" "0 \<le> r mod u" "r mod u < u"
    using assms(3) by (simp_all add: t_def)
  have t: "0 \<le> t" using assms(1,3) by (simp add: t_def pos_imp_zdiv_nonneg_iff)
  have cases: "(t < 3 \<and> b = t) \<or> (3 \<le> t \<and> b = 3)" by (auto simp: b_def t_def)
  have 3: "u * 3 \<le> u * t" if "3 \<le> t" using that assms(3) by (intro mult_left_mono) auto
  show "0 \<le> b" "b \<le> 3" using cases t by auto
  from cases show "0 \<le> r - u * b"
  proof (elim disjE conjE)
    assume "b = t"
    then show ?thesis using r by simp
  next
    assume "3 \<le> t" "b = 3"
    with 3 have "u * b \<le> u * t" by simp
    then show ?thesis using r by linarith
  qed
  from cases show "r - u * b \<le> u - 1 + e"
    using r assms(2,4) by (auto simp: algebra_simps)
  show "r - u * b \<le> u - 1" if "b < 3"
    using cases r that by (auto simp: algebra_simps)
qed

lemma year_cycles:
  fixes n :: int
  obtains a b c d where
    "year_of_days n = 400 * a + 100 * b + 4 * c + d + 1"
    "0 \<le> b" "b \<le> 3" "0 \<le> c" "c \<le> 24" "0 \<le> d" "d \<le> 3"
    "n = 146097 * a + 36524 * b + 1461 * c + 365 * d + (n - days_before_year (year_of_days n))"
    "0 \<le> n - (146097 * a + 36524 * b + 1461 * c + 365 * d)"
    "n - (146097 * a + 36524 * b + 1461 * c + 365 * d)
       \<le> (if d = 3 \<and> (c \<noteq> 24 \<or> b = 3) then 365 else 364)"
proof -
  define a where "a = n div 146097"
  define r400 where "r400 = n mod 146097"
  define b where "b = min 3 (r400 div 36524)"
  define r100 where "r100 = r400 - 36524 * b"
  define c where "c = r100 div 1461"
  define r4 where "r4 = r100 mod 1461"
  define d where "d = min 3 (r4 div 365)"
  have y: "year_of_days n = 400 * a + 100 * b + 4 * c + d + 1"
    unfolding year_of_days_def Let_def d_def r4_def c_def r100_def b_def r400_def a_def
    by (rule refl)
  have n: "n = 146097 * a + r400" and r400: "0 \<le> r400" "r400 < 146097"
    unfolding a_def r400_def
    by (rule mult_div_mod_eq [symmetric], rule pos_mod_sign, simp, rule pos_mod_bound, simp)
  have b: "0 \<le> b" "b \<le> 3" "0 \<le> r100" "r100 \<le> 36524" "b < 3 \<Longrightarrow> r100 < 36524"
    using capped_div [of r400 36524 1, folded b_def] r400 unfolding r100_def by simp_all
  have rr: "r100 = 1461 * c + r4" "0 \<le> r4" "r4 < 1461"
    unfolding c_def r4_def by (rule mult_div_mod_eq [symmetric]) simp_all
  have c: "0 \<le> c" "c \<le> 24" using b rr by linarith+
  have d: "0 \<le> d" "d \<le> 3" "0 \<le> r4 - 365 * d" "r4 - 365 * d \<le> 365"
      "d < 3 \<Longrightarrow> r4 - 365 * d \<le> 364"
    using capped_div [of r4 365 1, folded d_def] rr(2,3) by simp_all
  have d3: "r4 - 365 * d \<le> 364" if "\<not> (d = 3 \<and> (c \<noteq> 24 \<or> b = 3))"
    using that d b rr c by (cases "d = 3") auto
  have dby: "days_before_year (year_of_days n) = 146097 * a + 36524 * b + 1461 * c + 365 * d"
  proof -
    have "(400 * a + 100 * b + 4 * c + d) div 4 = 100 * a + 25 * b + c"
      by (rule int_div_pos_eq [where r = d]) (use d in auto)
    moreover have "(400 * a + 100 * b + 4 * c + d) div 100 = 4 * a + b"
      by (rule int_div_pos_eq [where r = "4 * c + d"]) (use c d in auto)
    moreover have "(400 * a + 100 * b + 4 * c + d) div 400 = a"
      by (rule int_div_pos_eq [where r = "100 * b + 4 * c + d"]) (use b c d in auto)
    ultimately
    show ?thesis by (simp add: days_before_year_def y)
  qed
  have rest: "n - (146097 * a + 36524 * b + 1461 * c + 365 * d) = r4 - 365 * d"
    using n rr r100_def by simp
  show thesis
    by (rule that [OF y b(1,2) c d(1,2)]) (use dby rest d d3 in \<open>auto split: if_splits\<close>)
qed

lemma leap_of_cycles:
  assumes "0 \<le> b" "b \<le> 3" "0 \<le> c" "c \<le> 24" "0 \<le> d" "d \<le> (3 :: int)"
  shows "leap_year (400 * a + 100 * b + 4 * c + d + 1) \<longleftrightarrow> d = 3 \<and> (c \<noteq> 24 \<or> b = 3)"
proof -
  let ?y = "400 * a + 100 * b + 4 * c + d + 1"
  have m4: "?y mod 4 = (if d = 3 then 0 else d + 1)"
    by (rule int_mod_pos_eq [where q = "100 * a + 25 * b + c + (if d = 3 then 1 else 0)"])
      (use assms in auto)
  have m100: "?y mod 100 = (if c = 24 \<and> d = 3 then 0 else 4 * c + d + 1)"
    by (rule int_mod_pos_eq [where q = "4 * a + b + (if c = 24 \<and> d = 3 then 1 else 0)"])
      (use assms in \<open>auto split: if_splits\<close>)
  have m400: "?y mod 400 = (if b = 3 \<and> c = 24 \<and> d = 3 then 0 else 100 * b + 4 * c + d + 1)"
    by (rule int_mod_pos_eq [where q = "a + (if b = 3 \<and> c = 24 \<and> d = 3 then 1 else 0)"])
      (use assms in \<open>auto split: if_splits\<close>)
  have "?y mod 4 = 0 \<longleftrightarrow> d = 3" unfolding m4 using assms by auto
  moreover have "?y mod 100 = 0 \<longleftrightarrow> c = 24 \<and> d = 3" unfolding m100 using assms by auto
  moreover have "?y mod 400 = 0 \<longleftrightarrow> b = 3 \<and> c = 24 \<and> d = 3"
    unfolding m400 using assms by auto
  ultimately show ?thesis unfolding leap_year_def by auto
qed

lemma yday_bounds:
  "0 \<le> n - days_before_year (year_of_days n)"
  "n - days_before_year (year_of_days n) \<le> (if leap_year (year_of_days n) then 365 else 364)"
proof -
  obtain a b c d where *: "year_of_days n = 400 * a + 100 * b + 4 * c + d + 1"
    "0 \<le> b" "b \<le> 3" "0 \<le> c" "c \<le> 24" "0 \<le> d" "d \<le> 3"
    "n = 146097 * a + 36524 * b + 1461 * c + 365 * d + (n - days_before_year (year_of_days n))"
    "0 \<le> n - (146097 * a + 36524 * b + 1461 * c + 365 * d)"
    "n - (146097 * a + 36524 * b + 1461 * c + 365 * d)
       \<le> (if d = 3 \<and> (c \<noteq> 24 \<or> b = 3) then 365 else 364)"
    by (rule year_cycles)
  from *(8,9) show "0 \<le> n - days_before_year (year_of_days n)" by linarith
  show "n - days_before_year (year_of_days n) \<le> (if leap_year (year_of_days n) then 365 else 364)"
    unfolding *(1) leap_of_cycles [OF *(2-7)] using *(1,8,10) by (auto split: if_splits)
qed

lemma month_of_yday_range: "1 \<le> month_of_yday l yd \<and> month_of_yday l yd \<le> 12"
  by (simp add: month_of_yday_def Let_def)

lemma days_before_month_of_yday:
  "month_of_yday l yd = m \<Longrightarrow> 0 \<le> yd \<Longrightarrow> yd \<le> (if l then 365 else 364) \<Longrightarrow>
   days_before_month l m \<le> yd \<and>
   yd < days_before_month l m +
     (if m = 2 then (if l then 29 else 28)
      else if m = 4 \<or> m = 6 \<or> m = 9 \<or> m = 11 then 30 else 31)"
  unfolding month_of_yday_def Let_def
  by (cases l) (simp_all split: if_split_asm, (drule sym, simp add: days_before_month_def)+)

lemma day_of_yday_range:
  assumes "0 \<le> yd" and "yd \<le> (if leap_year y then 365 else 364)"
  defines "m \<equiv> month_of_yday (leap_year y) yd"
  shows "1 \<le> yd - days_before_month (leap_year y) m + 1"
    and "yd - days_before_month (leap_year y) m + 1 \<le> days_in m y"
  using days_before_month_of_yday [OF meta_eq_to_obj_eq [OF m_def [symmetric]] assms(1,2)]
  by (simp_all add: days_in_def split: if_split_asm)

text \<open>Reading a day as a date and counting its days gives the day back.\<close>

lemma days_of_civil_of_days:
  assumes "civil_of_days n = (y, m, d)"
  shows "days_of_civil y m d = n" and "1 \<le> m" and "m \<le> 12" and "1 \<le> d" and "d \<le> days_in m y"
  using assms month_of_yday_range [of "leap_year y" "n + 719162 - days_before_year y"]
    day_of_yday_range [OF yday_bounds, of "n + 719162"]
  by (auto simp: civil_of_days_def days_of_civil_def Let_def)

section \<open>Time zones\<close>

text \<open>
  A \<open>*time.Location\<close> is used through its \<open>lookup\<close>: for a Unix second, the offset from
  UTC in force and the half-open range of Unix seconds over which it is in force.
\<close>

record zone =
  z_offset :: int
  z_start :: int
  z_end :: int

type_synonym location = "int \<Rightarrow> zone"

definition unix :: "instant \<Rightarrow> int" where
  "unix t = t div d_Second"

definition nanos :: "instant \<Rightarrow> int" where
  "nanos t = t mod d_Second"

text \<open>The wall clock of a location as a count of seconds since 1 January 1970, local time.\<close>

definition local_secs :: "location \<Rightarrow> instant \<Rightarrow> int" where
  "local_secs loc t = unix t + z_offset (loc (unix t))"

definition local_day :: "location \<Rightarrow> instant \<Rightarrow> int" where
  "local_day loc t = local_secs loc t div 86400"

definition time_Hour :: "location \<Rightarrow> instant \<Rightarrow> int" where
  "time_Hour loc t = local_secs loc t mod 86400 div 3600"

definition time_Minute :: "location \<Rightarrow> instant \<Rightarrow> int" where
  "time_Minute loc t = local_secs loc t mod 3600 div 60"

definition time_Second :: "location \<Rightarrow> instant \<Rightarrow> int" where
  "time_Second loc t = local_secs loc t mod 60"

text \<open>\<open>time.Weekday\<close>: Sunday is 0; day 0 (1 January 1970) was a Thursday.\<close>

definition time_Weekday :: "location \<Rightarrow> instant \<Rightarrow> int" where
  "time_Weekday loc t = (local_day loc t + 4) mod 7"

definition time_Date_of :: "location \<Rightarrow> instant \<Rightarrow> int \<times> int \<times> int" where
  "time_Date_of loc t = civil_of_days (local_day loc t)"

text \<open>
  \<open>time.Date\<close> first reads the wall-clock time as if it were UTC, looks the zone up there,
  and looks it up again where that zone is not in force at the resulting instant.
\<close>

definition at_local :: "location \<Rightarrow> int \<Rightarrow> int \<Rightarrow> instant" where
  "at_local loc L nsec =
     (let z = loc L; utc = L - z_offset z;
          off = (if z_offset z \<noteq> 0 \<and> (utc < z_start z \<or> z_end z \<le> utc)
                 then z_offset (loc utc) else z_offset z)
      in (L - off) * d_Second + nsec)"

lemma at_local_offset: "\<exists>s. at_local loc L n = (L - z_offset (loc s)) * d_Second + n"
proof -
  define off where "off = (if z_offset (loc L) \<noteq> 0 \<and> (L - z_offset (loc L) < z_start (loc L)
      \<or> z_end (loc L) \<le> L - z_offset (loc L))
    then z_offset (loc (L - z_offset (loc L))) else z_offset (loc L))"
  have "\<exists>s. off = z_offset (loc s)" by (auto simp: off_def)
  moreover have "at_local loc L n = (L - off) * d_Second + n"
    unfolding at_local_def Let_def off_def by (rule refl)
  ultimately show ?thesis by auto
qed

definition go_Date ::
  "location \<Rightarrow> int \<Rightarrow> int \<Rightarrow> int \<Rightarrow> int \<Rightarrow> int \<Rightarrow> int \<Rightarrow> int \<Rightarrow> instant" where
  "go_Date loc year month day hour minute sec nsec =
     at_local loc
       (days_of_civil (year + (month - 1) div 12) ((month - 1) mod 12 + 1) day * 86400
          + hour * 3600 + minute * 60 + sec + nsec div d_Second)
       (nsec mod d_Second)"

definition time_AddDate :: "location \<Rightarrow> instant \<Rightarrow> int \<Rightarrow> int \<Rightarrow> int \<Rightarrow> instant" where
  "time_AddDate loc t years months days =
     (case time_Date_of loc t of (y, m, d) \<Rightarrow>
        go_Date loc (y + years) (m + months) (d + days)
          (time_Hour loc t) (time_Minute loc t) (time_Second loc t) (nanos t))"

lemma unix_times_second [simp]: "unix (u * d_Second + n) = u" if "0 \<le> n" "n < d_Second" for u n
  using that by (simp add: unix_def)

lemma local_secs_at:
  "0 \<le> n \<Longrightarrow> n < d_Second \<Longrightarrow> local_secs loc (u * d_Second + n) = u + z_offset (loc u)"
  by (simp only: local_secs_def unix_times_second)

lemma nanos_range [simp]: "0 \<le> nanos t" "nanos t < d_Second"
  by (simp_all add: nanos_def)

lemma unix_nanos: "unix t * d_Second + nanos t = t"
  by (simp add: unix_def nanos_def)

lemma unix_mono: "t \<le> u \<Longrightarrow> unix t \<le> unix u"
  by (simp add: unix_def zdiv_mono1)

lemma div_60_via_3600: "(L :: int) div 3600 * 60 + L mod 3600 div 60 = L div 60"
proof -
  have "L div 60 = (60 * (60 * (L div 3600)) + L mod 3600) div 60" by simp
  also have "\<dots> = 60 * (L div 3600) + L mod 3600 div 60"
    by (rule div_mult_self4) simp
  finally show ?thesis by simp
qed

lemma hour_minute_of_day:
  "time_Hour loc t * 60 + time_Minute loc t = local_secs loc t mod 86400 div 60"
proof -
  define L where "L = local_secs loc t mod 86400"
  have "local_secs loc t mod 3600 = L mod 3600"
    unfolding L_def by (simp add: mod_mod_cancel)
  then show ?thesis
    using div_60_via_3600 [of L] by (simp add: time_Hour_def time_Minute_def L_def)
qed

lemma hms_of_day:
  "time_Hour loc t * 3600 + time_Minute loc t * 60 + time_Second loc t
     = local_secs loc t mod 86400"
proof -
  define L where "L = local_secs loc t mod 86400"
  have "local_secs loc t mod 3600 = L mod 3600" "local_secs loc t mod 60 = L mod 60"
    unfolding L_def by (simp_all add: mod_mod_cancel)
  moreover have "L div 3600 * 3600 + L mod 3600 div 60 * 60 + L mod 60 = L"
  proof -
    have "L mod 3600 div 60 * 60 + L mod 3600 mod 60 = L mod 3600"
      by (rule div_mult_mod_eq)
    moreover have "L mod 3600 mod 60 = L mod 60" by (simp add: mod_mod_cancel)
    moreover have "L div 3600 * 3600 + L mod 3600 = L" by (rule div_mult_mod_eq)
    ultimately show ?thesis by linarith
  qed
  ultimately show ?thesis
    by (simp only: time_Hour_def time_Minute_def time_Second_def flip: L_def)
qed

text \<open>\<open>time.Date\<close> and \<open>AddDate\<close> over the date of a given day, as arithmetic on local seconds.\<close>

lemma go_Date_of_day:
  assumes "civil_of_days n = (y, m, d)"
  shows "go_Date loc y m (d + k) hour minute sec nsec =
    at_local loc ((n + k) * 86400 + hour * 3600 + minute * 60 + sec + nsec div d_Second)
      (nsec mod d_Second)"
proof -
  have "1 \<le> m" "m \<le> 12" and n: "days_of_civil y m d = n"
    using days_of_civil_of_days [OF assms] by blast+
  then have "(m - 1) div 12 = 0" "(m - 1) mod 12 = m - 1" by simp_all
  moreover have "days_of_civil y m (d + k) = n + k"
    using n by (simp add: days_of_civil_def)
  ultimately show ?thesis by (simp add: go_Date_def)
qed

lemmas go_Date_on_day = go_Date_of_day [where k = 0, simplified]

lemma AddDate_days:
  "time_AddDate loc t 0 0 k = at_local loc (local_secs loc t + k * 86400) (nanos t)"
proof -
  obtain y m d where c: "civil_of_days (local_day loc t) = (y, m, d)"
    by (cases "civil_of_days (local_day loc t)") auto
  have e: "(local_day loc t + k) * 86400 + time_Hour loc t * 3600 + time_Minute loc t * 60
      + time_Second loc t = local_secs loc t + k * 86400"
    using hms_of_day [of loc t] div_mult_mod_eq [of "local_secs loc t" 86400]
    unfolding local_day_def ring_distribs by linarith
  have "time_AddDate loc t 0 0 k =
    at_local loc ((local_day loc t + k) * 86400 + time_Hour loc t * 3600
      + time_Minute loc t * 60 + time_Second loc t + nanos t div d_Second)
      (nanos t mod d_Second)"
    by (simp only: time_AddDate_def time_Date_of_def c prod.case add_0_right go_Date_of_day [OF c])
  then show ?thesis unfolding e by simp
qed

section \<open>Locations\<close>

text \<open>
  A location as the zone data describes it: the offset before the first transition and the
  transitions with the offset each starts. The ends of time are those of \<open>int64\<close>.
\<close>

abbreviation alpha :: int where "alpha \<equiv> - 9223372036854775808"
abbreviation omega :: int where "omega \<equiv> 9223372036854775807"

fun lookup_tx :: "int \<Rightarrow> int \<Rightarrow> (int \<times> int) list \<Rightarrow> location" where
  "lookup_tx start off [] s = \<lparr>z_offset = off, z_start = start, z_end = omega\<rparr>"
| "lookup_tx start off ((w, off') # tx) s =
     (if s < w then \<lparr>z_offset = off, z_start = start, z_end = w\<rparr> else lookup_tx w off' tx s)"

definition tx_location :: "int \<Rightarrow> (int \<times> int) list \<Rightarrow> location" where
  "tx_location off tx = lookup_tx alpha off tx"

definition utc_location :: location where
  "utc_location = tx_location 0 []"

definition representable :: "int \<Rightarrow> bool" where
  "representable s \<longleftrightarrow> alpha \<le> s \<and> s < omega"

text \<open>
  \<open>time.LoadLocation\<close>: the empty name and \<open>UTC\<close> are UTC, \<open>Local\<close> is the host's zone, names
  that could leave the zone directory are refused, every other name is looked up in the IANA
  data (embedded through \<open>time/tzdata\<close>), which is the parameter \<open>tzdata\<close>.
\<close>

fun containsDotDot :: "string \<Rightarrow> bool" where
  "containsDotDot (c # d # s) = (c = CHR ''.'' \<and> d = CHR ''.'' \<or> containsDotDot (d # s))"
| "containsDotDot s = False"

definition go_LoadLocation ::
  "location \<Rightarrow> (string \<Rightarrow> location option) \<Rightarrow> string \<Rightarrow> location option" where
  "go_LoadLocation host tzdata name =
     (if name = '''' \<or> name = ''UTC'' then Some utc_location
      else if name = ''Local'' then Some host
      else if containsDotDot name \<or> hd name = CHR ''/'' \<or> hd name = CHR 0x5C then None
      else tzdata name)"

text \<open>
  The law that the code relies on: the range returned with an offset contains the second that
  was looked up, and every second of the range has the same answer.
\<close>

locale zone_lookup =
  fixes loc :: location
  assumes lookup_range: "representable s \<Longrightarrow> z_start (loc s) \<le> s \<and> s < z_end (loc s)"
    and lookup_same: "representable s \<Longrightarrow> z_start (loc s) \<le> u \<Longrightarrow> u < z_end (loc s) \<Longrightarrow> loc u = loc s"
begin

text \<open>Where the first guess is in force, \<open>time.Date\<close> has exactly the wall clock asked for.\<close>

lemma at_local_in_force:
  assumes "representable L" and "z_start (loc L) \<le> L - z_offset (loc L)"
    and "L - z_offset (loc L) < z_end (loc L)" and "0 \<le> n" and "n < d_Second"
  shows "local_secs loc (at_local loc L n) = L"
proof -
  have "at_local loc L n = (L - z_offset (loc L)) * d_Second + n"
    using assms(2,3) by (auto simp: at_local_def Let_def)
  then show ?thesis
    using lookup_same [OF assms(1-3)] by (simp only: local_secs_at [OF assms(4,5)])
qed

text \<open>A zone with a second of another zone on each side lies between the two.\<close>

lemma zone_between:
  assumes long: "\<And>s. representable s \<Longrightarrow> alpha < z_start (loc s) \<Longrightarrow> z_end (loc s) < omega \<Longrightarrow>
      172800 \<le> z_end (loc s) - z_start (loc s)"
    and "representable p" "representable s" "representable q" "p < s" "s < q"
    and "loc p \<noteq> loc s" "loc q \<noteq> loc s"
  shows "172800 < q - p"
proof -
  have "z_start (loc s) \<le> s" "s < z_end (loc s)" using lookup_range [OF assms(3)] by auto
  moreover have "\<not> (z_start (loc s) \<le> p \<and> p < z_end (loc s))"
    using lookup_same [OF assms(3), of p] assms(7) by auto
  moreover have "\<not> (z_start (loc s) \<le> q \<and> q < z_end (loc s))"
    using lookup_same [OF assms(3), of q] assms(8) by auto
  ultimately have "p < z_start (loc s)" "z_end (loc s) \<le> q" using assms(5,6) by linarith+
  moreover have "alpha \<le> p" "q < omega" using assms(2,4) by (auto simp: representable_def)
  ultimately show ?thesis using long [OF assms(3)] by linarith
qed

text \<open>
  A wall-clock time that exists is what \<open>time.Date\<close> produces, also around a transition, when
  zones last two days at least and offsets stay below a day.
\<close>

lemma at_local_exact:
  assumes exists: "u + z_offset (loc u) = L"
    and long: "\<And>s. representable s \<Longrightarrow> alpha < z_start (loc s) \<Longrightarrow> z_end (loc s) < omega \<Longrightarrow>
      172800 \<le> z_end (loc s) - z_start (loc s)"
    and small: "\<And>s. \<bar>z_offset (loc s)\<bar> < 86400"
    and rep: "alpha + 86400 \<le> L" "L < omega - 86400"
    and n: "0 \<le> n" "n < d_Second"
  shows "local_secs loc (at_local loc L n) = L"
proof (cases "loc (L - z_offset (loc L)) = loc L")
  case True
  have "representable L" "representable (L - z_offset (loc L))"
    using rep small [of L] by (auto simp: representable_def)
  then show ?thesis
    using at_local_in_force [OF _ _ _ n] lookup_range [of "L - z_offset (loc L)"] True by simp
next
  case False
  define v where "v = L - z_offset (loc L)"
  have ru: "representable u" and rv: "representable v" and rL: "representable L"
    using rep exists small [of u] small [of L] by (auto simp: representable_def v_def)
  have vL: "loc v \<noteq> loc L" using False by (simp add: v_def)
  have uL: "loc u \<noteq> loc L" using exists vL by (auto simp: v_def)
  have near: "\<bar>u - L\<bar> < 86400" "\<bar>v - L\<bar> < 86400"
    using small [of u] small [of L] exists by (auto simp: v_def)
  have uv: "loc u = loc v"
  proof (rule ccontr)
    assume ne: "loc u \<noteq> loc v"
    note far = zone_between [OF long]
    have "u \<noteq> v" "u \<noteq> L" "v \<noteq> L" using ne uL vL by auto
    then consider "u < v" "v < L" | "u < L" "L < v" | "v < u" "u < L" | "v < L" "L < u"
      | "L < u" "u < v" | "L < v" "v < u" by linarith
    then show False
      using far [of u v L] far [of u L v] far [of v u L] far [of v L u] far [of L u v]
        far [of L v u] ru rv rL ne uL vL near by cases auto
  qed
  have "\<not> (z_start (loc L) \<le> v \<and> v < z_end (loc L))"
    using lookup_same [OF rL, of v] vL by auto
  moreover have "z_offset (loc L) \<noteq> 0" using vL by (auto simp: v_def)
  ultimately have "at_local loc L n = u * d_Second + n"
    using uv exists by (auto simp: at_local_def Let_def v_def)
  then show ?thesis using exists by (simp only: local_secs_at [OF n])
qed

end

text \<open>The data that the zone files describe satisfies the law.\<close>

lemma lookup_tx_range:
  assumes "start \<le> s" and "s < omega"
  shows "z_start (lookup_tx start off tx s) \<le> s \<and> s < z_end (lookup_tx start off tx s)"
  using assms by (induction tx arbitrary: start off) auto

lemma lookup_tx_start:
  assumes "start \<le> s" and "sorted_wrt (<) (start # map fst tx)"
  shows "start \<le> z_start (lookup_tx start off tx s)"
  using assms
proof (induction tx arbitrary: start off)
  case Nil
  then show ?case by simp
next
  case (Cons p tx)
  obtain w off' where p: "p = (w, off')" by (cases p)
  have "w \<le> z_start (lookup_tx w off' tx s)" if "\<not> s < w"
    using Cons that p by simp
  with Cons.prems p show ?case by fastforce
qed

lemma lookup_tx_same:
  assumes "sorted_wrt (<) (start # map fst tx)"
    and "z_start (lookup_tx start off tx s) \<le> u" and "u < z_end (lookup_tx start off tx s)"
    and "start \<le> s"
  shows "lookup_tx start off tx u = lookup_tx start off tx s"
  using assms
proof (induction tx arbitrary: start off)
  case Nil
  then show ?case by simp
next
  case (Cons p tx)
  obtain w off' where p: "p = (w, off')" by (cases p)
  show ?case
  proof (cases "s < w")
    case True
    with Cons.prems p show ?thesis by simp
  next
    case False
    with Cons.prems p have "w \<le> u" using lookup_tx_start [of w s tx off'] by auto
    with False Cons p show ?thesis by auto
  qed
qed

interpretation utc: zone_lookup utc_location
  by unfold_locales (auto simp: utc_location_def tx_location_def representable_def)

end
