(* ===== verification/Go_Text.thy ===== *)
theory Go_Text
  imports Nyx_Prelude
begin

text \<open>
  What the operator uses of Go's text packages, on byte strings: \<open>strings.TrimSpace\<close>,
  \<open>fmt.Sscanf\<close> with \<open>%02d\<close>, \<open>strconv.FormatInt\<close> and \<open>strconv.ParseInt\<close> in base 10.
\<close>

section \<open>Digits\<close>

definition is_digit :: "char \<Rightarrow> bool" where
  "is_digit c \<longleftrightarrow> CHR ''0'' \<le> c \<and> c \<le> CHR ''9''"

definition digit_val :: "char \<Rightarrow> nat" where
  "digit_val c = of_char c - 48"

definition digit_char :: "nat \<Rightarrow> char" where
  "digit_char n = char_of (48 + n)"

lemma is_digit_iff: "is_digit c \<longleftrightarrow> 48 \<le> (of_char c :: nat) \<and> (of_char c :: nat) \<le> 57"
  by (simp add: is_digit_def less_eq_char_def)

lemma digit_val_le: "is_digit c \<Longrightarrow> digit_val c \<le> 9"
  by (auto simp: is_digit_iff digit_val_def)

lemma of_char_digit: "is_digit c \<Longrightarrow> of_char c = 48 + digit_val c"
  by (simp add: is_digit_iff digit_val_def)

lemma of_digit_char: "n \<le> 9 \<Longrightarrow> of_char (digit_char n) = 48 + n"
  by (simp add: digit_char_def)

lemma is_digit_digit_char [simp]: "n \<le> 9 \<Longrightarrow> is_digit (digit_char n)"
  by (simp add: is_digit_iff of_digit_char)

lemma digit_val_digit_char [simp]: "n \<le> 9 \<Longrightarrow> digit_val (digit_char n) = n"
  by (simp add: digit_val_def of_digit_char)

lemma digit_char_val: "is_digit c \<Longrightarrow> digit_char (digit_val c) = c"
  by (simp add: digit_char_def of_char_digit [symmetric])

section \<open>Decimal integers\<close>

fun digits_of :: "nat \<Rightarrow> string" where
  "digits_of n = (if n < 10 then [digit_char n] else digits_of (n div 10) @ [digit_char (n mod 10)])"

declare digits_of.simps [simp del]

definition FormatInt :: "int \<Rightarrow> string" where
  "FormatInt i = (if i < 0 then CHR ''-'' # digits_of (nat (- i)) else digits_of (nat i))"

definition digits_val :: "string \<Rightarrow> nat" where
  "digits_val s = foldl (\<lambda>n c. 10 * n + digit_val c) 0 s"

definition parse_digits :: "string \<Rightarrow> nat option" where
  "parse_digits s = (if s \<noteq> [] \<and> list_all is_digit s then Some (digits_val s) else None)"

text \<open>\<open>strconv.ParseInt(s, 10, bits)\<close>: a sign, decimal digits, and a value within \<open>bits\<close> bits.\<close>

definition ParseInt :: "nat \<Rightarrow> string \<Rightarrow> int option" where
  "ParseInt bits s =
     (let neg = (case s of c # _ \<Rightarrow> c = CHR ''-'' | [] \<Rightarrow> False);
          body = (case s of c # r \<Rightarrow> if c = CHR ''-'' \<or> c = CHR ''+'' then r else s | [] \<Rightarrow> [])
      in case parse_digits body of
           None \<Rightarrow> None
         | Some n \<Rightarrow>
             if \<not> neg \<and> 2 ^ (bits - 1) \<le> n then None
             else if neg \<and> 2 ^ (bits - 1) < n then None
             else Some (if neg then - int n else int n))"

lemma digits_val_snoc [simp]: "digits_val (s @ [c]) = 10 * digits_val s + digit_val c"
  by (simp add: digits_val_def)

lemma digits_of_digits: "digits_of n \<noteq> [] \<and> list_all is_digit (digits_of n)"
proof (induction n rule: digits_of.induct)
  case (1 n)
  then show ?case by (subst digits_of.simps, subst (2) digits_of.simps) auto
qed

lemma digits_val_digits_of: "digits_val (digits_of n) = n"
proof (induction n rule: digits_of.induct)
  case (1 n)
  then show ?case
    by (cases "n < 10") (auto simp: digits_of.simps [of n] digits_val_def)
qed

lemma parse_digits_of [simp]: "parse_digits (digits_of n) = Some n"
  by (simp add: parse_digits_def digits_of_digits digits_val_digits_of)

lemma digits_of_hd: "\<exists>c r. digits_of n = c # r \<and> is_digit c"
  using digits_of_digits [of n] by (cases "digits_of n") auto

lemma not_digit_sign [simp]: "\<not> is_digit CHR ''-''" "\<not> is_digit CHR ''+''"
  by (simp_all add: is_digit_iff)

text \<open>What \<open>FormatInt\<close> writes, \<open>ParseInt\<close> reads back, over the whole range of the width.\<close>

lemma ParseInt_FormatInt:
  assumes "- (2 ^ (bits - 1)) \<le> i" and "i < 2 ^ (bits - 1)"
  shows "ParseInt bits (FormatInt i) = Some i"
proof (cases "i < 0")
  case True
  have "int (nat (- i)) \<le> int (2 ^ (bits - 1))" using assms True by simp
  then have "nat (- i) \<le> 2 ^ (bits - 1)" by (simp only: zle_int)
  with True show ?thesis by (simp add: ParseInt_def FormatInt_def)
next
  case False
  obtain c r where c: "digits_of (nat i) = c # r" "is_digit c" using digits_of_hd by blast
  then have "c \<noteq> CHR ''-''" "c \<noteq> CHR ''+''" using not_digit_sign by auto
  moreover have "int (nat i) < int (2 ^ (bits - 1))" using assms False by simp
  then have "nat i < 2 ^ (bits - 1)" by (simp only: of_nat_less_iff)
  moreover have "parse_digits (c # r) = Some (nat i)" using c(1) parse_digits_of by metis
  ultimately show ?thesis using False c by (simp add: ParseInt_def FormatInt_def)
qed

section \<open>White space\<close>

text \<open>The UTF-8 encodings of the white-space runes of Go's packages \<open>unicode\<close> and \<open>fmt\<close>.\<close>

definition space_runes :: "string list" where
  "space_runes =
     [[CHR 0x09], [CHR 0x0A], [CHR 0x0B], [CHR 0x0C], [CHR 0x0D], [CHR 0x20],
      [CHR 0xC2, CHR 0x85], [CHR 0xC2, CHR 0xA0], [CHR 0xE1, CHR 0x9A, CHR 0x80],
      [CHR 0xE2, CHR 0x80, CHR 0x80], [CHR 0xE2, CHR 0x80, CHR 0x81],
      [CHR 0xE2, CHR 0x80, CHR 0x82], [CHR 0xE2, CHR 0x80, CHR 0x83],
      [CHR 0xE2, CHR 0x80, CHR 0x84], [CHR 0xE2, CHR 0x80, CHR 0x85],
      [CHR 0xE2, CHR 0x80, CHR 0x86], [CHR 0xE2, CHR 0x80, CHR 0x87],
      [CHR 0xE2, CHR 0x80, CHR 0x88], [CHR 0xE2, CHR 0x80, CHR 0x89],
      [CHR 0xE2, CHR 0x80, CHR 0x8A], [CHR 0xE2, CHR 0x80, CHR 0xA8],
      [CHR 0xE2, CHR 0x80, CHR 0xA9], [CHR 0xE2, CHR 0x80, CHR 0xAF],
      [CHR 0xE2, CHR 0x81, CHR 0x9F], [CHR 0xE3, CHR 0x80, CHR 0x80]]"

definition drop_rune :: "string list \<Rightarrow> string \<Rightarrow> string option" where
  "drop_rune runes s =
     map_option (\<lambda>p. drop (length p) s)
       (first_such (\<lambda>p. p \<noteq> [] \<and> take (length p) s = p) runes)"

lemma drop_rune_shorter: "drop_rune runes s = Some s' \<Longrightarrow> length s' < length s"
  by (auto simp: drop_rune_def dest!: first_such_SomeD)
    (metis diff_less length_greater_0_conv take_eq_Nil)

function drop_runes :: "string list \<Rightarrow> string \<Rightarrow> string" where
  "drop_runes runes s = (case drop_rune runes s of None \<Rightarrow> s | Some s' \<Rightarrow> drop_runes runes s')"
  by pat_completeness auto
termination
  by (relation "measure (\<lambda>(_, s). length s)") (auto dest: drop_rune_shorter)

declare drop_runes.simps [simp del]

definition TrimSpace :: "string \<Rightarrow> string" where
  "TrimSpace s = rev (drop_runes (map rev space_runes) (rev (drop_runes space_runes s)))"

section \<open>Scanning\<close>

text \<open>
  \<open>fmt.Sscanf\<close> skips white space before a number but stops with an error at a newline;
  \<open>%02d\<close> then takes at most two runes: a sign and a digit, or one or two digits. What is left
  of the input after the last verb is ignored.
\<close>

function scan_space :: "string \<Rightarrow> string option" where
  "scan_space s =
     (if take 1 s = [CHR 0x0A] then None
      else case drop_rune space_runes s of None \<Rightarrow> Some s | Some s' \<Rightarrow> scan_space s')"
  by pat_completeness auto
termination
  by (relation "measure length") (auto dest: drop_rune_shorter)

declare scan_space.simps [simp del]

fun scan_width2 :: "string \<Rightarrow> (int \<times> string) option" where
  "scan_width2 [] = None"
| "scan_width2 [c] = (if is_digit c then Some (int (digit_val c), []) else None)"
| "scan_width2 (c # d # s) =
     (if c = CHR ''+'' \<or> c = CHR ''-'' then
        (if is_digit d then
           Some (if c = CHR ''-'' then - int (digit_val d) else int (digit_val d), s)
         else None)
      else if is_digit c then
        (if is_digit d then Some (int (10 * digit_val c + digit_val d), s)
         else Some (int (digit_val c), d # s))
      else None)"

definition scan_02d :: "string \<Rightarrow> (int \<times> string) option" where
  "scan_02d s = (case scan_space s of None \<Rightarrow> None | Some s' \<Rightarrow> scan_width2 s')"

text \<open>\<open>fmt.Sscanf(s, "%02d:%02d", &h, &m)\<close>.\<close>

definition Sscanf_hhmm :: "string \<Rightarrow> (int \<times> int) option" where
  "Sscanf_hhmm s =
     (case scan_02d s of
        None \<Rightarrow> None
      | Some (h, s1) \<Rightarrow>
          (case s1 of
             [] \<Rightarrow> None
           | c # s2 \<Rightarrow>
               if c \<noteq> CHR '':'' then None
               else (case scan_02d s2 of None \<Rightarrow> None | Some (m, _) \<Rightarrow> Some (h, m))))"

lemma space_runes_hd: "p \<in> set space_runes \<Longrightarrow> \<exists>c r. p = c # r \<and> \<not> is_digit c"
proof -
  have "list_all (\<lambda>p. case p of c # r \<Rightarrow> \<not> is_digit c | [] \<Rightarrow> False) space_runes"
    by code_simp
  then show "p \<in> set space_runes \<Longrightarrow> \<exists>c r. p = c # r \<and> \<not> is_digit c"
    by (cases p) (auto simp: list_all_iff)
qed

lemma drop_rune_digit: "is_digit c \<Longrightarrow> drop_rune space_runes (c # s) = None"
  by (auto simp: drop_rune_def first_such_None_iff dest!: space_runes_hd)

lemma scan_space_digit [simp]: "is_digit c \<Longrightarrow> scan_space (c # s) = Some (c # s)"
  by (subst scan_space.simps) (auto simp: drop_rune_digit is_digit_iff)

lemma scan_02d_two_digits [simp]:
  "is_digit c \<Longrightarrow> is_digit d \<Longrightarrow>
   scan_02d (c # d # s) = Some (int (10 * digit_val c + digit_val d), s)"
  by (auto simp: scan_02d_def)

lemma Sscanf_hhmm_digits:
  "is_digit a \<Longrightarrow> is_digit b \<Longrightarrow> is_digit c \<Longrightarrow> is_digit d \<Longrightarrow>
   Sscanf_hhmm [a, b, CHR '':'', c, d] =
     Some (int (10 * digit_val a + digit_val b), int (10 * digit_val c + digit_val d))"
  by (simp add: Sscanf_hhmm_def del: of_nat_add of_nat_mult)

end
