(* ===== verification/Api_Types.thy ===== *)
theory Api_Types
  imports Go_Time Go_Text
begin

text \<open>
  The types of \<open>api/v1alpha1\<close>: the \<open>SleepSchedule\<close> resource with its spec and status, and the
  constraints of the CRD's OpenAPI schema (the \<open>+kubebuilder:validation\<close> markers), which the
  API server enforces on every stored object.
\<close>

section \<open>Spec\<close>

text \<open>\<open>Day\<close>, \<open>TargetMode\<close> and \<open>SleepSchedulePhase\<close> are Go strings.\<close>

record awake_window =
  aw_Days :: "string list"
  aw_From :: string
  aw_To :: string

definition TargetModeNamespaces :: string where "TargetModeNamespaces = ''namespaces''"
definition TargetModeLabels :: string where "TargetModeLabels = ''labels''"

text \<open>\<open>metav1.LabelSelector\<close>: exact labels and expressions (key, operator, values).\<close>

record label_selector =
  ls_MatchLabels :: "string gomap"
  ls_MatchExpressions :: "(string \<times> string \<times> string list) list"

record target =
  tg_Mode :: string
  tg_Namespaces :: "string list"
  tg_Selector :: "label_selector option"

record resource_ref =
  rr_Kind :: string
  rr_Name :: string
  rr_Namespace :: string

record temporary_wake =
  tw_MaxDuration :: duration
  tw_DefaultDuration :: duration

record sleep_schedule_spec =
  sp_Timezone :: string
  sp_Awake :: "awake_window list"
  sp_Target :: target
  sp_Kinds :: "string list"
  sp_ExcludeRefs :: "resource_ref list"
  sp_SleepReplicas :: int32
  sp_TemporaryWake :: "temporary_wake option"
  sp_DryRun :: bool

section \<open>Status and object\<close>

definition PhaseAsleep :: string where "PhaseAsleep = ''Asleep''"
definition PhaseAwake :: string where "PhaseAwake = ''Awake''"
definition PhaseWokenByOverride :: string where "PhaseWokenByOverride = ''WokenByOverride''"

lemmas phase_defs = PhaseAsleep_def PhaseAwake_def PhaseWokenByOverride_def

text \<open>\<open>status.conditions\<close> is never read or written by the operator and has no field here.\<close>

record sleep_schedule_status =
  ss_Phase :: string
  ss_NextTransition :: "instant option"
  ss_ActiveWakes :: int32
  ss_ArgocdManaged :: bool

text \<open>Of the object metadata, the fields that the operator reads.\<close>

record sleep_schedule =
  ss_Name :: string
  ss_Namespace :: string
  ss_Annotations :: "string gomap"
  ss_Spec :: sleep_schedule_spec
  ss_Status :: sleep_schedule_status

section \<open>The OpenAPI constraints\<close>

definition day_names :: "string list" where
  "day_names = [''Mon'', ''Tue'', ''Wed'', ''Thu'', ''Fri'', ''Sat'', ''Sun'']"

text \<open>The pattern \<open>^([01]\d|2[0-3]):[0-5]\d$\<close> of \<open>from\<close> and \<open>to\<close>.\<close>

definition hhmm_pattern :: "string \<Rightarrow> bool" where
  "hhmm_pattern s =
     (case s of
        [a, b, k, c, d] \<Rightarrow>
          ((a = CHR ''0'' \<or> a = CHR ''1'') \<and> is_digit b
            \<or> a = CHR ''2'' \<and> CHR ''0'' \<le> b \<and> b \<le> CHR ''3'')
          \<and> k = CHR '':'' \<and> CHR ''0'' \<le> c \<and> c \<le> CHR ''5'' \<and> is_digit d
      | _ \<Rightarrow> False)"

definition crd_awake_window :: "awake_window \<Rightarrow> bool" where
  "crd_awake_window w \<longleftrightarrow>
     aw_Days w \<noteq> [] \<and> list_all (\<lambda>d. d \<in> set day_names) (aw_Days w)
     \<and> hhmm_pattern (aw_From w) \<and> hhmm_pattern (aw_To w)"

definition crd_spec :: "sleep_schedule_spec \<Rightarrow> bool" where
  "crd_spec spec \<longleftrightarrow>
     sp_Timezone spec \<noteq> '''' \<and> sp_Awake spec \<noteq> [] \<and> list_all crd_awake_window (sp_Awake spec)
     \<and> (tg_Mode (sp_Target spec) = TargetModeNamespaces
        \<or> tg_Mode (sp_Target spec) = TargetModeLabels)
     \<and> list_all (\<lambda>r. rr_Kind r \<noteq> '''' \<and> rr_Name r \<noteq> '''') (sp_ExcludeRefs spec)
     \<and> 0 \<le> sint (sp_SleepReplicas spec)"

text \<open>A string of the pattern is two numbers in range, written with two digits each.\<close>

lemma hhmm_pattern_cases:
  assumes "hhmm_pattern s"
  obtains a b c d where "s = [a, b, CHR '':'', c, d]"
    "is_digit a" "is_digit b" "is_digit c" "is_digit d"
    "10 * digit_val a + digit_val b \<le> 23" "10 * digit_val c + digit_val d \<le> 59"
proof -
  obtain a b c d where s: "s = [a, b, CHR '':'', c, d]"
    and ab: "(a = CHR ''0'' \<or> a = CHR ''1'') \<and> is_digit b
      \<or> a = CHR ''2'' \<and> CHR ''0'' \<le> b \<and> b \<le> CHR ''3''"
    and cd: "CHR ''0'' \<le> c" "c \<le> CHR ''5''" "is_digit d"
    using assms by (auto simp: hhmm_pattern_def split: list.splits)
  show thesis
    by (rule that [OF s])
      (use ab cd in \<open>auto simp: is_digit_iff digit_val_def less_eq_char_def\<close>)
qed

text \<open>A schedule that the schema and the webhook admit, for the witnesses of the theorems.\<close>

definition office_hours :: sleep_schedule where
  "office_hours = \<lparr>ss_Name = ''office'', ss_Namespace = ''team-a'', ss_Annotations = [],
     ss_Spec = \<lparr>sp_Timezone = ''UTC'',
       sp_Awake = [\<lparr>aw_Days = [''Mon'', ''Tue''], aw_From = ''08:30'', aw_To = ''19:00''\<rparr>],
       sp_Target = \<lparr>tg_Mode = ''namespaces'', tg_Namespaces = [''dev''], tg_Selector = None\<rparr>,
       sp_Kinds = [], sp_ExcludeRefs = [], sp_SleepReplicas = 0,
       sp_TemporaryWake = Some \<lparr>tw_MaxDuration = 4 * d_Hour, tw_DefaultDuration = d_Hour\<rparr>,
       sp_DryRun = False\<rparr>,
     ss_Status = \<lparr>ss_Phase = '''', ss_NextTransition = None, ss_ActiveWakes = 0,
       ss_ArgocdManaged = False\<rparr>\<rparr>"

end
