(* ===== verification/Schedule_Eval.thy ===== *)
theory Schedule_Eval
  imports Api_Types
begin

text \<open>
  \<open>internal/schedule/evaluator.go\<close>: whether a schedule is awake at an instant and when it next
  flips. The day loop of \<open>candidateBoundaries\<close> steps with \<open>AddDate\<close>, which need not move forward
  in every zone; it is a \<^theory_text>\<open>partial_function\<close> whose value \<open>None\<close> stands for a loop that
  does not end.
\<close>

section \<open>The evaluator\<close>

definition scanHorizon :: duration where
  "scanHorizon = 8 * 24 * d_Hour"

record eval_result =
  er_Awake :: bool
  er_Phase :: string
  er_NextTransition :: instant

definition weekdayByDay :: "int gomap" where
  "weekdayByDay =
     [(''Sun'', 0), (''Mon'', 1), (''Tue'', 2), (''Wed'', 3), (''Thu'', 4), (''Fri'', 5), (''Sat'', 6)]"

text \<open>Indexing a Go map at an absent key gives the zero value, here \<open>time.Sunday\<close>.\<close>

definition weekday_of :: "string \<Rightarrow> int" where
  "weekday_of d = (case map_of weekdayByDay d of Some n \<Rightarrow> n | None \<Rightarrow> 0)"

definition phaseFor :: "bool \<Rightarrow> string" where
  "phaseFor awake = (if awake then PhaseAwake else PhaseAsleep)"

definition parseHHMM :: "string \<Rightarrow> int option" where
  "parseHHMM s =
     (case Sscanf_hhmm s of
        None \<Rightarrow> None
      | Some (h, m) \<Rightarrow>
          if h < 0 \<or> h > 23 \<or> m < 0 \<or> m > 59 then None else Some (h * 60 + m))"

fun windowCoversDay_loop :: "string list \<Rightarrow> int \<Rightarrow> bool" where
  "windowCoversDay_loop [] wd = False"
| "windowCoversDay_loop (d # ds) wd = (if weekday_of d = wd then True else windowCoversDay_loop ds wd)"

definition windowCoversDay :: "awake_window \<Rightarrow> int \<Rightarrow> bool" where
  "windowCoversDay w wd = windowCoversDay_loop (aw_Days w) wd"

fun isAwakeAt_loop :: "awake_window list \<Rightarrow> int \<Rightarrow> int \<Rightarrow> bool" where
  "isAwakeAt_loop [] wd minutes = False"
| "isAwakeAt_loop (w # ws) wd minutes =
     (if \<not> windowCoversDay w wd then isAwakeAt_loop ws wd minutes
      else case (parseHHMM (aw_From w), parseHHMM (aw_To w)) of
             (Some from, Some to) \<Rightarrow>
               if minutes \<ge> from \<and> minutes < to then True else isAwakeAt_loop ws wd minutes
           | _ \<Rightarrow> isAwakeAt_loop ws wd minutes)"

definition isAwakeAt :: "sleep_schedule_spec \<Rightarrow> location \<Rightarrow> instant \<Rightarrow> bool" where
  "isAwakeAt spec loc t =
     isAwakeAt_loop (sp_Awake spec) (time_Weekday loc t) (time_Hour loc t * 60 + time_Minute loc t)"

text \<open>The boundaries that one day of the loop appends to \<open>out\<close>.\<close>

fun window_boundaries ::
  "location \<Rightarrow> instant \<Rightarrow> instant \<Rightarrow> instant \<Rightarrow> string list \<Rightarrow> instant list" where
  "window_boundaries loc after limit day [] = []"
| "window_boundaries loc after limit day (hhmm # rest) =
     (case parseHHMM hhmm of
        None \<Rightarrow> window_boundaries loc after limit day rest
      | Some m \<Rightarrow>
          (case time_Date_of loc day of (y, mo, d) \<Rightarrow>
             let b = go_Date loc y mo d (m div 60) (m mod 60) 0 0
             in (if time_After b after \<and> \<not> time_After b limit then [b] else [])
                @ window_boundaries loc after limit day rest))"

fun day_boundaries ::
  "awake_window list \<Rightarrow> location \<Rightarrow> instant \<Rightarrow> instant \<Rightarrow> instant \<Rightarrow> instant list" where
  "day_boundaries [] loc after limit day = []"
| "day_boundaries (w # ws) loc after limit day =
     (if \<not> windowCoversDay w (time_Weekday loc day) then day_boundaries ws loc after limit day
      else window_boundaries loc after limit day [aw_From w, aw_To w]
           @ day_boundaries ws loc after limit day)"

partial_function (option) boundary_loop ::
  "sleep_schedule_spec \<Rightarrow> location \<Rightarrow> instant \<Rightarrow> instant \<Rightarrow> instant \<Rightarrow> instant list \<Rightarrow> instant list option"
where
  "boundary_loop spec loc after limit day out =
     (if time_After day limit then Some out
      else boundary_loop spec loc after limit (time_AddDate loc day 0 0 1)
             (out @ day_boundaries (sp_Awake spec) loc after limit day))"

declare boundary_loop.simps [code]

text \<open>
  The insertion sort by adjacent swaps: the inner loop moves the element at index \<open>j\<close> down while
  it is before its left neighbour.
\<close>

fun sift_down :: "instant list \<Rightarrow> nat \<Rightarrow> instant list" where
  "sift_down ts 0 = ts"
| "sift_down ts (Suc j) =
     (if time_Before (ts ! Suc j) (ts ! j)
      then sift_down (ts[Suc j := ts ! j, j := ts ! Suc j]) j
      else ts)"

lemma length_sift_down [simp]: "length (sift_down ts j) = length ts"
  by (induction ts j rule: sift_down.induct) auto

function insertionSort_from :: "instant list \<Rightarrow> nat \<Rightarrow> instant list" where
  "insertionSort_from ts i =
     (if i < length ts then insertionSort_from (sift_down ts i) (Suc i) else ts)"
  by pat_completeness auto
termination
  by (relation "measure (\<lambda>(ts, i). length ts - i)") auto

declare insertionSort_from.simps [simp del]

definition insertionSort :: "instant list \<Rightarrow> instant list" where
  "insertionSort ts = insertionSort_from ts 1"

definition candidateBoundaries ::
  "sleep_schedule_spec \<Rightarrow> location \<Rightarrow> instant \<Rightarrow> instant \<Rightarrow> instant list option" where
  "candidateBoundaries spec loc after limit =
     (case time_Date_of loc after of (y, mo, d) \<Rightarrow>
        let startDay = go_Date loc y mo d 0 0 0 0
        in map_option insertionSort (boundary_loop spec loc after limit startDay []))"

definition Evaluate ::
  "(string \<Rightarrow> location option) \<Rightarrow> sleep_schedule_spec \<Rightarrow> instant \<Rightarrow> (go_error + eval_result) option"
where
  "Evaluate LoadLocation spec now =
     (case LoadLocation (sp_Timezone spec) of
        None \<Rightarrow> Some (Inl (LoadTimezone (sp_Timezone spec)))
      | Some loc \<Rightarrow>
          (let awake = isAwakeAt spec loc now;
               limit = time_Add now scanHorizon
           in case candidateBoundaries spec loc now limit of
                None \<Rightarrow> None
              | Some bs \<Rightarrow>
                  Some (Inr \<lparr>er_Awake = awake, er_Phase = phaseFor awake,
                    er_NextTransition =
                      (case first_such (\<lambda>b. isAwakeAt spec loc b \<noteq> awake) bs of
                         None \<Rightarrow> zero_time | Some b \<Rightarrow> b)\<rparr>)))"

section \<open>The insertion sort\<close>

lemma mset_sift_down: "j < length ts \<Longrightarrow> mset (sift_down ts j) = mset ts"
proof (induction ts j rule: sift_down.induct)
  case (2 ts j)
  then show ?case by (simp add: mset_swap)
qed simp

text \<open>Sifting index \<open>j\<close> down into a sorted prefix makes the prefix one longer sorted.\<close>

lemma sift_down_above: "j < k \<Longrightarrow> k < length ts \<Longrightarrow> sift_down ts j ! k = ts ! k"
  by (induction ts j rule: sift_down.induct) (auto simp: nth_list_update)

definition sorted_upto :: "instant list \<Rightarrow> nat \<Rightarrow> bool" where
  "sorted_upto ts n \<longleftrightarrow> (\<forall>i j. i < j \<longrightarrow> j < n \<longrightarrow> ts ! i \<le> ts ! j)"

text \<open>All but index \<open>j\<close> in order, and index \<open>j\<close> in order with what is above it.\<close>

definition sorted_but :: "instant list \<Rightarrow> nat \<Rightarrow> nat \<Rightarrow> bool" where
  "sorted_but ts j n \<longleftrightarrow>
     (\<forall>a b. a < b \<longrightarrow> b < n \<longrightarrow> b \<noteq> j \<longrightarrow> ts ! a \<le> ts ! b)"

lemma sift_down_sorted:
  "j < n \<Longrightarrow> n \<le> length ts \<Longrightarrow> sorted_but ts j n \<Longrightarrow> sorted_upto (sift_down ts j) n"
proof (induction ts j rule: sift_down.induct)
  case (1 ts)
  then show ?case by (auto simp: sorted_upto_def sorted_but_def)
next
  case (2 ts j)
  show ?case
  proof (cases "ts ! Suc j < ts ! j")
    case True
    let ?ts = "ts[Suc j := ts ! j, j := ts ! Suc j]"
    have "sorted_but ?ts j n"
      unfolding sorted_but_def
    proof (intro allI impI)
      fix a b assume ab: "a < b" "b < n" "b \<noteq> j"
      have s: "ts ! x \<le> ts ! y" if "x < y" "y < n" "y \<noteq> Suc j" for x y
        using 2(4) that by (auto simp: sorted_but_def)
      show "?ts ! a \<le> ?ts ! b"
        using ab "2.prems"(1,2) True s [of a b] s [of a j] s [of j b] s [of "Suc j" b]
        by (auto simp: nth_list_update)
    qed
    with 2 True show ?thesis by (simp add: time_Before_def)
  next
    case False
    have "sorted_upto ts n"
      unfolding sorted_upto_def
    proof (intro allI impI)
      fix a b assume ab: "a < b" "b < n"
      have s: "ts ! x \<le> ts ! y" if "x < y" "y < n" "y \<noteq> Suc j" for x y
        using 2(4) that by (auto simp: sorted_but_def)
      show "ts ! a \<le> ts ! b"
        using ab "2.prems"(1) False s [of a b] s [of a j] by (cases "b = Suc j") (auto elim: less_SucE)
    qed
    with False show ?thesis by (simp add: time_Before_def)
  qed
qed

lemma insertionSort_from_sorted:
  "sorted_upto ts i \<Longrightarrow> i \<le> length ts \<or> ts = [] \<Longrightarrow>
   sorted_upto (insertionSort_from ts i) (length ts)"
proof (induction ts i rule: insertionSort_from.induct)
  case (1 ts i)
  show ?case
  proof (cases "i < length ts")
    case True
    have "sorted_upto (sift_down ts i) (Suc i)"
      using "1.prems"(1) True
      by (intro sift_down_sorted) (auto simp: sorted_upto_def sorted_but_def)
    with 1 True show ?thesis by (simp add: insertionSort_from.simps [of ts i])
  next
    case False
    with 1 show ?thesis by (auto simp: insertionSort_from.simps [of ts i] sorted_upto_def)
  qed
qed

lemma mset_insertionSort_from: "mset (insertionSort_from ts i) = mset ts"
proof (induction ts i rule: insertionSort_from.induct)
  case (1 ts i)
  then show ?case by (simp add: insertionSort_from.simps [of ts i] mset_sift_down)
qed

lemma mset_insertionSort [simp]: "mset (insertionSort ts) = mset ts"
  by (simp add: insertionSort_def mset_insertionSort_from)

lemma set_insertionSort [simp]: "set (insertionSort ts) = set ts"
  by (metis mset_insertionSort set_mset_mset)

lemma sorted_insertionSort: "sorted (insertionSort ts)"
proof -
  have "length (insertionSort ts) = length ts" by (metis mset_insertionSort size_mset)
  moreover have "sorted_upto (insertionSort ts) (length ts)"
    unfolding insertionSort_def
    by (rule insertionSort_from_sorted) (cases ts; simp add: sorted_upto_def)+
  ultimately show ?thesis
    by (auto simp: sorted_iff_nth_mono_less sorted_upto_def)
qed

end
