(* ===== verification/Schedule_Correct.thy ===== *)
theory Schedule_Correct
  imports Schedule_Eval
begin

text \<open>
  What the evaluator computes: the windows as a set of wall-clock minutes, the boundaries as the
  wall-clock times at which that set can change, and the next transition as the first instant at
  which it does.
\<close>

section \<open>Sorting\<close>

text \<open>C36: the hand-written insertion sort of the boundaries is the library's \<open>sort\<close>: the same
  elements, in ascending order.\<close>

theorem insertionSort_is_sort: "insertionSort ts = sort ts"
  by (metis mset_insertionSort properties_for_sort sorted_insertionSort)

section \<open>Windows\<close>

lemma windowCoversDay_iff: "windowCoversDay w wd \<longleftrightarrow> (\<exists>d \<in> set (aw_Days w). weekday_of d = wd)"
proof -
  have "windowCoversDay_loop ds wd \<longleftrightarrow> (\<exists>d \<in> set ds. weekday_of d = wd)" for ds
    by (induction ds) auto
  then show ?thesis by (simp add: windowCoversDay_def)
qed

definition window_contains :: "awake_window \<Rightarrow> int \<Rightarrow> int \<Rightarrow> bool" where
  "window_contains w wd minutes \<longleftrightarrow>
     windowCoversDay w wd \<and>
     (\<exists>from to. parseHHMM (aw_From w) = Some from \<and> parseHHMM (aw_To w) = Some to
        \<and> from \<le> minutes \<and> minutes < to)"

lemma isAwakeAt_loop_iff:
  "isAwakeAt_loop ws wd minutes \<longleftrightarrow> (\<exists>w \<in> set ws. window_contains w wd minutes)"
  by (induction ws) (auto simp: window_contains_def split: option.splits)

lemma parseHHMM_range: "parseHHMM s = Some m \<Longrightarrow> 0 \<le> m \<and> m \<le> 1439"
  by (auto simp: parseHHMM_def split: option.splits if_splits)

lemma parseHHMM_pattern:
  assumes "hhmm_pattern s"
  obtains a b c d where "s = [a, b, CHR '':'', c, d]"
    "is_digit a" "is_digit b" "is_digit c" "is_digit d"
    "parseHHMM s = Some (60 * (10 * int (digit_val a) + int (digit_val b))
       + 10 * int (digit_val c) + int (digit_val d))"
proof -
  obtain a b c d where *: "s = [a, b, CHR '':'', c, d]"
    "is_digit a" "is_digit b" "is_digit c" "is_digit d"
    "10 * digit_val a + digit_val b \<le> 23" "10 * digit_val c + digit_val d \<le> 59"
    using assms by (rule hhmm_pattern_cases)
  have "\<not> int (10 * digit_val a + digit_val b) > 23" "\<not> int (10 * digit_val c + digit_val d) > 59"
    using *(6,7) by linarith+
  then have "parseHHMM s = Some (60 * (10 * int (digit_val a) + int (digit_val b))
       + 10 * int (digit_val c) + int (digit_val d))"
    using *(1-5) by (simp add: parseHHMM_def Sscanf_hhmm_digits algebra_simps)
  with that * show thesis by blast
qed

section \<open>The wall clock and its boundaries\<close>

text \<open>Whether the schedule is awake at a local time, in seconds since 1 January 1970.\<close>

definition awake_local :: "sleep_schedule_spec \<Rightarrow> int \<Rightarrow> bool" where
  "awake_local spec L =
     isAwakeAt_loop (sp_Awake spec) ((L div 86400 + 4) mod 7) (L mod 86400 div 60)"

lemma isAwakeAt_local: "isAwakeAt spec loc t = awake_local spec (local_secs loc t)"
  by (simp add: isAwakeAt_def awake_local_def hour_minute_of_day time_Weekday_def local_day_def)

definition boundary_point :: "sleep_schedule_spec \<Rightarrow> int \<Rightarrow> int \<Rightarrow> bool" where
  "boundary_point spec n m \<longleftrightarrow>
     (\<exists>w \<in> set (sp_Awake spec). windowCoversDay w ((n + 4) mod 7)
        \<and> (parseHHMM (aw_From w) = Some m \<or> parseHHMM (aw_To w) = Some m))"

definition is_boundary :: "sleep_schedule_spec \<Rightarrow> int \<Rightarrow> bool" where
  "is_boundary spec B \<longleftrightarrow> (\<exists>n m. boundary_point spec n m \<and> B = n * 86400 + m * 60)"

lemma boundary_point_range: "boundary_point spec n m \<Longrightarrow> 0 \<le> m \<and> m \<le> 1439"
  by (auto simp: boundary_point_def dest: parseHHMM_range)

lemma day_of_seconds:
  fixes n r :: int
  assumes "0 \<le> r" "r < 86400"
  shows "(n * 86400 + r) div 86400 = n" and "(n * 86400 + r) mod 86400 = r"
  using assms by (simp_all add: mult.commute)

lemma minute_le_iff: "m \<le> r div 60 \<longleftrightarrow> m * 60 \<le> (r :: int)"
proof -
  have "r = r div 60 * 60 + r mod 60" "0 \<le> r mod 60" "r mod 60 < 60" by simp_all
  then show ?thesis by linarith
qed

lemma minute_less_iff: "r div 60 < m \<longleftrightarrow> r < m * 60" for r m :: int
  using minute_le_iff [of m r] by linarith

lemma same_day:
  fixes L1 L2 n :: int
  assumes "n * 86400 \<le> L1" "L1 \<le> L2" "L2 < (n + 1) * 86400"
  shows "L1 div 86400 = n" "L2 div 86400 = n" "L1 mod 86400 \<le> L2 mod 86400"
proof -
  have "L1 = n * 86400 + (L1 - n * 86400)" "L2 = n * 86400 + (L2 - n * 86400)" by simp_all
  moreover have "0 \<le> L1 - n * 86400" "L1 - n * 86400 < 86400" "0 \<le> L2 - n * 86400"
    "L2 - n * 86400 < 86400" using assms by simp_all
  ultimately show "L1 div 86400 = n" "L2 div 86400 = n" "L1 mod 86400 \<le> L2 mod 86400"
    using day_of_seconds assms(2) by (metis, metis, metis diff_right_mono)
qed

lemma awake_local_iff:
  "awake_local spec L \<longleftrightarrow>
     (\<exists>w \<in> set (sp_Awake spec). windowCoversDay w ((L div 86400 + 4) mod 7)
        \<and> (\<exists>f t. parseHHMM (aw_From w) = Some f \<and> parseHHMM (aw_To w) = Some t
            \<and> f * 60 \<le> L mod 86400 \<and> L mod 86400 < t * 60))"
  by (simp only: awake_local_def isAwakeAt_loop_iff window_contains_def minute_le_iff
      minute_less_iff)

text \<open>The awake state changes at boundaries only.\<close>

lemma awake_without_boundary:
  assumes le: "L1 \<le> L2" and none: "\<And>B. is_boundary spec B \<Longrightarrow> \<not> (L1 < B \<and> B \<le> L2)"
  shows "awake_local spec L1 = awake_local spec L2"
proof -
  have nb: "\<not> (L1 < n * 86400 + m * 60 \<and> n * 86400 + m * 60 \<le> L2)" if "boundary_point spec n m" for n m
    using none that by (auto simp: is_boundary_def)
  have split1: "L1 = L1 div 86400 * 86400 + L1 mod 86400" "0 \<le> L1 mod 86400" "L1 mod 86400 < 86400"
    and split2: "L2 = L2 div 86400 * 86400 + L2 mod 86400" "0 \<le> L2 mod 86400" "L2 mod 86400 < 86400"
    by simp_all
  show ?thesis
  proof
    assume "awake_local spec L1"
    then obtain w f t where w: "w \<in> set (sp_Awake spec)"
      "windowCoversDay w ((L1 div 86400 + 4) mod 7)"
      "parseHHMM (aw_From w) = Some f" "parseHHMM (aw_To w) = Some t"
      and r: "f * 60 \<le> L1 mod 86400" "L1 mod 86400 < t * 60"
      unfolding awake_local_iff by blast
    have bp: "boundary_point spec (L1 div 86400) t" using w by (auto simp: boundary_point_def)
    have "L1 < L1 div 86400 * 86400 + t * 60" using r(2) split1(1) by linarith
    then have "L2 < L1 div 86400 * 86400 + t * 60" using nb [OF bp] by linarith
    moreover have "t \<le> 1439" using parseHHMM_range w by blast
    ultimately have bound: "L2 < (L1 div 86400 + 1) * 86400" unfolding distrib_right by linarith
    have d: "L2 div 86400 = L1 div 86400" "L1 mod 86400 \<le> L2 mod 86400"
      by (rule same_day [OF _ le bound], use split1 in linarith)+
    then have "L2 = L1 div 86400 * 86400 + L2 mod 86400" using split2(1) by metis
    then have "L2 mod 86400 < t * 60"
      using \<open>L2 < L1 div 86400 * 86400 + t * 60\<close> by linarith
    moreover have "f * 60 \<le> L2 mod 86400" using r(1) d(2) by (rule order_trans)
    ultimately show "awake_local spec L2"
      using w unfolding awake_local_iff d(1) by blast
  next
    assume "awake_local spec L2"
    then obtain w f t where w: "w \<in> set (sp_Awake spec)"
      "windowCoversDay w ((L2 div 86400 + 4) mod 7)"
      "parseHHMM (aw_From w) = Some f" "parseHHMM (aw_To w) = Some t"
      and r: "f * 60 \<le> L2 mod 86400" "L2 mod 86400 < t * 60"
      unfolding awake_local_iff by blast
    have bp: "boundary_point spec (L2 div 86400) f" using w by (auto simp: boundary_point_def)
    have "L2 div 86400 * 86400 + f * 60 \<le> L2" using r(1) split2(1) by linarith
    then have "L2 div 86400 * 86400 + f * 60 \<le> L1" using nb [OF bp] by linarith
    moreover have "0 \<le> f" using parseHHMM_range w by blast
    ultimately have bound: "L2 div 86400 * 86400 \<le> L1" by linarith
    have ub: "L2 < (L2 div 86400 + 1) * 86400" using split2 unfolding distrib_right by linarith
    have d: "L1 div 86400 = L2 div 86400" "L1 mod 86400 \<le> L2 mod 86400"
      using same_day [OF bound le ub] by blast+
    then have "L1 = L2 div 86400 * 86400 + L1 mod 86400" using split1(1) by metis
    then have "f * 60 \<le> L1 mod 86400"
      using \<open>L2 div 86400 * 86400 + f * 60 \<le> L1\<close> by linarith
    moreover have "L1 mod 86400 < t * 60" using d(2) r(2) by (rule le_less_trans)
    ultimately show "awake_local spec L1"
      using w unfolding awake_local_iff d(1) by blast
  qed
qed

lemma first_flip_is_boundary:
  assumes "L1 \<le> L2" and "awake_local spec L1 \<noteq> awake_local spec L2"
  obtains B where "is_boundary spec B" "L1 < B" "B \<le> L2" "awake_local spec B \<noteq> awake_local spec L1"
proof -
  define S where "S = {B. is_boundary spec B \<and> L1 < B \<and> B \<le> L2}"
  have fin: "finite S" by (rule finite_subset [of _ "{L1<..L2}"]) (auto simp: S_def)
  have ne: "S \<noteq> {}" using awake_without_boundary [OF assms(1), of spec] assms(2) by (auto simp: S_def)
  define B where "B = Max S"
  have B: "B \<in> S" using Max_in [OF fin ne] by (simp add: B_def)
  have "awake_local spec B = awake_local spec L2"
  proof (rule awake_without_boundary)
    show "B \<le> L2" using B by (simp add: S_def)
    fix B' assume "is_boundary spec B'"
    then have "B < B' \<Longrightarrow> B' \<le> L2 \<Longrightarrow> B' \<in> S" using B by (simp add: S_def)
    then show "\<not> (B < B' \<and> B' \<le> L2)"
      using Max_ge [OF fin, of B'] by (auto simp flip: B_def)
  qed
  with B assms(2) show thesis by (intro that [of B]) (auto simp: S_def)
qed

section \<open>The candidate boundaries\<close>

lemma window_boundaries_set:
  "b \<in> set (window_boundaries loc after limit day hs) \<longleftrightarrow>
     (\<exists>h \<in> set hs. \<exists>m. parseHHMM h = Some m
        \<and> b = at_local loc (local_day loc day * 86400 + m * 60) 0 \<and> after < b \<and> b \<le> limit)"
proof (induction hs)
  case (Cons h hs)
  obtain y mo d where c: "civil_of_days (local_day loc day) = (y, mo, d)"
    by (cases "civil_of_days (local_day loc day)") auto
  have "m div 60 * 3600 + m mod 60 * 60 = m * 60" for m :: int
    using div_mult_mod_eq [of m 60] by linarith
  then have "go_Date loc y mo d (m div 60) (m mod 60) 0 0
      = at_local loc (local_day loc day * 86400 + m * 60) 0" for m
    by (simp add: go_Date_on_day [OF c] add.assoc)
  with Cons c show ?case
    by (auto simp: time_Date_of_def time_After_def Let_def split: option.splits if_splits)
qed simp

lemma day_boundaries_set:
  "b \<in> set (day_boundaries ws loc after limit day) \<longleftrightarrow>
     (\<exists>w \<in> set ws. windowCoversDay w (time_Weekday loc day)
        \<and> (\<exists>m. (parseHHMM (aw_From w) = Some m \<or> parseHHMM (aw_To w) = Some m)
            \<and> b = at_local loc (local_day loc day * 86400 + m * 60) 0 \<and> after < b \<and> b \<le> limit))"
proof (induction ws)
  case (Cons w ws)
  then show ?case by (auto simp: window_boundaries_set simp del: window_boundaries.simps)
qed simp

lemma day_boundaries_point:
  "b \<in> set (day_boundaries (sp_Awake spec) loc after limit day) \<longleftrightarrow>
     (\<exists>m. boundary_point spec (local_day loc day) m
        \<and> b = at_local loc (local_day loc day * 86400 + m * 60) 0 \<and> after < b \<and> b \<le> limit)"
  by (auto simp: day_boundaries_set boundary_point_def time_Weekday_def)

text \<open>The loop visits the iterates of \<open>AddDate(0, 0, 1)\<close> up to the first one past the limit.\<close>

definition next_day :: "location \<Rightarrow> instant \<Rightarrow> instant" where
  "next_day loc day = time_AddDate loc day 0 0 1"

lemma boundary_loop_iterates:
  assumes "limit < (next_day loc ^^ n) day" and "\<And>i. i < n \<Longrightarrow> (next_day loc ^^ i) day \<le> limit"
  shows "boundary_loop spec loc after limit day out = Some (out @
    concat (map (\<lambda>i. day_boundaries (sp_Awake spec) loc after limit ((next_day loc ^^ i) day)) [0..<n]))"
  using assms
proof (induction n arbitrary: day out)
  case 0
  then show ?case by (subst boundary_loop.simps) (simp add: time_After_def)
next
  case (Suc n)
  have "day \<le> limit" using Suc.prems(2) [of 0] by simp
  moreover have "boundary_loop spec loc after limit (next_day loc day) out' = Some (out' @
    concat (map (\<lambda>i. day_boundaries (sp_Awake spec) loc after limit ((next_day loc ^^ i) (next_day loc day)))
      [0..<n]))" for out'
    using Suc.prems Suc.prems(2) [of "Suc i" for i]
    by (intro Suc.IH) (simp_all add: funpow_swap1)
  ultimately show ?case
    by (subst boundary_loop.simps)
      (simp add: time_After_def funpow_swap1 upt_conv_Cons map_Suc_upt [symmetric] comp_def
        flip: next_day_def del: upt_Suc)
qed

lemma AddDate_gain:
  "\<exists>s. next_day loc day = day + (86400 + z_offset (loc (unix day)) - z_offset (loc s)) * d_Second"
proof -
  obtain s where "next_day loc day =
      (local_secs loc day + 86400 - z_offset (loc s)) * d_Second + nanos day"
    using at_local_offset [of loc "local_secs loc day + 1 * 86400" "nanos day"]
    by (auto simp: next_day_def AddDate_days)
  then show ?thesis
    using unix_nanos [of day] by (intro exI [of _ s]) (simp add: local_secs_def algebra_simps)
qed

definition offsets_within_a_day :: "location \<Rightarrow> bool" where
  "offsets_within_a_day loc \<longleftrightarrow> (\<forall>a b. z_offset (loc a) - z_offset (loc b) < 86400)"

lemma next_day_later: "offsets_within_a_day loc \<Longrightarrow> day + d_Second \<le> next_day loc day"
proof -
  assume *: "offsets_within_a_day loc"
  obtain s where s: "next_day loc day = day + (86400 + z_offset (loc (unix day)) - z_offset (loc s)) * d_Second"
    using AddDate_gain by blast
  have "z_offset (loc s) - z_offset (loc (unix day)) < 86400"
    using * by (simp add: offsets_within_a_day_def)
  then have "1 \<le> 86400 + z_offset (loc (unix day)) - z_offset (loc s)" by simp
  then have "1 * d_Second \<le> (86400 + z_offset (loc (unix day)) - z_offset (loc s)) * d_Second"
    by (intro mult_right_mono) auto
  with s show ?thesis by simp
qed

lemma boundary_loop_returns:
  assumes "offsets_within_a_day loc"
  obtains n where "limit < (next_day loc ^^ n) day"
    and "\<And>i. i < n \<Longrightarrow> (next_day loc ^^ i) day \<le> limit"
proof -
  have grow: "day + int n * d_Second \<le> (next_day loc ^^ n) day" for n
  proof (induction n)
    case (Suc n)
    then show ?case
      using next_day_later [OF assms, of "(next_day loc ^^ n) day"] by (simp add: distrib_right)
  qed simp
  have "limit < day + int (nat (limit - day) + 1) * d_Second"
    by (cases "day \<le> limit") (auto simp: distrib_right)
  with grow have ex: "limit < (next_day loc ^^ (nat (limit - day) + 1)) day"
    by (meson less_le_trans)
  define n where "n = (LEAST n. limit < (next_day loc ^^ n) day)"
  have "limit < (next_day loc ^^ n) day" unfolding n_def using ex by (rule LeastI)
  moreover have "(next_day loc ^^ i) day \<le> limit" if "i < n" for i
    using not_less_Least [OF that [unfolded n_def]] by simp
  ultimately show thesis using that by blast
qed

section \<open>A zone that stays in force\<close>

text \<open>The zone \<open>z\<close> is in force at every second from \<open>a\<close> to \<open>b\<close>.\<close>

definition steady_between :: "location \<Rightarrow> zone \<Rightarrow> int \<Rightarrow> int \<Rightarrow> bool" where
  "steady_between loc z a b \<longleftrightarrow> (\<forall>s. a \<le> s \<and> s \<le> b \<longrightarrow> loc s = z)"

lemma steady_at_local:
  assumes "steady_between loc z a b" "a \<le> L" "L \<le> b" "a \<le> L - z_offset z" "L - z_offset z \<le> b"
  shows "at_local loc L n = (L - z_offset z) * d_Second + n"
proof -
  have "loc L = z" "loc (L - z_offset z) = z" using assms by (auto simp: steady_between_def)
  then show ?thesis by (simp add: at_local_def Let_def)
qed

lemma steady_local_secs:
  "steady_between loc z a b \<Longrightarrow> a \<le> unix t \<Longrightarrow> unix t \<le> b \<Longrightarrow>
   local_secs loc t = unix t + z_offset z"
  by (simp add: local_secs_def steady_between_def)

lemma steady_next_days:
  assumes st: "steady_between loc z a b"
    and lo: "a \<le> D * 86400" "a \<le> D * 86400 - z_offset z"
    and hi: "(D + int k) * 86400 \<le> b" "(D + int k) * 86400 - z_offset z \<le> b"
  shows "(next_day loc ^^ k) ((D * 86400 - z_offset z) * d_Second)
    = ((D + int k) * 86400 - z_offset z) * d_Second"
  using hi
proof (induction k)
  case (Suc k)
  let ?X = "(D + int k) * 86400 - z_offset z"
  have IH: "(next_day loc ^^ k) ((D * 86400 - z_offset z) * d_Second) = ?X * d_Second"
    using Suc by (simp add: distrib_right)
  have X: "unix (?X * d_Second) = ?X" "nanos (?X * d_Second) = 0"
    by (simp_all only: unix_def nanos_def) simp_all
  have "a \<le> ?X" "?X \<le> b" using Suc.prems lo by (simp_all add: distrib_right)
  then have ls: "local_secs loc (?X * d_Second) = (D + int k) * 86400"
    using steady_local_secs [OF st, of "?X * d_Second"] X by simp
  have "(next_day loc ^^ Suc k) ((D * 86400 - z_offset z) * d_Second) = next_day loc (?X * d_Second)"
    by (simp only: funpow.simps comp_apply IH)
  also have "\<dots> = at_local loc ((D + int k) * 86400 + 1 * 86400) 0"
    by (simp only: next_day_def AddDate_days ls X)
  also have "(D + int k) * 86400 + 1 * 86400 = (D + int (Suc k)) * 86400" by simp
  also have "at_local loc \<dots> 0 = ((D + int (Suc k)) * 86400 - z_offset z) * d_Second + 0"
    using Suc.prems lo by (intro steady_at_local [OF st]) (simp_all add: distrib_right)
  finally show ?case by simp
qed simp

lemma day_bounds:
  fixes x :: int
  shows "x div 86400 * 86400 \<le> x" and "x < (x div 86400 + 1) * 86400"
proof -
  have "x = x div 86400 * 86400 + x mod 86400" "0 \<le> x mod 86400" "x mod 86400 < 86400" by simp_all
  then show "x div 86400 * 86400 \<le> x" "x < (x div 86400 + 1) * 86400"
    unfolding distrib_right by linarith+
qed

lemma instant_bounds: "unix t * d_Second \<le> t" "t < (unix t + 1) * d_Second"
  using unix_nanos [of t] nanos_range [of t] unfolding distrib_right by linarith+

lemma le_instant_iff: "x * d_Second \<le> t \<longleftrightarrow> x \<le> unix t"
  using instant_bounds [of t] unfolding distrib_right by linarith

lemma steady_candidates:
  assumes st: "steady_between loc z (unix now - 2 * 86400) (unix now + 10 * 86400)"
    and off: "\<bar>z_offset z\<bar> < 86400"
  defines "limit \<equiv> now + scanHorizon"
  obtains bs where "candidateBoundaries spec loc now limit = Some bs" and "sorted bs"
    and "set bs = {b. \<exists>B. is_boundary spec B \<and> b = (B - z_offset z) * d_Second \<and> now < b \<and> b \<le> limit}"
proof -
  define o' where "o' = z_offset z"
  define a where "a = unix now - 2 * 86400"
  define b where "b = unix now + 10 * 86400"
  note st' = st [folded a_def b_def]
  have ul: "unix limit = unix now + 691200"
    by (simp add: unix_def limit_def scanHorizon_def)
  define D where "D = local_day loc now"
  define M where "M = (unix limit + o') div 86400"
  have Lnow: "local_secs loc now = unix now + o'"
    using steady_local_secs [OF st, of now] by (simp add: o'_def)
  have D: "D * 86400 \<le> unix now + o'" "unix now + o' < (D + 1) * 86400"
    using day_bounds [of "unix now + o'"] by (simp_all add: D_def local_day_def Lnow)
  have M: "M * 86400 \<le> unix limit + o'" "unix limit + o' < (M + 1) * 86400"
    using day_bounds [of "unix limit + o'"] by (simp_all add: M_def)
  have DM: "D \<le> M" using D M ul by simp
  define n where "n = nat (M - D + 1)"
  have n: "int n = M - D + 1" using DM by (simp add: n_def)
  define start where "start = (D * 86400 - o') * d_Second"
  have lo: "a \<le> D * 86400" "a \<le> D * 86400 - o'" using D off by (auto simp: a_def o'_def)
  have hi: "K * 86400 \<le> b" "K * 86400 - o' \<le> b" if "K \<le> M + 1" for K
    using that M ul off by (auto simp: b_def o'_def)
  have days: "(next_day loc ^^ k) start = ((D + int k) * 86400 - o') * d_Second" if "k \<le> n" for k
    using steady_next_days [OF st' lo(1) lo(2) [unfolded o'_def], of k] hi [of "D + int k"] that n
    by (simp add: start_def o'_def)
  have startDay: "go_Date loc y mo d 0 0 0 0 = start" if "civil_of_days D = (y, mo, d)" for y mo d
    using steady_at_local [OF st', of "D * 86400" 0] lo hi [of D] DM that
    by (simp add: go_Date_on_day [OF that] start_def o'_def)
  have "limit < (next_day loc ^^ n) start"
  proof -
    have "unix limit + 1 \<le> (D + int n) * 86400 - o'" using M n by simp
    then have "(unix limit + 1) * d_Second \<le> ((D + int n) * 86400 - o') * d_Second"
      by (intro mult_right_mono) auto
    with instant_bounds [of limit] show ?thesis using days [of n] by simp
  qed
  moreover have "(next_day loc ^^ i) start \<le> limit" if "i < n" for i
  proof -
    have "(D + int i) * 86400 - o' \<le> unix limit" using that n M by simp
    then show ?thesis unfolding days [OF less_imp_le [OF that]] le_instant_iff .
  qed
  ultimately have loop: "boundary_loop spec loc now limit start [] = Some (concat (map (\<lambda>i.
      day_boundaries (sp_Awake spec) loc now limit ((next_day loc ^^ i) start)) [0..<n]))"
    using boundary_loop_iterates [of limit n loc start spec now "[]"] by simp
  define bs0 where "bs0 = concat (map (\<lambda>i.
      day_boundaries (sp_Awake spec) loc now limit ((next_day loc ^^ i) start)) [0..<n])"
  have cand: "candidateBoundaries spec loc now limit = Some (insertionSort bs0)"
    using startDay loop
    by (simp add: candidateBoundaries_def time_Date_of_def D_def bs0_def split: prod.splits)
  have ld: "local_day loc ((next_day loc ^^ i) start) = D + int i" if "i < n" for i
  proof -
    let ?t = "((D + int i) * 86400 - o') * d_Second"
    have u: "unix ?t = (D + int i) * 86400 - o'" by (simp only: unix_def) simp
    have "a \<le> (D + int i) * 86400 - o'" using lo by (simp add: distrib_right)
    then have "local_secs loc ?t = (D + int i) * 86400"
      using steady_local_secs [OF st', of ?t] hi [of "D + int i"] that n u by (simp add: o'_def)
    then show ?thesis using days [of i] that by (simp add: local_day_def)
  qed
  have at: "at_local loc ((D + int i) * 86400 + m * 60) 0
      = ((D + int i) * 86400 + m * 60 - o') * d_Second"
    if "i < n" "boundary_point spec (D + int i) m" for i m
  proof -
    have "0 \<le> m" "m \<le> 1439" using boundary_point_range that(2) by blast+
    then show ?thesis
      using steady_at_local [OF st', of "(D + int i) * 86400 + m * 60" 0] lo hi [of "D + int i + 1"]
        that n by (simp add: o'_def distrib_right)
  qed
  have set1: "x \<in> set bs0 \<longleftrightarrow> (\<exists>i < n. \<exists>m. boundary_point spec (D + int i) m
      \<and> x = ((D + int i) * 86400 + m * 60 - o') * d_Second \<and> now < x \<and> x \<le> limit)" for x
    using ld at by (fastforce simp: bs0_def day_boundaries_point)
  have "x \<in> set bs0 \<longleftrightarrow> (\<exists>B. is_boundary spec B \<and> x = (B - o') * d_Second \<and> now < x \<and> x \<le> limit)" for x
  proof
    assume "x \<in> set bs0"
    then show "\<exists>B. is_boundary spec B \<and> x = (B - o') * d_Second \<and> now < x \<and> x \<le> limit"
      unfolding set1 is_boundary_def by blast
  next
    assume "\<exists>B. is_boundary spec B \<and> x = (B - o') * d_Second \<and> now < x \<and> x \<le> limit"
    then obtain k m where km: "boundary_point spec k m" "x = (k * 86400 + m * 60 - o') * d_Second"
      "now < x" "x \<le> limit" by (auto simp: is_boundary_def)
    have m: "0 \<le> m" "m \<le> 1439" using boundary_point_range km(1) by blast+
    have "k * 86400 + m * 60 - o' \<le> unix limit" using km(2,4) le_instant_iff by metis
    then have "k \<le> M" using M m by simp
    moreover have "\<not> k * 86400 + m * 60 - o' \<le> unix now" using km le_instant_iff not_le by metis
    then have "D \<le> k" using D m by simp
    ultimately have "nat (k - D) < n" "D + int (nat (k - D)) = k" using n by simp_all
    with km show "x \<in> set bs0" unfolding set1 by metis
  qed
  with cand show thesis
    by (intro that) (auto simp: sorted_insertionSort o'_def)
qed

section \<open>The next transition\<close>

text \<open>What \<open>Evaluate\<close> returns once the candidate boundaries are known, in every location.\<close>

lemma Evaluate_Some:
  assumes "LoadLocation (sp_Timezone spec) = Some loc"
    and "candidateBoundaries spec loc now (now + scanHorizon) = Some bs"
  shows "Evaluate LoadLocation spec now =
    Some (Inr \<lparr>er_Awake = isAwakeAt spec loc now, er_Phase = phaseFor (isAwakeAt spec loc now),
      er_NextTransition = (case first_such (\<lambda>b. isAwakeAt spec loc b \<noteq> isAwakeAt spec loc now) bs of
        None \<Rightarrow> zero_time | Some b \<Rightarrow> b)\<rparr>)"
  using assms by (simp add: Evaluate_def time_Add_def Let_def)

text \<open>In a steady zone, an instant of the horizon at which the state differs from the state at
  \<open>now\<close> comes at or after a candidate boundary at which it differs.\<close>

lemma steady_flip_candidate:
  assumes st: "steady_between loc z (unix now - 2 * 86400) (unix now + 10 * 86400)"
    and t: "now \<le> t" "t \<le> now + scanHorizon"
    and flip: "isAwakeAt spec loc t \<noteq> isAwakeAt spec loc now"
  obtains B where "is_boundary spec B" "now < (B - z_offset z) * d_Second"
    "(B - z_offset z) * d_Second \<le> t"
    "isAwakeAt spec loc ((B - z_offset z) * d_Second) \<noteq> isAwakeAt spec loc now"
proof -
  have "unix (now + scanHorizon) = unix now + 691200" by (simp add: unix_def scanHorizon_def)
  then have u: "unix now \<le> unix t" "unix t \<le> unix now + 691200" using unix_mono t by metis+
  have L: "local_secs loc now = unix now + z_offset z" "local_secs loc t = unix t + z_offset z"
    using u by (auto intro!: steady_local_secs [OF st])
  obtain B where B: "is_boundary spec B" "unix now + z_offset z < B" "B \<le> unix t + z_offset z"
    "awake_local spec B \<noteq> awake_local spec (unix now + z_offset z)"
    using first_flip_is_boundary [of "unix now + z_offset z" "unix t + z_offset z" spec] u flip
    by (auto simp: isAwakeAt_local L)
  let ?b = "(B - z_offset z) * d_Second"
  have ub: "unix ?b = B - z_offset z" by (simp only: unix_def) simp
  have "local_secs loc ?b = B"
    using steady_local_secs [OF st, of ?b] B u ub by simp
  moreover have "\<not> B - z_offset z \<le> unix now" using B by simp
  then have "now < ?b" using le_instant_iff not_le by metis
  moreover have "?b \<le> t" using B by (simp only: le_instant_iff)
  ultimately show thesis using that [of B] B by (simp add: isAwakeAt_local L)
qed

text \<open>Where the zone is steady, a flip within the horizon has a candidate that flips at or before it.\<close>

lemma steady_candidates_flip:
  assumes st: "steady_between loc z (unix now - 2 * 86400) (unix now + 10 * 86400)"
    and off: "\<bar>z_offset z\<bar> < 86400"
  obtains bs where "candidateBoundaries spec loc now (now + scanHorizon) = Some bs" "sorted bs"
    "\<And>b. b \<in> set bs \<Longrightarrow> now < b \<and> b \<le> now + scanHorizon"
    "\<And>t. now \<le> t \<Longrightarrow> t \<le> now + scanHorizon \<Longrightarrow> isAwakeAt spec loc t \<noteq> isAwakeAt spec loc now
      \<Longrightarrow> \<exists>b \<in> set bs. b \<le> t \<and> isAwakeAt spec loc b \<noteq> isAwakeAt spec loc now"
proof -
  obtain bs where bs: "candidateBoundaries spec loc now (now + scanHorizon) = Some bs" "sorted bs"
    and set: "set bs = {b. \<exists>B. is_boundary spec B \<and> b = (B - z_offset z) * d_Second
      \<and> now < b \<and> b \<le> now + scanHorizon}"
    using steady_candidates [OF st off] by blast
  have range: "now < b \<and> b \<le> now + scanHorizon" if "b \<in> set bs" for b using that set by auto
  have flip: "\<exists>b \<in> set bs. b \<le> t \<and> isAwakeAt spec loc b \<noteq> isAwakeAt spec loc now"
    if h: "now \<le> t" "t \<le> now + scanHorizon" "isAwakeAt spec loc t \<noteq> isAwakeAt spec loc now" for t
  proof -
    obtain B where B: "is_boundary spec B" "now < (B - z_offset z) * d_Second"
      "(B - z_offset z) * d_Second \<le> t"
      "isAwakeAt spec loc ((B - z_offset z) * d_Second) \<noteq> isAwakeAt spec loc now"
      using steady_flip_candidate [OF st h] by blast
    then have "(B - z_offset z) * d_Second \<in> set bs"
      unfolding set using order_trans [OF B(3) h(2)] by blast
    with B(3,4) show ?thesis by blast
  qed
  show thesis by (rule that [OF bs range flip])
qed

text \<open>
  C6: when the offset of the zone does not change from two days before \<open>now\<close> to ten days after it,
  \<open>Evaluate\<close> answers, and \<open>NextTransition\<close> is the first instant after \<open>now\<close> at which the schedule flips: the state is
  constant before it and different at it. The zero time is returned exactly when the state is
  constant over the whole scan horizon. The scan starts at the midnight before \<open>now\<close> and runs over
  eight days, so a change of the offset shortly before \<open>now\<close> matters too.
\<close>

theorem Evaluate_next_transition_exact:
  assumes load: "LoadLocation (sp_Timezone spec) = Some loc"
    and st: "steady_between loc z (unix now - 2 * 86400) (unix now + 10 * 86400)"
    and off: "\<bar>z_offset z\<bar> < 86400"
    and pos: "zero_time \<le> now"
  shows "\<exists>r. Evaluate LoadLocation spec now = Some (Inr r)
    \<and> er_Awake r = isAwakeAt spec loc now
    \<and> (if er_NextTransition r = zero_time
       then \<forall>t. now \<le> t \<and> t \<le> now + scanHorizon \<longrightarrow> isAwakeAt spec loc t = er_Awake r
       else now < er_NextTransition r \<and> er_NextTransition r \<le> now + scanHorizon
         \<and> isAwakeAt spec loc (er_NextTransition r) \<noteq> er_Awake r
         \<and> (\<forall>t. now \<le> t \<and> t < er_NextTransition r \<longrightarrow> isAwakeAt spec loc t = er_Awake r))"
proof -
  define A where "A = isAwakeAt spec loc now"
  let ?P = "\<lambda>b. isAwakeAt spec loc b \<noteq> A"
  obtain bs where bs: "candidateBoundaries spec loc now (now + scanHorizon) = Some bs" "sorted bs"
    and range: "\<And>b. b \<in> set bs \<Longrightarrow> now < b \<and> b \<le> now + scanHorizon"
    and cand: "\<And>t. now \<le> t \<Longrightarrow> t \<le> now + scanHorizon \<Longrightarrow> ?P t \<Longrightarrow> \<exists>b \<in> set bs. b \<le> t \<and> ?P b"
    using steady_candidates_flip [OF st off] unfolding A_def by blast
  note ev = Evaluate_Some [of LoadLocation spec loc now, OF load bs(1), folded A_def]
  show ?thesis
  proof (cases "first_such ?P bs")
    case None
    then have none: "\<forall>b \<in> set bs. \<not> ?P b" by (simp add: first_such_None_iff)
    have "isAwakeAt spec loc t = A" if "now \<le> t" "t \<le> now + scanHorizon" for t
    proof (rule ccontr)
      assume "?P t"
      from cand [OF that this] none show False by blast
    qed
    with ev None show ?thesis by (simp add: A_def [symmetric])
  next
    case (Some b)
    have b: "b \<in> set bs" "?P b" using first_such_SomeD [OF Some] by auto
    have "isAwakeAt spec loc t = A" if h: "now \<le> t" "t < b" for t
    proof (rule ccontr)
      assume "?P t"
      moreover have "t \<le> now + scanHorizon" using h(2) range [OF b(1)] by simp
      ultimately obtain b' where "b' \<in> set bs" "b' \<le> t" "?P b'"
        using cand [OF h(1)] by blast
      then show False
        using first_such_sorted_least [OF bs(2) Some, of b'] h(2) by simp
    qed
    with ev Some b range [OF b(1)] pos show ?thesis by (simp add: A_def [symmetric])
  qed
qed

lemma candidateBoundaries_returns:
  assumes "offsets_within_a_day loc"
  shows "\<exists>bs. candidateBoundaries spec loc now limit = Some bs"
proof -
  obtain y mo d where c: "time_Date_of loc now = (y, mo, d)" by (cases "time_Date_of loc now")
  obtain n where "limit < (next_day loc ^^ n) (go_Date loc y mo d 0 0 0 0)"
    "\<And>i. i < n \<Longrightarrow> (next_day loc ^^ i) (go_Date loc y mo d 0 0 0 0) \<le> limit"
    using boundary_loop_returns [OF assms] by blast
  from boundary_loop_iterates [OF this] c show ?thesis
    by (simp add: candidateBoundaries_def)
qed

lemma Evaluate_answers:
  assumes "LoadLocation (sp_Timezone spec) = Some loc" and "offsets_within_a_day loc"
  obtains r where "Evaluate LoadLocation spec now = Some (Inr r)"
proof -
  obtain bs where "candidateBoundaries spec loc now (now + scanHorizon) = Some bs"
    using candidateBoundaries_returns [OF assms(2)] by blast
  from Evaluate_Some [of LoadLocation spec loc now, OF assms(1) this] that show thesis by blast
qed

text \<open>C9: the day loop ends, and \<open>Evaluate\<close> answers, wherever offsets differ by less than a day.\<close>

theorem Evaluate_returns:
  assumes "LoadLocation (sp_Timezone spec) = Some loc" and "offsets_within_a_day loc"
  shows "\<exists>r. Evaluate LoadLocation spec now = Some (Inr r)"
  using Evaluate_answers [of LoadLocation spec loc now] assms by blast

section \<open>Any location\<close>

text \<open>Whatever the loop returns was on the list it started from or is a boundary of some day.\<close>

lemma boundary_loop_elems:
  assumes "boundary_loop spec loc after limit day out = Some r" and "b \<in> set r"
  shows "b \<in> set out \<or> (\<exists>n m. boundary_point spec n m \<and> b = at_local loc (n * 86400 + m * 60) 0
    \<and> after < b \<and> b \<le> limit)"
proof -
  let ?Q = "\<lambda>spec loc after limit day out r. \<forall>b \<in> set r. b \<in> set out \<or> (\<exists>n m. boundary_point spec n m
    \<and> b = at_local loc (n * 86400 + m * 60) 0 \<and> after < b \<and> b \<le> limit)"
  have "?Q spec loc after limit day out r"
  proof (rule boundary_loop.raw_induct [where P = ?Q, OF _ assms(1)])
    fix f spec loc after limit day out r
    assume IH: "\<And>spec loc after limit day out r. f spec loc after limit day out = Some r \<Longrightarrow>
        ?Q spec loc after limit day out r"
      and eq: "(if time_After day limit then Some out
        else f spec loc after limit (time_AddDate loc day 0 0 1)
          (out @ day_boundaries (sp_Awake spec) loc after limit day)) = Some r"
    show "?Q spec loc after limit day out r"
    proof (cases "time_After day limit")
      case True
      with eq show ?thesis by simp
    next
      case False
      with eq have "?Q spec loc after limit (time_AddDate loc day 0 0 1)
          (out @ day_boundaries (sp_Awake spec) loc after limit day) r"
        by (intro IH) simp
      then show ?thesis by (auto simp: day_boundaries_point)
    qed
  qed
  with assms(2) show ?thesis by blast
qed

lemma candidateBoundaries_elems:
  assumes "candidateBoundaries spec loc after limit = Some bs" and "b \<in> set bs"
  shows "\<exists>n m. boundary_point spec n m \<and> b = at_local loc (n * 86400 + m * 60) 0
    \<and> after < b \<and> b \<le> limit"
proof -
  obtain y mo d bs0 where "boundary_loop spec loc after limit (go_Date loc y mo d 0 0 0 0) [] = Some bs0"
    "bs = insertionSort bs0"
    using assms(1) by (auto simp: candidateBoundaries_def split: prod.splits)
  with boundary_loop_elems [OF this(1)] assms(2) show ?thesis by fastforce
qed

text \<open>C8: in every location, also across zone transitions, a next transition that is set is a flip, strictly later and within the horizon.\<close>

theorem Evaluate_next_transition_flips:
  assumes "LoadLocation (sp_Timezone spec) = Some loc"
    and "Evaluate LoadLocation spec now = Some (Inr r)"
    and "er_NextTransition r \<noteq> zero_time"
  shows "now < er_NextTransition r \<and> er_NextTransition r \<le> now + scanHorizon
    \<and> isAwakeAt spec loc (er_NextTransition r) \<noteq> isAwakeAt spec loc now
    \<and> er_Awake r = isAwakeAt spec loc now
    \<and> er_Phase r = (if isAwakeAt spec loc now then ''Awake'' else ''Asleep'')"
proof -
  obtain bs where bs: "candidateBoundaries spec loc now (now + scanHorizon) = Some bs"
    using assms(1,2) by (auto simp: Evaluate_def time_Add_def Let_def split: option.splits)
  from Evaluate_Some [of LoadLocation spec loc now, OF assms(1) this] assms(2)
  have r: "r = \<lparr>er_Awake = isAwakeAt spec loc now, er_Phase = phaseFor (isAwakeAt spec loc now),
      er_NextTransition = (case first_such (\<lambda>b. isAwakeAt spec loc b \<noteq> isAwakeAt spec loc now) bs of
        None \<Rightarrow> zero_time | Some b \<Rightarrow> b)\<rparr>" by simp
  with assms(3) obtain b where b: "first_such (\<lambda>b. isAwakeAt spec loc b \<noteq> isAwakeAt spec loc now) bs = Some b"
    by (auto split: option.splits)
  from first_such_SomeD [OF b] candidateBoundaries_elems [OF bs, of b] r b
  show ?thesis by (auto simp: phaseFor_def phase_defs)
qed

section \<open>Wall-clock boundaries across transitions\<close>

fun spaced_tx :: "int \<Rightarrow> (int \<times> int) list \<Rightarrow> bool" where
  "spaced_tx start [] = True"
| "spaced_tx start ((w, off) # tx) = (start + 172800 \<le> w \<and> \<bar>off\<bar> < 86400 \<and> spaced_tx w tx)"

lemma spaced_tx_sorted: "spaced_tx start tx \<Longrightarrow> sorted_wrt (<) (start # map fst tx)"
proof (induction start tx rule: spaced_tx.induct)
  case (2 start w off tx)
  then show ?case by fastforce
qed simp

lemma spaced_tx_long:
  assumes "spaced_tx start tx" and "z_end (lookup_tx start off tx s) < omega"
  shows "172800 \<le> z_end (lookup_tx start off tx s) - z_start (lookup_tx start off tx s)"
  using assms by (induction start tx arbitrary: off rule: spaced_tx.induct) (auto split: if_splits)

lemma spaced_tx_small:
  assumes "spaced_tx start tx" and "\<bar>off\<bar> < 86400"
  shows "\<bar>z_offset (lookup_tx start off tx s)\<bar> < 86400"
  using assms by (induction start tx arbitrary: off rule: spaced_tx.induct) auto

lemma tx_zone_lookup:
  assumes "spaced_tx alpha tx"
  shows "zone_lookup (tx_location off tx)"
proof
  fix s u
  assume s: "representable s"
  then show "z_start (tx_location off tx s) \<le> s \<and> s < z_end (tx_location off tx s)"
    unfolding tx_location_def representable_def by (intro lookup_tx_range) auto
  assume "z_start (tx_location off tx s) \<le> u" "u < z_end (tx_location off tx s)"
  then show "tx_location off tx u = tx_location off tx s"
    using s unfolding tx_location_def representable_def
    by (intro lookup_tx_same spaced_tx_sorted assms) auto
qed

text \<open>
  C7: 09:00 stays 09:00 across zone transitions: every candidate boundary \<open>b\<close> is what \<open>time.Date\<close>
  returns for the minute \<open>m\<close> of the day \<open>n\<close> at which some window opens or closes, and its own wall
  clock reads that minute of that day whenever this local time exists.
\<close>

theorem candidate_boundaries_wall_clock:
  assumes tx: "spaced_tx alpha tx" "\<bar>off\<bar> < 86400"
    and bs: "candidateBoundaries spec (tx_location off tx) after limit = Some bs" "b \<in> set bs"
    and range: "alpha + 172800 \<le> unix after" "unix limit < omega - 172800"
  shows "\<exists>n m. boundary_point spec n m \<and> after < b \<and> b \<le> limit
    \<and> b = at_local (tx_location off tx) (n * 86400 + m * 60) 0
    \<and> ((\<exists>u. u + z_offset (tx_location off tx u) = n * 86400 + m * 60) \<longrightarrow>
       local_day (tx_location off tx) b = n
       \<and> time_Hour (tx_location off tx) b * 60 + time_Minute (tx_location off tx) b = m)"
proof -
  let ?loc = "tx_location off tx"
  obtain n m where b: "boundary_point spec n m" "b = at_local ?loc (n * 86400 + m * 60) 0"
    "after < b" "b \<le> limit"
    using candidateBoundaries_elems [OF bs] by blast
  have m: "0 \<le> m" "m \<le> 1439" using boundary_point_range [OF b(1)] by auto
  have small: "\<bar>z_offset (?loc s)\<bar> < 86400" for s
    unfolding tx_location_def using tx by (rule spaced_tx_small)
  obtain s where s: "b = (n * 86400 + m * 60 - z_offset (?loc s)) * d_Second + 0"
    unfolding b(2) using at_local_offset by blast
  have ub: "unix b = n * 86400 + m * 60 - z_offset (?loc s)"
    unfolding s by (rule unix_times_second) simp_all
  have "unix after \<le> unix b" "unix b \<le> unix limit" using b by (auto intro: unix_mono)
  then have rng: "alpha + 86400 \<le> n * 86400 + m * 60" "n * 86400 + m * 60 < omega - 86400"
    using ub range small [of s] by auto
  have "local_secs ?loc b = n * 86400 + m * 60" if "u + z_offset (?loc u) = n * 86400 + m * 60" for u
    unfolding b(2)
    by (rule zone_lookup.at_local_exact [OF tx_zone_lookup [OF tx(1)] that])
      (use small rng spaced_tx_long [OF tx(1)] in \<open>auto simp: tx_location_def\<close>)
  then have "local_day ?loc b = n \<and> time_Hour ?loc b * 60 + time_Minute ?loc b = m"
    if "u + z_offset (?loc u) = n * 86400 + m * 60" for u
    using that m day_of_seconds [of "m * 60" n]
    by (simp add: local_day_def hour_minute_of_day)
  with b show ?thesis by blast
qed

section \<open>Where transitions defeat the boundaries\<close>

text \<open>Europe/Paris in 2026, and a window that starts inside the hour skipped on 29 March.\<close>

definition paris_2026 :: location where
  "paris_2026 = tx_location 3600 [(1774746000, 7200), (1792890000, 3600)]"

definition night_window :: sleep_schedule_spec where
  "night_window =
     \<lparr>sp_Timezone = ''Europe/Paris'',
      sp_Awake = [\<lparr>aw_Days = day_names, aw_From = ''02:30'', aw_To = ''05:00''\<rparr>],
      sp_Target = \<lparr>tg_Mode = TargetModeNamespaces, tg_Namespaces = [''team-a''], tg_Selector = None\<rparr>,
      sp_Kinds = [], sp_ExcludeRefs = [], sp_SleepReplicas = 0, sp_TemporaryWake = None,
      sp_DryRun = False\<rparr>"

text \<open>
  At 00:30 the schedule is asleep and the next transition is announced for 03:30; but the
  schedule is awake from 03:00 on, when the clock jumps from 02:00 into the window.
\<close>

theorem dst_gap_flip_before_next_transition:
  "Evaluate (\<lambda>_. Some paris_2026) night_window (1774740600 * d_Second) =
     Some (Inr \<lparr>er_Awake = False, er_Phase = ''Asleep'', er_NextTransition = 1774747800 * d_Second\<rparr>)
   \<and> isAwakeAt night_window paris_2026 (1774746000 * d_Second)
   \<and> (1774746000 :: int) < 1774747800"
  by (intro conjI) code_simp+

text \<open>
  On 25 October the window opens at 02:30 summer time, is left again when the clock goes back to
  02:00, and opens a second time; the transition announced is the second opening.
\<close>

theorem dst_overlap_flip_before_next_transition:
  "Evaluate (\<lambda>_. Some paris_2026) night_window (1792884600 * d_Second) =
     Some (Inr \<lparr>er_Awake = False, er_Phase = ''Asleep'', er_NextTransition = 1792891800 * d_Second\<rparr>)
   \<and> isAwakeAt night_window paris_2026 (1792888200 * d_Second)
   \<and> (1792888200 :: int) < 1792891800"
  by (intro conjI) code_simp+

text \<open>
  A day on which \<open>AddDate(0, 0, 1)\<close> returns the same instant keeps the loop from ending. In
  Pacific/Apia the calendar went from 29 to 31 December 2011: the midnight of the missing day is
  read in the zone after the change, which is the midnight of 29 December.
\<close>

lemma boundary_loop_stuck:
  assumes "next_day loc day = day" and "day \<le> limit"
  shows "boundary_loop spec loc after limit day out = None"
proof -
  let ?Q = "\<lambda>spec loc after limit day out r. \<not> (next_day loc day = day \<and> day \<le> limit)"
  have "False" if ret: "boundary_loop spec loc after limit day out = Some r" for r
  proof -
    have "?Q spec loc after limit day out r"
    proof (rule boundary_loop.raw_induct [where P = ?Q, OF _ ret])
      fix f spec loc after limit day out r
      assume IH: "\<And>spec loc after limit day out r. f spec loc after limit day out = Some r \<Longrightarrow>
          ?Q spec loc after limit day out r"
        and eq: "(if time_After day limit then Some out
          else f spec loc after limit (time_AddDate loc day 0 0 1)
            (out @ day_boundaries (sp_Awake spec) loc after limit day)) = Some r"
      show "?Q spec loc after limit day out r"
      proof
        assume stuck: "next_day loc day = day \<and> day \<le> limit"
        with eq have "f spec loc after limit day
            (out @ day_boundaries (sp_Awake spec) loc after limit day) = Some r"
          by (simp add: time_After_def flip: next_day_def)
        from IH [OF this] stuck show False by blast
      qed
    qed
    with assms show False by blast
  qed
  then show ?thesis by (cases "boundary_loop spec loc after limit day out") auto
qed

definition apia_2011 :: location where
  "apia_2011 = tx_location (- 36000) [(1325239200, 50400)]"

text \<open>
  C39: In Pacific/Apia on 29 December 2011, before the day that the calendar skipped, \<open>Evaluate\<close> does
  not return, whatever the spec.
\<close>

theorem date_line_change_never_returns:
  "Evaluate (\<lambda>_. Some apia_2011) spec (1325196000 * d_Second) = None"
proof -
  have c: "time_Date_of apia_2011 (1325196000 * d_Second) = (2011, 12, 29)" by code_simp
  have start: "go_Date apia_2011 2011 12 29 0 0 0 0 = 1325152800 * d_Second" by code_simp
  have "next_day apia_2011 (1325152800 * d_Second) = 1325152800 * d_Second" by code_simp
  then have "boundary_loop spec apia_2011 after (1325196000 * d_Second + scanHorizon)
      (1325152800 * d_Second) [] = None" for after
    by (rule boundary_loop_stuck) (simp add: scanHorizon_def)
  then show ?thesis
    by (simp only: Evaluate_def candidateBoundaries_def c start time_Add_def Let_def prod.case
        option.case option.map)
qed

section \<open>The properties at concrete inputs\<close>

theorem Evaluate_next_transition_exact_witness:
  "\<exists>r. Evaluate (\<lambda>_. Some utc_location) night_window (1774740600 * d_Second) = Some (Inr r)
    \<and> er_Awake r = isAwakeAt night_window utc_location (1774740600 * d_Second)
    \<and> (if er_NextTransition r = zero_time
       then \<forall>t. 1774740600 * d_Second \<le> t \<and> t \<le> 1774740600 * d_Second + scanHorizon \<longrightarrow>
         isAwakeAt night_window utc_location t = er_Awake r
       else 1774740600 * d_Second < er_NextTransition r
         \<and> er_NextTransition r \<le> 1774740600 * d_Second + scanHorizon
         \<and> isAwakeAt night_window utc_location (er_NextTransition r) \<noteq> er_Awake r
         \<and> (\<forall>t. 1774740600 * d_Second \<le> t \<and> t < er_NextTransition r \<longrightarrow>
           isAwakeAt night_window utc_location t = er_Awake r))"
  by (rule Evaluate_next_transition_exact
        [where z = "\<lparr>z_offset = 0, z_start = alpha, z_end = omega\<rparr>"])
    (simp_all add: steady_between_def utc_location_def tx_location_def zero_time_def)

theorem Evaluate_next_transition_flips_witness:
  "1774740600 * d_Second < (1774747800 * d_Second :: int)
    \<and> isAwakeAt night_window paris_2026 (1774747800 * d_Second)
        \<noteq> isAwakeAt night_window paris_2026 (1774740600 * d_Second)"
proof -
  have "Evaluate (\<lambda>_. Some paris_2026) night_window (1774740600 * d_Second) =
     Some (Inr \<lparr>er_Awake = False, er_Phase = ''Asleep'', er_NextTransition = 1774747800 * d_Second\<rparr>)"
    by code_simp
  from Evaluate_next_transition_flips [OF refl this] show ?thesis by (simp add: zero_time_def)
qed

theorem Evaluate_returns_witness:
  "\<exists>r. Evaluate (\<lambda>_. Some paris_2026) night_window (1774740600 * d_Second) = Some (Inr r)"
  by (rule Evaluate_returns [OF refl]) (simp add: offsets_within_a_day_def paris_2026_def tx_location_def)

text \<open>
  On 29 March 2026 the window of \<open>night_window\<close> that opens at 02:30 would open in the gap; its end at 05:00
  is a local time that exists, and the boundary reads it.
\<close>

lemma paris_offset: "z_offset (paris_2026 s) = 3600 \<or> z_offset (paris_2026 s) = 7200"
  by (simp add: paris_2026_def tx_location_def)

theorem candidate_boundaries_wall_clock_witness:
  "\<exists>n m. boundary_point night_window n m \<and> 1774740600 * d_Second < (1774753200 * d_Second :: int)
    \<and> (1774753200 * d_Second :: int) \<le> 1774760000 * d_Second
    \<and> 1774753200 * d_Second = at_local paris_2026 (n * 86400 + m * 60) 0
    \<and> local_day paris_2026 (1774753200 * d_Second) = n
    \<and> time_Hour paris_2026 (1774753200 * d_Second) * 60
         + time_Minute paris_2026 (1774753200 * d_Second) = m"
proof -
  let ?b = "1774753200 * d_Second"
  have "candidateBoundaries night_window paris_2026 (1774740600 * d_Second) (1774760000 * d_Second)
      = Some [1774747800 * d_Second, ?b]"
    by code_simp
  then have "\<exists>n m. boundary_point night_window n m \<and> 1774740600 * d_Second < ?b \<and> ?b \<le> 1774760000 * d_Second
    \<and> ?b = at_local paris_2026 (n * 86400 + m * 60) 0
    \<and> ((\<exists>u. u + z_offset (paris_2026 u) = n * 86400 + m * 60) \<longrightarrow>
       local_day paris_2026 ?b = n \<and> time_Hour paris_2026 ?b * 60 + time_Minute paris_2026 ?b = m)"
    using candidate_boundaries_wall_clock [of "[(1774746000, 7200), (1792890000, 3600)]" 3600
        night_window "1774740600 * d_Second" "1774760000 * d_Second" "[1774747800 * d_Second, ?b]" ?b]
    by (simp add: paris_2026_def [symmetric] unix_def)
  then obtain n m where p: "boundary_point night_window n m" "?b = at_local paris_2026 (n * 86400 + m * 60) 0"
    and wall: "(\<exists>u. u + z_offset (paris_2026 u) = n * 86400 + m * 60) \<longrightarrow>
       local_day paris_2026 ?b = n \<and> time_Hour paris_2026 ?b * 60 + time_Minute paris_2026 ?b = m" by blast
  obtain s where "?b = (n * 86400 + m * 60 - z_offset (paris_2026 s)) * d_Second + 0"
    using at_local_offset [of paris_2026 "n * 86400 + m * 60" 0] p(2) by metis
  with paris_offset [of s] have "n * 86400 + m * 60 = 1774756800 \<or> n * 86400 + m * 60 = 1774760400" by auto
  moreover have "1774749600 + z_offset (paris_2026 1774749600) = 1774756800"
    "1774753200 + z_offset (paris_2026 1774753200) = 1774760400" by code_simp+
  ultimately have "\<exists>u. u + z_offset (paris_2026 u) = n * 86400 + m * 60" by metis
  with wall p show ?thesis by (intro exI [of _ n] exI [of _ m]) simp
qed

end
