(* ===== verification/Go_Duration.thy ===== *)
theory Go_Duration
  imports Go_Time Go_Text
begin

text \<open>
  Durations as text: \<open>time.ParseDuration\<close> with its \<open>uint64\<close> overflow checks and its
  \<open>float64\<close> arithmetic on fractions, and \<open>Duration.String\<close>.
\<close>

section \<open>Rounding to a float64\<close>

text \<open>
  A nonnegative \<open>float64\<close> is a pair \<open>(m, k)\<close> that stands for \<open>m / 2 ^ k\<close>, \<open>m\<close> having at most
  53 significant bits; \<^theory_text>\<open>float_div a b\<close> is the one nearest to \<open>a / b\<close>, ties to even. The
  exponent is not bounded: the only values out of range would be scales above \<open>10 ^ 308\<close>, where
  \<open>ParseDuration\<close> adds 0 either way.
\<close>

fun bit_size :: "nat \<Rightarrow> nat" where
  "bit_size n = (if n = 0 then 0 else Suc (bit_size (n div 2)))"

declare bit_size.simps [simp del]

definition div_nearest :: "nat \<Rightarrow> nat \<Rightarrow> nat" where
  "div_nearest a b =
     (let q = a div b; r = a mod b
      in if 2 * r < b \<or> 2 * r = b \<and> even q then q else Suc q)"

definition float_div :: "nat \<Rightarrow> nat \<Rightarrow> nat \<times> nat" where
  "float_div a b =
     (let k = 55 + bit_size b; n = a * 2 ^ k; j = bit_size (n div b) - 53
      in (div_nearest n (b * 2 ^ j) * 2 ^ j, k))"

definition float_mult :: "nat \<times> nat \<Rightarrow> nat \<times> nat \<Rightarrow> nat \<times> nat" where
  "float_mult x y = float_div (fst x * fst y) (2 ^ (snd x + snd y))"

definition float_trunc :: "nat \<times> nat \<Rightarrow> nat" where
  "float_trunc x = fst x div 2 ^ snd x"

section \<open>time.ParseDuration\<close>

fun leadingInt :: "nat \<Rightarrow> string \<Rightarrow> (nat \<times> string) option" where
  "leadingInt x [] = Some (x, [])"
| "leadingInt x (c # s) =
     (if \<not> is_digit c then Some (x, c # s)
      else if x > 2 ^ 63 div 10 then None
      else if x * 10 + digit_val c > 2 ^ 63 then None
      else leadingInt (x * 10 + digit_val c) s)"

fun leadingFraction :: "nat \<Rightarrow> nat \<Rightarrow> bool \<Rightarrow> string \<Rightarrow> nat \<times> nat \<times> string" where
  "leadingFraction x scale overflow [] = (x, scale, [])"
| "leadingFraction x scale overflow (c # s) =
     (if \<not> is_digit c then (x, scale, c # s)
      else if overflow then leadingFraction x scale overflow s
      else if x > (2 ^ 63 - 1) div 10 then leadingFraction x scale True s
      else if x * 10 + digit_val c > 2 ^ 63 then leadingFraction x scale True s
      else leadingFraction (x * 10 + digit_val c) (float_trunc (float_div (scale * 10) 1)) False s)"

definition duration_units :: "nat gomap" where
  "duration_units =
     [(''ns'', 1), (''us'', 1000), ([CHR 0xC2, CHR 0xB5, CHR ''s''], 1000),
      ([CHR 0xCE, CHR 0xBC, CHR ''s''], 1000), (''ms'', 1000000), (''s'', 1000000000),
      (''m'', 60000000000), (''h'', 3600000000000)]"

definition unit_char :: "char \<Rightarrow> bool" where
  "unit_char c \<longleftrightarrow> c \<noteq> CHR ''.'' \<and> \<not> is_digit c"

text \<open>One number with its unit: its nanoseconds and the rest of the input.\<close>

definition duration_part :: "string \<Rightarrow> (nat \<times> string) option" where
  "duration_part s =
     (case s of
        [] \<Rightarrow> None
      | c0 # _ \<Rightarrow>
          if \<not> (c0 = CHR ''.'' \<or> is_digit c0) then None
          else (case leadingInt 0 s of
             None \<Rightarrow> None
           | Some (v, s1) \<Rightarrow>
               (let pre = length s1 \<noteq> length s;
                    (f, scale, s2, post) =
                      (case s1 of
                         c # s1' \<Rightarrow>
                           if c = CHR ''.''
                           then (case leadingFraction 0 1 False s1' of
                                   (f, scale, s2) \<Rightarrow> (f, scale, s2, length s2 \<noteq> length s1'))
                           else (0, 1, s1, False)
                       | [] \<Rightarrow> (0, 1, s1, False));
                    u = takeWhile unit_char s2; s3 = dropWhile unit_char s2
                in if \<not> pre \<and> \<not> post then None
                   else if u = [] then None
                   else case map_of duration_units u of
                     None \<Rightarrow> None
                   | Some unit \<Rightarrow>
                       if v > 2 ^ 63 div unit then None
                       else
                         (let w = v * unit;
                              g = (if f > 0 then
                                     float_trunc (float_mult (float_div f 1) (float_div unit scale))
                                   else 0)
                          in if f > 0 \<and> w + g > 2 ^ 63 then None else Some (w + g, s3)))))"

lemma leadingInt_length: "leadingInt x s = Some (v, r) \<Longrightarrow> length r \<le> length s"
  by (induction x s arbitrary: v r rule: leadingInt.induct)
    (auto split: if_splits dest: le_SucI)

lemma leadingFraction_length: "leadingFraction x sc ov s = (f, sc', r) \<Longrightarrow> length r \<le> length s"
  by (induction x sc ov s arbitrary: f sc' r rule: leadingFraction.induct)
    (auto split: if_splits dest: le_SucI)

lemma dropWhile_le: "length s \<le> n \<Longrightarrow> length (dropWhile P s) \<le> n"
  by (rule order_trans [OF length_dropWhile_le])

lemma duration_part_shorter: "duration_part s = Some (v, r) \<Longrightarrow> length r < length s"
  unfolding duration_part_def Let_def
  by (auto simp: less_Suc_eq_le intro: dropWhile_le
      split: list.splits if_splits option.splits prod.splits
      dest!: leadingInt_length leadingFraction_length)

text \<open>The sum is a \<open>uint64\<close>: it wraps before it is compared.\<close>

function duration_loop :: "nat \<Rightarrow> string \<Rightarrow> nat option" where
  "duration_loop d s =
     (if s = [] then Some d
      else case duration_part s of
             None \<Rightarrow> None
           | Some (v, r) \<Rightarrow>
               (let d' = (d + v) mod 2 ^ 64
                in if d' > 2 ^ 63 then None else duration_loop d' r))"
  by pat_completeness auto
termination
  by (relation "measure (\<lambda>(_, s). length s)") (auto dest: duration_part_shorter)

declare duration_loop.simps [simp del]

definition ParseDuration :: "string \<Rightarrow> duration option" where
  "ParseDuration s =
     (let neg = (case s of c # _ \<Rightarrow> c = CHR ''-'' | [] \<Rightarrow> False);
          body = (case s of c # r \<Rightarrow> if c = CHR ''-'' \<or> c = CHR ''+'' then r else s | [] \<Rightarrow> [])
      in if body = ''0'' then Some 0
         else if body = [] then None
         else case duration_loop 0 body of
                None \<Rightarrow> None
              | Some d \<Rightarrow>
                  if neg then Some (- int d)
                  else if d > 2 ^ 63 - 1 then None
                  else Some (int d))"

section \<open>Duration.String\<close>

text \<open>\<open>fmtFrac\<close>: the last \<open>prec\<close> digits as a fraction without trailing zeros, then the rest.\<close>

fun fmtFrac :: "nat \<Rightarrow> nat \<Rightarrow> bool \<Rightarrow> string \<Rightarrow> string \<times> nat" where
  "fmtFrac v 0 print acc = ((if print then CHR ''.'' # acc else acc), v)"
| "fmtFrac v (Suc prec) print acc =
     (let digit = v mod 10; print' = (print \<or> digit \<noteq> 0)
      in fmtFrac (v div 10) prec print' (if print' then digit_char digit # acc else acc))"

definition Duration_String :: "duration \<Rightarrow> string" where
  "Duration_String d =
     (let u = nat \<bar>d\<bar>;
          body =
            (if u = 0 then ''0s''
             else if u < 1000 then digits_of u @ ''ns''
             else if u < 1000000 then
               (case fmtFrac u 3 False [] of
                  (fr, v) \<Rightarrow> digits_of v @ fr @ [CHR 0xC2, CHR 0xB5, CHR ''s''])
             else if u < 1000000000 then
               (case fmtFrac u 6 False [] of (fr, v) \<Rightarrow> digits_of v @ fr @ ''ms'')
             else
               (case fmtFrac u 9 False [] of
                  (fr, v) \<Rightarrow>
                    (let sec = digits_of (v mod 60) @ fr @ ''s''; mins = v div 60
                     in if mins = 0 then sec
                        else (let ms = digits_of (mins mod 60) @ ''m'' @ sec; hs = mins div 60
                              in if hs = 0 then ms else digits_of hs @ ''h'' @ ms))))
      in if d < 0 then CHR ''-'' # body else body)"

section \<open>Facts\<close>

lemma duration_loop_bound:
  "duration_loop d s = Some e \<Longrightarrow> d \<le> 2 ^ 63 \<Longrightarrow> e \<le> 2 ^ 63"
proof (induction d s rule: duration_loop.induct)
  case (1 d s)
  then show ?case
    by (auto simp: duration_loop.simps [of d s] Let_def split: if_splits option.splits)
qed

lemma ParseDuration_is_duration: "ParseDuration s = Some d \<Longrightarrow> is_duration d"
proof -
  have *: "n \<le> 2 ^ 63 \<Longrightarrow> min_duration \<le> - int n \<and> - int n \<le> max_duration"
    "\<not> 2 ^ 63 - 1 < n \<Longrightarrow> min_duration \<le> int n \<and> int n \<le> max_duration" for n :: nat
    by simp_all
  show "ParseDuration s = Some d \<Longrightarrow> is_duration d"
    using * duration_loop_bound [of 0]
    by (auto simp: ParseDuration_def Let_def is_duration_def split: if_splits option.splits)
qed

end
