(* ===== verification/Go_RFC3339.thy ===== *)
theory Go_RFC3339
  imports Go_Time Go_Text
begin

text \<open>
  The layout \<open>time.RFC3339\<close> ("2006-01-02T15:04:05Z07:00"): \<open>time.Parse\<close> as the general parser
  reads it (an hour may have one digit, a fraction of a second may follow a point or a comma),
  and \<open>Time.UTC().Format\<close>. What is written is read back as the same whole second.
\<close>

section \<open>time.Parse\<close>

text \<open>\<open>getnum\<close>: two digits, or one when \<open>fixed\<close> is off and no second digit follows.\<close>

fun getnum :: "bool \<Rightarrow> string \<Rightarrow> (int \<times> string) option" where
  "getnum fixed [] = None"
| "getnum fixed [c] = (if is_digit c \<and> \<not> fixed then Some (int (digit_val c), []) else None)"
| "getnum fixed (c # d # s) =
     (if \<not> is_digit c then None
      else if is_digit d then Some (int (10 * digit_val c + digit_val d), s)
      else if fixed then None
      else Some (int (digit_val c), d # s))"

definition get4 :: "string \<Rightarrow> (int \<times> string) option" where
  "get4 s =
     (if length s < 4 \<or> \<not> list_all is_digit (take 4 s) then None
      else Some (int (digits_val (take 4 s)), drop 4 s))"

definition skip_char :: "char \<Rightarrow> string \<Rightarrow> string option" where
  "skip_char c s = (case s of [] \<Rightarrow> None | d # r \<Rightarrow> if c = d then Some r else None)"

definition in_range :: "int \<Rightarrow> int \<Rightarrow> int \<times> string \<Rightarrow> (int \<times> string) option" where
  "in_range lo hi p = (if lo \<le> fst p \<and> fst p \<le> hi then Some p else None)"

text \<open>A fraction of a second: the first nine digits count, the others are dropped.\<close>

definition get_fraction :: "string \<Rightarrow> int \<times> string" where
  "get_fraction s =
     (case s of
        p # d # r \<Rightarrow>
          if (p = CHR ''.'' \<or> p = CHR '','') \<and> is_digit d then
            (let ds = take 9 (takeWhile is_digit (d # r))
             in (int (digits_val ds) * 10 ^ (9 - length ds), dropWhile is_digit (d # r)))
          else (0, s)
      | _ \<Rightarrow> (0, s))"

text \<open>The zone: \<open>Z\<close>, or a sign, two digits, a colon and two digits.\<close>

definition get_offset :: "string \<Rightarrow> (int \<times> string) option" where
  "get_offset s =
     (case s of
        [] \<Rightarrow> None
      | c # r \<Rightarrow>
          if c = CHR ''Z'' then Some (0, r)
          else if length s < 6 \<or> s ! 3 \<noteq> CHR '':'' then None
          else
            (case (getnum True (take 2 (drop 1 s)), getnum True (take 2 (drop 4 s))) of
               (Some (hr, _), Some (mm, _)) \<Rightarrow>
                 if hr > 24 \<or> mm > 60 then None
                 else if c = CHR ''+'' then Some ((hr * 60 + mm) * 60, drop 6 s)
                 else if c = CHR ''-'' then Some (- ((hr * 60 + mm) * 60), drop 6 s)
                 else None
             | _ \<Rightarrow> None))"

definition Parse_RFC3339 :: "string \<Rightarrow> instant option" where
  "Parse_RFC3339 s0 =
     Option.bind (get4 s0) (\<lambda>(year, s1).
     Option.bind (skip_char CHR ''-'' s1) (\<lambda>s2.
     Option.bind (Option.bind (getnum True s2) (in_range 1 12)) (\<lambda>(month, s3).
     Option.bind (skip_char CHR ''-'' s3) (\<lambda>s4.
     Option.bind (getnum True s4) (\<lambda>(day, s5).
     Option.bind (skip_char CHR ''T'' s5) (\<lambda>s6.
     Option.bind (Option.bind (getnum False s6) (in_range 0 23)) (\<lambda>(hour, s7).
     Option.bind (skip_char CHR '':'' s7) (\<lambda>s8.
     Option.bind (Option.bind (getnum True s8) (in_range 0 59)) (\<lambda>(minute, s9).
     Option.bind (skip_char CHR '':'' s9) (\<lambda>s10.
     Option.bind (Option.bind (getnum True s10) (in_range 0 59)) (\<lambda>(sec, s11).
       case get_fraction s11 of (nsec, s12) \<Rightarrow>
     Option.bind (get_offset s12) (\<lambda>(off, s13).
       if s13 \<noteq> [] \<or> day < 1 \<or> day > days_in month year then None
       else Some ((days_of_civil year month day * 86400
                     + hour * 3600 + minute * 60 + sec - off) * d_Second + nsec)))))))))))))"

section \<open>Time.UTC().Format\<close>

definition pad_int :: "nat \<Rightarrow> int \<Rightarrow> string" where
  "pad_int width i =
     (let ds = digits_of (nat \<bar>i\<bar>)
      in (if i < 0 then ''-'' else '''') @ replicate (width - length ds) CHR ''0'' @ ds)"

definition Format_RFC3339_UTC :: "instant \<Rightarrow> string" where
  "Format_RFC3339_UTC t =
     (case time_Date_of utc_location t of (year, month, day) \<Rightarrow>
        pad_int 4 year @ ''-'' @ pad_int 2 month @ ''-'' @ pad_int 2 day @ ''T''
        @ pad_int 2 (time_Hour utc_location t) @ '':'' @ pad_int 2 (time_Minute utc_location t)
        @ '':'' @ pad_int 2 (time_Second utc_location t) @ ''Z'')"

text \<open>For evaluation: the text is computed only once the time is known.\<close>

definition format_known :: "instant \<Rightarrow> string" where
  "format_known = Format_RFC3339_UTC"

lemma Format_RFC3339_UTC_code [code]:
  "Format_RFC3339_UTC t = (if 0 \<le> t then format_known t else format_known t)"
  by (simp add: format_known_def)

lemmas format_known_code [code] = format_known_def [unfolded fun_eq_iff Format_RFC3339_UTC_def, rule_format]

section \<open>Round trip\<close>

lemma length_digits_of_2: "n < 100 \<Longrightarrow> 10 \<le> n \<Longrightarrow>
  digits_of n = [digit_char (n div 10), digit_char (n mod 10)]"
  by (simp add: digits_of.simps [of n] digits_of.simps [of "n div 10"] less_mult_imp_div_less)

lemma digit_char_0: "digit_char 0 = CHR ''0''"
  by code_simp

lemma pad_2:
  assumes "0 \<le> i" and "i \<le> 99"
  shows "pad_int 2 i = [digit_char (nat i div 10), digit_char (nat i mod 10)]"
proof (cases "i < 10")
  case True
  then show ?thesis using assms
    by (simp add: pad_int_def digits_of.simps [of "nat i"] digit_char_0 nat_less_iff Let_def)
next
  case False
  then show ?thesis using assms length_digits_of_2 [of "nat i"]
    by (simp add: pad_int_def nat_less_iff le_nat_iff Let_def)
qed

lemma digit_chars_2:
  assumes "0 \<le> i" and "i \<le> 99"
  shows "getnum fixed (digit_char (nat i div 10) # digit_char (nat i mod 10) # s) = Some (i, s)"
proof -
  have "nat i div 10 \<le> 9" "nat i mod 10 \<le> 9" using assms by auto
  then have "getnum fixed (digit_char (nat i div 10) # digit_char (nat i mod 10) # s) =
      Some (int (10 * (nat i div 10) + nat i mod 10), s)"
    by (simp del: of_nat_add of_nat_mult of_nat_Suc)
  also have "10 * (nat i div 10) + nat i mod 10 = nat i" by simp
  finally show ?thesis using assms by simp
qed

lemma getnum_pad_2 [simp]:
  "0 \<le> i \<Longrightarrow> i \<le> 99 \<Longrightarrow> getnum fixed (pad_int 2 i @ s) = Some (i, s)"
  by (simp add: pad_2 digit_chars_2)

lemma length_digits_of: "0 < k \<Longrightarrow> n < 10 ^ k \<Longrightarrow> length (digits_of n) \<le> k"
proof (induction n arbitrary: k rule: digits_of.induct)
  case (1 n)
  show ?case
  proof (cases "n < 10")
    case True
    then show ?thesis using 1 by (simp add: digits_of.simps [of n])
  next
    case False
    then obtain j where j: "k = Suc j" "0 < j"
      using 1(2,3) by (cases k; cases "k - 1") auto
    then have "n div 10 < 10 ^ j" using 1(3) by (simp add: less_mult_imp_div_less mult.commute)
    then show ?thesis using 1(1) [OF False, of j] j False by (simp add: digits_of.simps [of n])
  qed
qed

lemma digits_val_zeros: "digits_val (replicate k CHR ''0'' @ s) = digits_val s"
proof -
  have "foldl (\<lambda>n c. 10 * n + digit_val c) 0 (replicate k CHR ''0'') = 0"
    by (induction k) (simp_all add: digit_val_def)
  then show ?thesis by (simp add: digits_val_def)
qed

lemma get4_pad [simp]:
  assumes "0 \<le> i" and "i \<le> 9999"
  shows "get4 (pad_int 4 i @ s) = Some (i, s)"
proof -
  let ?d = "digits_of (nat i)" and ?p = "pad_int 4 i"
  have len: "length ?d \<le> 4" using length_digits_of [of 4 "nat i"] assms by (simp add: nat_less_iff)
  have p: "?p = replicate (4 - length ?d) CHR ''0'' @ ?d"
    using assms by (simp add: pad_int_def Let_def)
  then have l4: "length ?p = 4" using len by simp
  have "list_all is_digit ?p" unfolding p
    using digits_of_digits [of "nat i"] by (auto simp: list_all_iff is_digit_iff)
  moreover have "digits_val ?p = nat i" unfolding p by (simp only: digits_val_zeros digits_val_digits_of)
  ultimately show ?thesis using l4 assms by (simp add: get4_def)
qed

lemma skip_char_Cons [simp]: "skip_char c (c # s) = Some s"
  by (simp add: skip_char_def)

lemma in_range_Some [simp]: "lo \<le> i \<Longrightarrow> i \<le> hi \<Longrightarrow> in_range lo hi (i, s) = Some (i, s)"
  by (simp add: in_range_def)

lemma get_fraction_Z [simp]: "get_fraction ''Z'' = (0, ''Z'')"
  by (simp add: get_fraction_def)

lemma get_offset_Z [simp]: "get_offset ''Z'' = Some (0, [])"
  by (simp add: get_offset_def)

lemma time_fields_range:
  "0 \<le> time_Hour loc t" "time_Hour loc t \<le> 23" "0 \<le> time_Minute loc t" "time_Minute loc t \<le> 59"
  "0 \<le> time_Second loc t" "time_Second loc t \<le> 59"
proof -
  have m: "0 \<le> local_secs loc t mod 86400" "local_secs loc t mod 86400 < 86400"
    "0 \<le> local_secs loc t mod 3600" "local_secs loc t mod 3600 < 3600"
    "0 \<le> local_secs loc t mod 60" "local_secs loc t mod 60 < 60" by simp_all
  have d: "a div k \<le> b" if h: "a < (b + 1) * k" "0 < k" for a b k :: int
  proof (rule ccontr)
    assume "\<not> a div k \<le> b"
    then have "(b + 1) * k \<le> a div k * k" using h(2) by (intro mult_right_mono) auto
    moreover have "a div k * k + a mod k = a" by (rule div_mult_mod_eq)
    ultimately show False using h pos_mod_sign [of k a] by linarith
  qed
  show "0 \<le> time_Hour loc t" "0 \<le> time_Minute loc t" "0 \<le> time_Second loc t"
    by (simp_all add: time_Hour_def time_Minute_def time_Second_def pos_imp_zdiv_nonneg_iff)
  show "time_Hour loc t \<le> 23" unfolding time_Hour_def by (rule d) (use m in simp_all)
  show "time_Minute loc t \<le> 59" unfolding time_Minute_def by (rule d) (use m in simp_all)
  show "time_Second loc t \<le> 59" unfolding time_Second_def using m by linarith
qed

lemma Parse_Format_RFC3339:
  assumes "fst (time_Date_of utc_location t) \<in> {0..9999}"
  shows "Parse_RFC3339 (Format_RFC3339_UTC t) = Some (unix t * d_Second)"
proof -
  obtain y m d where ymd: "time_Date_of utc_location t = (y, m, d)" by (metis prod_cases3)
  then have c: "civil_of_days (local_day utc_location t) = (y, m, d)" by (simp add: time_Date_of_def)
  note v = days_of_civil_of_days [OF c]
  have "d \<le> 31" using v(5) by (auto simp: days_in_def split: if_splits)
  moreover have "0 \<le> y" "y \<le> 9999" using assms ymd by auto
  ultimately have "Parse_RFC3339 (Format_RFC3339_UTC t) =
      Some ((days_of_civil y m d * 86400 + time_Hour utc_location t * 3600
        + time_Minute utc_location t * 60 + time_Second utc_location t) * d_Second)"
    using v time_fields_range [of utc_location t]
    by (simp add: Parse_RFC3339_def Format_RFC3339_UTC_def ymd)
  moreover have "days_of_civil y m d * 86400 + time_Hour utc_location t * 3600
        + time_Minute utc_location t * 60 + time_Second utc_location t
      = local_secs utc_location t"
    using hms_of_day [of utc_location t] div_mult_mod_eq [of "local_secs utc_location t" 86400]
    unfolding v(1) local_day_def by linarith
  moreover have "local_secs utc_location t = unix t"
    by (simp add: local_secs_def utc_location_def tx_location_def)
  ultimately show ?thesis by simp
qed

end
