(* ===== verification/Wake_Override.thy ===== *)
theory Wake_Override
  imports Go_Duration Go_RFC3339
begin

text \<open>
  \<open>internal/wake\<close>: the wake-override value (\<open>parse.go\<close>) and its resolution to an absolute
  expiry (\<open>resolve.go\<close>). The lemmas say which values are accepted, that an expiry never
  exceeds the cap, and that a value that has been stamped is stable: parsed and resolved again
  at any later time it gives the same expiry and asks for no further write.
\<close>

section \<open>parse.go\<close>

record wake_entry =
  we_Expiry :: "instant option"
  we_Relative :: "duration option"

definition ParseEntry :: "string \<Rightarrow> go_error + wake_entry" where
  "ParseEntry v =
     (let head = TrimSpace v in
      if head = [] then Inr \<lparr>we_Expiry = None, we_Relative = None\<rparr>
      else if take 1 head = ''+'' then
        (case ParseDuration head of
           None \<Rightarrow> Inl (InvalidRelative head)
         | Some d \<Rightarrow>
             if d \<le> 0 then Inl (RelativeNotPositive head)
             else Inr \<lparr>we_Expiry = None, we_Relative = Some d\<rparr>)
      else
        (case Parse_RFC3339 head of
           None \<Rightarrow> Inl (InvalidExpiry head)
         | Some t \<Rightarrow> Inr \<lparr>we_Expiry = Some t, we_Relative = None\<rparr>))"

definition HasExpiry :: "wake_entry \<Rightarrow> bool" where
  "HasExpiry e \<longleftrightarrow> we_Expiry e \<noteq> None \<or> we_Relative e \<noteq> None"

section \<open>resolve.go\<close>

record resolution =
  rs_Expiry :: instant
  rs_Changed :: bool
  rs_Clamped :: bool

definition Resolve_wake ::
  "wake_entry \<Rightarrow> instant \<Rightarrow> duration \<Rightarrow> duration \<Rightarrow> go_error + resolution" where
  "Resolve_wake e now def maxd =
     (case
        (case we_Relative e of
           Some d \<Rightarrow> Inr (time_Add now d, True)
         | None \<Rightarrow>
             (case we_Expiry e of
                Some t \<Rightarrow> Inr (t, False)
              | None \<Rightarrow>
                  if def \<le> 0 then Inl NoExpiryNoDefault else Inr (time_Add now def, True)))
      of
        Inl err \<Rightarrow> Inl err
      | Inr (expiry, changed) \<Rightarrow>
          let res = \<lparr>rs_Expiry = expiry, rs_Changed = changed, rs_Clamped = False\<rparr>;
              capTime = time_Add now maxd
          in if maxd > 0 \<and> time_After expiry capTime
             then Inr (res\<lparr>rs_Expiry := capTime, rs_Changed := True, rs_Clamped := True\<rparr>)
             else Inr res)"

definition FormatExpiry :: "instant \<Rightarrow> string" where
  "FormatExpiry expiry = Format_RFC3339_UTC expiry"

section \<open>Trimming and formatting\<close>

lemma drop_rune_not_hd:
  "list_all (\<lambda>p. take 1 p \<noteq> [c]) runes \<Longrightarrow> drop_rune runes (c # s) = None"
  by (auto simp: drop_rune_def first_such_None_iff list_all_iff take_Cons' split: if_splits)
    (metis One_nat_def take_Suc_Cons take0 length_Cons list.exhaust)

definition plain_ends :: "string \<Rightarrow> bool" where
  "plain_ends s \<longleftrightarrow> s \<noteq> [] \<and> drop_rune space_runes s = None
     \<and> drop_rune (map rev space_runes) (rev s) = None"

lemma TrimSpace_plain: "plain_ends s \<Longrightarrow> TrimSpace s = s"
  by (simp add: plain_ends_def TrimSpace_def drop_runes.simps [of space_runes s]
      drop_runes.simps [of _ "rev s"])

lemma pad_int_digits: "0 \<le> i \<Longrightarrow> list_all is_digit (pad_int w i) \<and> pad_int w i \<noteq> []"
  using digits_of_digits [of "nat i"] by (auto simp: pad_int_def Let_def list_all_iff is_digit_iff)

text \<open>The instants whose UTC year is written with four digits.\<close>

definition printable :: "instant \<Rightarrow> bool" where
  "printable t \<longleftrightarrow>
     0 \<le> fst (time_Date_of utc_location t) \<and> fst (time_Date_of utc_location t) \<le> 9999"

lemma Format_shape:
  assumes "printable t"
  obtains c s where "Format_RFC3339_UTC t = c # s @ ''Z''" and "is_digit c"
proof -
  obtain y m d where ymd: "time_Date_of utc_location t = (y, m, d)" by (metis prod_cases3)
  then have "0 \<le> y" using assms by (simp add: printable_def)
  with pad_int_digits [of y 4] obtain c s where "pad_int 4 y = c # s" "is_digit c"
    by (cases "pad_int 4 y") auto
  then show thesis using that ymd by (simp add: Format_RFC3339_UTC_def)
qed

lemma ParseEntry_FormatExpiry:
  assumes "printable t"
  shows "ParseEntry (FormatExpiry t) =
    Inr \<lparr>we_Expiry = Some (unix t * d_Second), we_Relative = None\<rparr>"
proof -
  obtain c s where f: "Format_RFC3339_UTC t = c # s @ ''Z''" "is_digit c"
    using Format_shape [OF assms] .
  have "list_all (\<lambda>p. take 1 p \<noteq> ''Z'') (map rev space_runes)" by code_simp
  then have "plain_ends (c # s @ ''Z'')"
    using drop_rune_digit [OF f(2)] by (simp add: plain_ends_def drop_rune_not_hd)
  then have "TrimSpace (Format_RFC3339_UTC t) = Format_RFC3339_UTC t"
    by (simp add: f(1) TrimSpace_plain)
  moreover have "take 1 (Format_RFC3339_UTC t) \<noteq> ''+''" using f by (auto simp: is_digit_iff)
  moreover have "Format_RFC3339_UTC t \<noteq> []" using f by simp
  ultimately show ?thesis
    using Parse_Format_RFC3339 [of t] assms
    by (simp add: ParseEntry_def FormatExpiry_def printable_def Let_def)
qed

section \<open>Accepted values\<close>

text \<open>A parsed entry has at most one expiry, and a relative one is a positive \<open>Duration\<close>.\<close>

definition entry_wf :: "wake_entry \<Rightarrow> bool" where
  "entry_wf e \<longleftrightarrow> (we_Expiry e = None \<or> we_Relative e = None)
     \<and> (case we_Relative e of None \<Rightarrow> True | Some d \<Rightarrow> 0 < d \<and> is_duration d)"

lemma ParseEntry_wf: "ParseEntry v = Inr e \<Longrightarrow> entry_wf e"
  by (auto simp: ParseEntry_def entry_wf_def Let_def ParseDuration_is_duration
      split: if_splits option.splits)

section \<open>Resolution\<close>

lemma Resolve_wake_cases:
  assumes "Resolve_wake e now def maxd = Inr r" and "entry_wf e"
  obtains (relative) d where "we_Relative e = Some d" "we_Expiry e = None"
      "rs_Expiry r = (if 0 < maxd then min (now + d) (now + maxd) else now + d)" "rs_Changed r"
      "rs_Clamped r \<longleftrightarrow> 0 < maxd \<and> maxd < d"
    | (absolute) t where "we_Expiry e = Some t" "we_Relative e = None"
      "rs_Expiry r = (if 0 < maxd then min t (now + maxd) else t)"
      "rs_Changed r \<longleftrightarrow> 0 < maxd \<and> now + maxd < t" "rs_Clamped r \<longleftrightarrow> rs_Changed r"
    | (default) "\<not> HasExpiry e" "0 < def"
      "rs_Expiry r = (if 0 < maxd then min (now + def) (now + maxd) else now + def)" "rs_Changed r"
      "rs_Clamped r \<longleftrightarrow> 0 < maxd \<and> maxd < def"
proof (cases "we_Relative e")
  case (Some d)
  then show ?thesis using assms
    by (intro relative [of d])
      (auto simp: Resolve_wake_def entry_wf_def time_order_defs Let_def split: if_splits)
next
  case None
  note rel = None
  show ?thesis
  proof (cases "we_Expiry e")
    case (Some t)
    then show ?thesis using assms rel
      by (intro absolute [of t])
        (auto simp: Resolve_wake_def entry_wf_def time_order_defs Let_def split: if_splits)
  next
    case None
    then show ?thesis using assms rel
      by (intro default)
        (auto simp: Resolve_wake_def HasExpiry_def time_order_defs Let_def split: if_splits)
  qed
qed

lemma Resolve_wake_capped:
  assumes "Resolve_wake e now def maxd = Inr r" and "0 < maxd"
  shows "rs_Expiry r \<le> now + maxd"
  using assms
  by (auto simp: Resolve_wake_def time_order_defs Let_def split: sum.splits option.splits if_splits)

lemma unix_le: "unix t * d_Second \<le> t"
  using unix_nanos [of t] nanos_range(1) [of t] by linarith

lemma unix_gt: "t < unix t * d_Second + d_Second"
  using unix_nanos [of t] nanos_range(2) [of t] by linarith

text \<open>
  C26: A wake override never outlives its cap. With a positive \<open>maxDuration\<close> every accepted value
  resolves to an expiry at most \<open>now + max\<close>; without one there is no cap and nothing is clamped. A
  clamped expiry sits exactly at the cap and is written back, a relative or default expiry is still to
  come and is written back, and an absolute expiry is never moved later.
\<close>

theorem Resolve_wake_bounds:
  assumes "ParseEntry v = Inr e" and "Resolve_wake e now def maxd = Inr r"
  shows "(0 < maxd \<longrightarrow> rs_Expiry r \<le> now + maxd)
    \<and> (rs_Clamped r \<longrightarrow> 0 < maxd \<and> rs_Expiry r = now + maxd \<and> rs_Changed r)
    \<and> (we_Expiry e = None \<longrightarrow> now < rs_Expiry r \<and> rs_Changed r)
    \<and> (\<forall>t. we_Expiry e = Some t \<longrightarrow> rs_Expiry r \<le> t)"
proof -
  note wf = ParseEntry_wf [OF assms(1)]
  from assms(2) wf show ?thesis
    by (cases rule: Resolve_wake_cases) (use wf in \<open>auto simp: entry_wf_def HasExpiry_def\<close>)
qed

theorem Resolve_wake_bounds_witness:
  "\<exists>e r. ParseEntry ''+9h'' = Inr e \<and> Resolve_wake e 0 d_Hour (4 * d_Hour) = Inr r
     \<and> rs_Clamped r \<and> rs_Expiry r \<le> 0 + 4 * d_Hour"
proof -
  have p: "ParseEntry ''+9h'' = Inr \<lparr>we_Expiry = None, we_Relative = Some (9 * d_Hour)\<rparr>" by code_simp
  have r: "Resolve_wake \<lparr>we_Expiry = None, we_Relative = Some (9 * d_Hour)\<rparr> 0 d_Hour (4 * d_Hour)
      = Inr \<lparr>rs_Expiry = 4 * d_Hour, rs_Changed = True, rs_Clamped = True\<rparr>" by code_simp
  obtain e r where "ParseEntry ''+9h'' = Inr e" "Resolve_wake e 0 d_Hour (4 * d_Hour) = Inr r" "rs_Clamped r"
    using p r by force
  with Resolve_wake_bounds [OF this(1,2)] show ?thesis by auto
qed

text \<open>
  C27: Stamping is final. When a pass rewrites the value of an override (a relative, default or
  clamped one), every later pass reads the stamped text back, resolves it to the same whole
  second, at most one second before the resolved expiry, and neither rewrites nor clamps it:
  an override never extends itself.
\<close>

theorem stamped_wake_stable:
  assumes "ParseEntry v = Inr e" and "Resolve_wake e now def maxd = Inr r"
    and "printable (rs_Expiry r)" and "now \<le> later"
  shows "\<exists>e' r'. ParseEntry (FormatExpiry (rs_Expiry r)) = Inr e'
    \<and> Resolve_wake e' later def maxd = Inr r' \<and> \<not> rs_Changed r' \<and> \<not> rs_Clamped r'
    \<and> rs_Expiry r' \<le> rs_Expiry r \<and> rs_Expiry r < rs_Expiry r' + d_Second"
proof -
  let ?x = "unix (rs_Expiry r) * d_Second"
  have "?x \<le> later + maxd" if "0 < maxd"
    using Resolve_wake_capped [OF assms(2) that] unix_le [of "rs_Expiry r"] assms(4) by linarith
  then have "Resolve_wake \<lparr>we_Expiry = Some ?x, we_Relative = None\<rparr> later def maxd
      = Inr \<lparr>rs_Expiry = ?x, rs_Changed = False, rs_Clamped = False\<rparr>"
    by (simp add: Resolve_wake_def time_order_defs Let_def) linarith
  with ParseEntry_FormatExpiry [OF assms(3)] unix_le [of "rs_Expiry r"] unix_gt [of "rs_Expiry r"]
  show ?thesis by simp
qed

theorem stamped_wake_stable_witness:
  "\<exists>e' r'. ParseEntry (FormatExpiry (5 * d_Minute + 7)) = Inr e'
    \<and> Resolve_wake e' d_Minute 0 0 = Inr r' \<and> \<not> rs_Changed r' \<and> \<not> rs_Clamped r'
    \<and> rs_Expiry r' \<le> 5 * d_Minute + 7 \<and> 5 * d_Minute + 7 < rs_Expiry r' + d_Second"
proof -
  have p: "ParseEntry ''  +5m'' = Inr \<lparr>we_Expiry = None, we_Relative = Some (5 * d_Minute)\<rparr>"
    by code_simp
  have r: "Resolve_wake \<lparr>we_Expiry = None, we_Relative = Some (5 * d_Minute)\<rparr> 7 0 0 =
    Inr \<lparr>rs_Expiry = 5 * d_Minute + 7, rs_Changed = True, rs_Clamped = False\<rparr>"
    by code_simp
  have "printable (5 * d_Minute + 7)" unfolding printable_def by code_simp
  with stamped_wake_stable [OF p r, of d_Minute] show ?thesis by simp
qed

section \<open>Relative values\<close>

lemma foldl_digits_mono: "x \<le> foldl (\<lambda>n c. 10 * n + digit_val c) x ds" for x :: nat
proof (induction ds arbitrary: x)
  case (Cons c ds)
  show ?case using Cons [of "10 * x + digit_val c"] by simp
qed simp

lemma leadingInt_digits:
  assumes "list_all is_digit ds" and "\<forall>c s. u = c # s \<longrightarrow> \<not> is_digit c"
  shows "x \<le> 2 ^ 63 \<Longrightarrow> leadingInt x (ds @ u) =
    (let n = foldl (\<lambda>n c. 10 * n + digit_val c) x ds in if n \<le> 2 ^ 63 then Some (n, u) else None)"
  using assms(1)
proof (induction ds arbitrary: x)
  case Nil
  then show ?case using assms(2) by (cases u) auto
next
  case (Cons c ds)
  have m: "10 * x + digit_val c \<le> foldl (\<lambda>n c. 10 * n + digit_val c) (10 * x + digit_val c) ds"
    by (rule foldl_digits_mono)
  show ?case
  proof (cases "10 * x + digit_val c \<le> 2 ^ 63")
    case True
    then show ?thesis using Cons by (simp add: mult.commute)
  next
    case False
    then show ?thesis using Cons.prems m by (auto simp: Let_def mult.commute)
  qed
qed

definition unit_suffix :: "string \<Rightarrow> nat \<Rightarrow> bool" where
  "unit_suffix u k \<longleftrightarrow> list_all unit_char u \<and> u \<noteq> [] \<and> map_of duration_units u = Some k
     \<and> 0 < k \<and> list_all (\<lambda>p. take 1 p \<noteq> [last u]) (map rev space_runes)"

lemma ParseDuration_units:
  assumes "unit_suffix u k"
  shows "ParseDuration (CHR ''+'' # digits_of n @ u) =
    (if n * k \<le> 2 ^ 63 - 1 then Some (int (n * k)) else None)"
proof -
  let ?b = "digits_of n @ u"
  have u: "u \<noteq> []" "list_all unit_char u" "map_of duration_units u = Some k" "0 < k"
    using assms by (auto simp: unit_suffix_def)
  have hd: "\<forall>c s. u = c # s \<longrightarrow> \<not> is_digit c \<and> c \<noteq> CHR ''.''"
    using u(1,2) by (auto simp: unit_char_def)
  obtain d ds where d: "digits_of n = d # ds" "is_digit d" using digits_of_hd by blast
  have li: "leadingInt 0 ?b = (if n \<le> 2 ^ 63 then Some (n, u) else None)"
    using leadingInt_digits [of "digits_of n" u 0] digits_of_digits [of n] hd
      digits_val_digits_of [of n] by (simp add: digits_val_def Let_def)
  have tk: "takeWhile unit_char u = u" "dropWhile unit_char u = []"
    using u(2) by (simp_all add: list_all_iff)
  have nodot: "(case u of c # s1' \<Rightarrow>
      if c = CHR ''.'' then (case leadingFraction 0 1 False s1' of
          (f, scale, s2) \<Rightarrow> (f, scale, s2, length s2 \<noteq> length s1'))
      else (0, 1, u, False) | [] \<Rightarrow> (0, 1, u, False)) = (0, 1, u, False)"
    using hd by (auto split: list.split)
  have part: "duration_part ?b =
      (if n \<le> 2 ^ 63 \<and> n \<le> 2 ^ 63 div k then Some (n * k, []) else None)"
    unfolding duration_part_def li [unfolded d(1)] d(1)
    using d(2) u by (simp add: Let_def nodot tk li [unfolded d(1)]
        del: leadingInt.simps takeWhile_eq_all_conv dropWhile_eq_Nil_conv)
  have le: "n \<le> 2 ^ 63 div k \<longleftrightarrow> n * k \<le> 2 ^ 63"
    using u(4) by (simp add: less_eq_div_iff_mult_less_eq)
  have n63: "n * k \<le> 2 ^ 63 \<Longrightarrow> n \<le> 2 ^ 63"
    using u(4) by (metis One_nat_def Suc_leI le_trans mult.right_neutral mult_le_mono2)
  have "duration_loop 0 ?b = (if n * k \<le> 2 ^ 63 then Some (n * k) else None)"
    using part le n63 d
    by (subst duration_loop.simps) (auto simp: Let_def duration_loop.simps [of _ "[]"])
  moreover have "?b \<noteq> ''0''" using d u(1) by (cases u) auto
  moreover have "?b \<noteq> []" using u(1) by simp
  ultimately show ?thesis by (auto simp: ParseDuration_def Let_def)
qed

lemma unit_suffix_h: "unit_suffix ''h'' 3600000000000"
  and unit_suffix_m: "unit_suffix ''m'' 60000000000"
  and unit_suffix_s: "unit_suffix ''s'' 1000000000"
  and unit_suffix_ms: "unit_suffix ''ms'' 1000000"
  by (code_simp)+

text \<open>
  C28: The relative form \<open>+<n><unit>\<close> with decimal \<open>n\<close> and a unit of Go's duration syntax:
  accepted exactly when \<open>n\<close> units are a positive number of nanoseconds that a 64-bit
  \<open>Duration\<close> holds, and then it means exactly \<open>n\<close> units; zero and overflow are errors, never
  a wrapped-around duration.
\<close>

theorem ParseEntry_relative:
  assumes "unit_suffix u k"
  shows "ParseEntry (CHR ''+'' # digits_of n @ u) =
    (if 2 ^ 63 - 1 < n * k then Inl (InvalidRelative (CHR ''+'' # digits_of n @ u))
     else if n = 0 then Inl (RelativeNotPositive (CHR ''+'' # digits_of n @ u))
     else Inr \<lparr>we_Expiry = None, we_Relative = Some (int (n * k))\<rparr>)"
proof -
  let ?h = "CHR ''+'' # digits_of n @ u"
  have "list_all (\<lambda>p. take 1 p \<noteq> ''+'') space_runes" by code_simp
  then have "drop_rune space_runes ?h = None" by (rule drop_rune_not_hd)
  moreover have "drop_rune (map rev space_runes) (rev ?h) = None"
  proof -
    have "u \<noteq> []" and l: "list_all (\<lambda>p. take 1 p \<noteq> [last u]) (map rev space_runes)"
      using assms by (auto simp: unit_suffix_def)
    then obtain us c where "u = us @ [c]" by (cases u rule: rev_cases) auto
    with drop_rune_not_hd [OF l] show ?thesis by simp
  qed
  ultimately have "TrimSpace ?h = ?h" by (simp add: plain_ends_def TrimSpace_plain)
  moreover have "0 < k" using assms by (simp add: unit_suffix_def)
  ultimately show ?thesis
    using ParseDuration_units [OF assms, of n] by (auto simp: ParseEntry_def Let_def mult_le_0_iff simp del: of_nat_mult of_nat_Suc)
qed

theorem ParseEntry_relative_witness:
  "ParseEntry ''+2562047h'' = Inr \<lparr>we_Expiry = None, we_Relative = Some (2562047 * d_Hour)\<rparr>
   \<and> ParseEntry ''+2562048h'' = Inl (InvalidRelative ''+2562048h'')"
proof -
  have d: "digits_of 2562047 = ''2562047''" "digits_of 2562048 = ''2562048''" by code_simp+
  show ?thesis
    using ParseEntry_relative [OF unit_suffix_h, of 2562047]
      ParseEntry_relative [OF unit_suffix_h, of 2562048] unfolding d by simp
qed

end
