(* ===== verification/Webhook.thy ===== *)
theory Webhook
  imports Schedule_Correct Wake_Override
begin

text \<open>
  \<open>internal/webhook/v1alpha1/sleepschedule_webhook.go\<close>: the validating webhook. What it admits,
  together with the OpenAPI constraints, is what the evaluator and the wake resolver rely on:
  a loadable time zone, windows that open before they close, and wake durations in order.
\<close>

section \<open>Field errors\<close>

text \<open>\<open>field.Invalid\<close> and \<open>field.Required\<close>: the path is written out as \<open>field.Path.String\<close> does.\<close>

datatype field_error =
    FieldInvalid string string string
  | FieldRequired string string

definition awake_from_path :: "nat \<Rightarrow> string" where
  "awake_from_path i = ''spec.awake['' @ digits_of i @ ''].from''"

definition timezone_error :: "string \<Rightarrow> field_error" where
  "timezone_error tz =
     FieldInvalid ''spec.timezone'' tz
       ''must be a valid IANA timezone (e.g. \"Europe/Paris\")''"

definition window_error :: "nat \<Rightarrow> awake_window \<Rightarrow> field_error" where
  "window_error i w =
     FieldInvalid (awake_from_path i) (aw_From w)
       (''must be earlier than \"to\" ('' @ aw_To w @ '')'')"

fun window_errors :: "nat \<Rightarrow> awake_window list \<Rightarrow> field_error list" where
  "window_errors i [] = []"
| "window_errors i (w # ws) =
     (if aw_From w \<ge> aw_To w then [window_error i w] else []) @ window_errors (Suc i) ws"

definition target_errors :: "target \<Rightarrow> field_error list" where
  "target_errors t =
     (if tg_Mode t = TargetModeNamespaces then
        (if length (tg_Namespaces t) = 0 then
           [FieldRequired ''spec.target.namespaces''
              ''at least one namespace is required when target.mode is \"namespaces\"'']
         else [])
      else if tg_Mode t = TargetModeLabels then
        (if tg_Selector t = None then
           [FieldRequired ''spec.target.selector''
              ''a selector is required when target.mode is \"labels\"'']
         else [])
      else [])"

definition wake_errors :: "temporary_wake option \<Rightarrow> field_error list" where
  "wake_errors otw =
     (case otw of
        None \<Rightarrow> []
      | Some tw \<Rightarrow>
          (if tw_MaxDuration tw \<le> 0 then
             [FieldInvalid ''spec.temporaryWake.maxDuration''
                (Duration_String (tw_MaxDuration tw)) ''must be a positive duration'']
           else [])
          @ (if tw_DefaultDuration tw \<le> 0 then
               [FieldInvalid ''spec.temporaryWake.defaultDuration''
                  (Duration_String (tw_DefaultDuration tw)) ''must be a positive duration'']
             else [])
          @ (if tw_MaxDuration tw > 0 \<and> tw_DefaultDuration tw > tw_MaxDuration tw then
               [FieldInvalid ''spec.temporaryWake.defaultDuration''
                  (Duration_String (tw_DefaultDuration tw))
                  ''must not exceed temporaryWake.maxDuration'']
             else []))"

text \<open>\<open>None\<close> is the nil error; \<open>Some (name, errs)\<close> the \<open>apierrors.NewInvalid\<close> status.\<close>

definition validateSleepSchedule ::
  "(string \<Rightarrow> location option) \<Rightarrow> sleep_schedule \<Rightarrow> (string \<times> field_error list) option"
where
  "validateSleepSchedule LoadLocation ss =
     (let spec = ss_Spec ss;
          allErrs =
            (if LoadLocation (sp_Timezone spec) = None then [timezone_error (sp_Timezone spec)] else [])
            @ window_errors 0 (sp_Awake spec)
            @ target_errors (sp_Target spec)
            @ wake_errors (sp_TemporaryWake spec)
      in if length allErrs = 0 then None else Some (ss_Name ss, allErrs))"

definition ValidateCreate ::
  "(string \<Rightarrow> location option) \<Rightarrow> sleep_schedule \<Rightarrow> string list \<times> (string \<times> field_error list) option"
where
  "ValidateCreate LoadLocation ss = ([], validateSleepSchedule LoadLocation ss)"

definition ValidateUpdate ::
  "(string \<Rightarrow> location option) \<Rightarrow> sleep_schedule \<Rightarrow> sleep_schedule
   \<Rightarrow> string list \<times> (string \<times> field_error list) option"
where
  "ValidateUpdate LoadLocation old new = ([], validateSleepSchedule LoadLocation new)"

definition ValidateDelete ::
  "sleep_schedule \<Rightarrow> string list \<times> (string \<times> field_error list) option"
where
  "ValidateDelete ss = ([], None)"

section \<open>What admission gives\<close>

lemma isAwakeAt_loop_window:
  assumes "w \<in> set ws" and "d \<in> set (aw_Days w)"
    and "parseHHMM (aw_From w) = Some from" and "parseHHMM (aw_To w) = Some to"
    and "from \<le> minute" and "minute < to"
  shows "isAwakeAt_loop ws (weekday_of d) minute"
  using assms by (auto simp: isAwakeAt_loop_iff window_contains_def windowCoversDay_iff)

lemma window_errors_Nil_iff: "window_errors i ws = [] \<longleftrightarrow> (\<forall>w \<in> set ws. aw_From w < aw_To w)"
  by (induction i ws rule: window_errors.induct) (auto simp: not_le)

lemma admitted_iff:
  "validateSleepSchedule LoadLocation ss = None \<longleftrightarrow>
     LoadLocation (sp_Timezone (ss_Spec ss)) \<noteq> None
     \<and> (\<forall>w \<in> set (sp_Awake (ss_Spec ss)). aw_From w < aw_To w)
     \<and> target_errors (sp_Target (ss_Spec ss)) = [] \<and> wake_errors (sp_TemporaryWake (ss_Spec ss)) = []"
  by (auto simp: validateSleepSchedule_def Let_def window_errors_Nil_iff)

lemma wake_errors_Nil_iff:
  "wake_errors otw = [] \<longleftrightarrow>
     (\<forall>tw. otw = Some tw \<longrightarrow> 0 < tw_DefaultDuration tw \<and> tw_DefaultDuration tw \<le> tw_MaxDuration tw)"
  by (auto simp: wake_errors_def split: option.splits)

text \<open>Strings of the pattern compare as the times of day that they denote.\<close>

lemma digit_less: "is_digit a \<Longrightarrow> is_digit b \<Longrightarrow> a < b \<longleftrightarrow> digit_val a < digit_val b"
  by (auto simp: less_char_def is_digit_iff digit_val_def)

lemma digit_eq: "is_digit a \<Longrightarrow> is_digit b \<Longrightarrow> a = b \<longleftrightarrow> digit_val a = digit_val b"
  by (metis digit_char_val)

lemma two_digit_less:
  fixes a b a' b' :: nat
  assumes "b \<le> 9" and "b' \<le> 9"
  shows "a < a' \<or> a = a' \<and> (b < b' \<or> b = b' \<and> R) \<longleftrightarrow>
    10 * a + b < 10 * a' + b' \<or> 10 * a + b = 10 * a' + b' \<and> R"
  using assms by (cases a a' rule: linorder_cases) auto

lemma hour_minute_less:
  fixes h m h' m' :: nat
  assumes "m \<le> 59" and "m' \<le> 59"
  shows "h < h' \<or> h = h' \<and> m < m' \<longleftrightarrow> 60 * int h + int m < 60 * int h' + int m'"
  using assms by (cases h h' rule: linorder_cases) auto

lemma hhmm_less_iff:
  assumes "hhmm_pattern s" and "hhmm_pattern t"
    and "parseHHMM s = Some m" and "parseHHMM t = Some n"
  shows "s < t \<longleftrightarrow> m < n"
proof -
  obtain a b c d where s: "s = [a, b, CHR '':'', c, d]"
    and sd: "is_digit a" "is_digit b" "is_digit c" "is_digit d"
    and m: "m = 60 * (10 * int (digit_val a) + int (digit_val b))
       + 10 * int (digit_val c) + int (digit_val d)"
    using parseHHMM_pattern [OF assms(1)] assms(3) by (metis option.inject)
  obtain a' b' c' d' where t: "t = [a', b', CHR '':'', c', d']"
    and td: "is_digit a'" "is_digit b'" "is_digit c'" "is_digit d'"
    and n: "n = 60 * (10 * int (digit_val a') + int (digit_val b'))
       + 10 * int (digit_val c') + int (digit_val d')"
    using parseHHMM_pattern [OF assms(2)] assms(4) by (metis option.inject)
  have c59: "10 * digit_val c + digit_val d \<le> 59" "10 * digit_val c' + digit_val d' \<le> 59"
    by (rule hhmm_pattern_cases [OF assms(1)]; simp add: s)
      (rule hhmm_pattern_cases [OF assms(2)]; simp add: t)
  have "s < t \<longleftrightarrow> digit_val a < digit_val a' \<or> digit_val a = digit_val a' \<and>
      (digit_val b < digit_val b' \<or> digit_val b = digit_val b' \<and>
      (digit_val c < digit_val c' \<or> digit_val c = digit_val c' \<and> digit_val d < digit_val d'))"
    using sd td by (simp add: s t digit_less digit_eq)
  also have "\<dots> \<longleftrightarrow>
      10 * digit_val a + digit_val b < 10 * digit_val a' + digit_val b'
      \<or> 10 * digit_val a + digit_val b = 10 * digit_val a' + digit_val b'
        \<and> 10 * digit_val c + digit_val d < 10 * digit_val c' + digit_val d'"
    unfolding two_digit_less [OF digit_val_le [OF sd(2)] digit_val_le [OF td(2)]]
    using two_digit_less [OF digit_val_le [OF sd(4)] digit_val_le [OF td(4)],
        of "digit_val c" "digit_val c'" False] by simp
  also have "\<dots> \<longleftrightarrow> m < n"
    using hour_minute_less [OF c59, of "10 * digit_val a + digit_val b"
        "10 * digit_val a' + digit_val b'"] unfolding m n by (simp add: algebra_simps)
  finally show ?thesis .
qed


text \<open>
  C15: What the webhook and the OpenAPI schema admit together is a schedule that the evaluator
  handles: the time zone loads, so \<open>Evaluate\<close> never returns an error; and every window parses
  to minutes \<open>from < to\<close>, so none is skipped by the evaluator and each is awake throughout the
  half-open range of minutes it names on the days it lists.
\<close>

theorem admitted_schedule_evaluates:
  assumes "crd_spec (ss_Spec ss)" and "validateSleepSchedule LoadLocation ss = None"
  shows "(\<exists>loc. LoadLocation (sp_Timezone (ss_Spec ss)) = Some loc)
    \<and> (\<forall>err. Evaluate LoadLocation (ss_Spec ss) now \<noteq> Some (Inl err))
    \<and> (\<forall>w \<in> set (sp_Awake (ss_Spec ss)). \<exists>f t.
         parseHHMM (aw_From w) = Some f \<and> parseHHMM (aw_To w) = Some t
         \<and> 0 \<le> f \<and> f < t \<and> t \<le> 1439
         \<and> (\<forall>d \<in> set (aw_Days w). \<forall>minute. f \<le> minute \<and> minute < t \<longrightarrow>
              isAwakeAt_loop (sp_Awake (ss_Spec ss)) (weekday_of d) minute))"
proof (intro conjI ballI)
  from assms(2) obtain loc where loc: "LoadLocation (sp_Timezone (ss_Spec ss)) = Some loc"
    by (auto simp: admitted_iff)
  then show "\<exists>loc. LoadLocation (sp_Timezone (ss_Spec ss)) = Some loc" by blast
  show "\<forall>err. Evaluate LoadLocation (ss_Spec ss) now \<noteq> Some (Inl err)"
    using loc by (auto simp: Evaluate_def Let_def split: option.splits)
next
  fix w assume w: "w \<in> set (sp_Awake (ss_Spec ss))"
  with assms have p: "hhmm_pattern (aw_From w)" "hhmm_pattern (aw_To w)" "aw_From w < aw_To w"
    by (auto simp: crd_spec_def crd_awake_window_def list_all_iff admitted_iff)
  obtain f t where f: "parseHHMM (aw_From w) = Some f" "parseHHMM (aw_To w) = Some t"
    using parseHHMM_pattern [OF p(1)] parseHHMM_pattern [OF p(2)] by metis
  have "f < t" using hhmm_less_iff [OF p(1,2) f] p(3) by simp
  moreover have "0 \<le> f" "t \<le> 1439"
    using parseHHMM_range [OF f(1)] parseHHMM_range [OF f(2)] by simp_all
  moreover have "isAwakeAt_loop (sp_Awake (ss_Spec ss)) (weekday_of d) minute"
    if "d \<in> set (aw_Days w)" "f \<le> minute \<and> minute < t" for d minute
    using isAwakeAt_loop_window [OF w that(1) f] that(2) by simp
  ultimately show "\<exists>f t.
         parseHHMM (aw_From w) = Some f \<and> parseHHMM (aw_To w) = Some t
         \<and> 0 \<le> f \<and> f < t \<and> t \<le> 1439
         \<and> (\<forall>d \<in> set (aw_Days w). \<forall>minute. f \<le> minute \<and> minute < t \<longrightarrow>
              isAwakeAt_loop (sp_Awake (ss_Spec ss)) (weekday_of d) minute)"
    using f by blast
qed

lemma office_hours_admitted:
  "crd_spec (ss_Spec office_hours)"
  "validateSleepSchedule (go_LoadLocation utc_location (\<lambda>_. None)) office_hours = None"
  by code_simp+

theorem admitted_schedule_evaluates_witness:
  "isAwakeAt_loop (sp_Awake (ss_Spec office_hours)) (weekday_of ''Tue'') 600"
proof -
  have w: "\<lparr>aw_Days = [''Mon'', ''Tue''], aw_From = ''08:30'', aw_To = ''19:00''\<rparr>
    \<in> set (sp_Awake (ss_Spec office_hours))"
    by (simp add: office_hours_def)
  have m: "parseHHMM ''08:30'' = Some 510" "parseHHMM ''19:00'' = Some 1140" by code_simp+
  show ?thesis
    using admitted_schedule_evaluates [OF office_hours_admitted] w m by fastforce
qed

text \<open>
  C16: Wake durations: when a schedule with a \<open>temporaryWake\<close> section is admitted, no override
  value that parses can fail to resolve, an empty value means exactly \<open>now + defaultDuration\<close>
  without clamping, and every override ends within \<open>maxDuration\<close>.
\<close>

theorem admitted_wake_resolves:
  assumes "validateSleepSchedule LoadLocation ss = None"
    and "sp_TemporaryWake (ss_Spec ss) = Some tw" and "ParseEntry v = Inr e"
  shows "\<exists>r. Resolve_wake e now (tw_DefaultDuration tw) (tw_MaxDuration tw) = Inr r
    \<and> rs_Expiry r \<le> now + tw_MaxDuration tw
    \<and> (\<not> HasExpiry e \<longrightarrow> rs_Expiry r = now + tw_DefaultDuration tw \<and> \<not> rs_Clamped r)"
proof -
  have "wake_errors (Some tw) = []" using assms(1,2) by (simp add: admitted_iff)
  then have "0 < tw_DefaultDuration tw" "tw_DefaultDuration tw \<le> tw_MaxDuration tw"
    by (auto simp: wake_errors_Nil_iff)
  then show ?thesis
    by (auto simp: Resolve_wake_def HasExpiry_def time_order_defs Let_def split: option.splits)
qed

theorem admitted_wake_resolves_witness:
  "\<exists>r. Resolve_wake \<lparr>we_Expiry = None, we_Relative = None\<rparr> 5 d_Hour (4 * d_Hour) = Inr r
    \<and> rs_Expiry r = 5 + d_Hour"
proof -
  have "sp_TemporaryWake (ss_Spec office_hours) =
      Some \<lparr>tw_MaxDuration = 4 * d_Hour, tw_DefaultDuration = d_Hour\<rparr>"
    by (simp add: office_hours_def)
  moreover have "ParseEntry '' '' = Inr \<lparr>we_Expiry = None, we_Relative = None\<rparr>" by code_simp
  ultimately show ?thesis
    using admitted_wake_resolves [OF office_hours_admitted(2), of _ "'' ''" _ 5]
    by (fastforce simp: HasExpiry_def)
qed

lemma window_errors_indices:
  "window_errors k ws =
     map (\<lambda>i. window_error (k + i) (ws ! i)) (filter (\<lambda>i. aw_To (ws ! i) \<le> aw_From (ws ! i)) [0..<length ws])"
proof (induction ws arbitrary: k)
  case (Cons w ws)
  have "[0..<length (w # ws)] = 0 # map Suc [0..<length ws]"
    by (metis length_Cons upt_conv_Cons map_Suc_upt zero_less_Suc)
  then show ?case by (simp add: Cons filter_map o_def)
qed simp

text \<open>
  C25: Every window that does not open before it closes is reported once, under the path that
  carries its index, and no other window is: the \<open>awake\<close> errors of a rejected schedule name the
  offending windows in order.
\<close>

theorem validate_reports_windows:
  "(case validateSleepSchedule LoadLocation ss of None \<Rightarrow> [] | Some (_, errs) \<Rightarrow>
      filter (\<lambda>e. \<exists>i w. e = window_error i w) errs) =
   map (\<lambda>i. window_error i (sp_Awake (ss_Spec ss) ! i))
     (filter (\<lambda>i. aw_To (sp_Awake (ss_Spec ss) ! i) \<le> aw_From (sp_Awake (ss_Spec ss) ! i))
       [0..<length (sp_Awake (ss_Spec ss))])"
proof -
  let ?P = "\<lambda>e. \<exists>i w. e = window_error i w"
  have "filter ?P (target_errors t) = []" for t
    by (auto simp: target_errors_def window_error_def)
  moreover have "filter ?P (wake_errors tw) = []" for tw
    by (auto simp: wake_errors_def window_error_def awake_from_path_def split: option.splits)
  moreover have "filter ?P [timezone_error z] = []" for z
    by (auto simp: timezone_error_def window_error_def awake_from_path_def)
  moreover have "filter ?P (window_errors k ws) = window_errors k ws" for k ws
    by (auto simp: window_errors_indices filter_id_conv)
  ultimately have "(case validateSleepSchedule LoadLocation ss of None \<Rightarrow> [] | Some (_, errs) \<Rightarrow>
      filter ?P errs) = window_errors 0 (sp_Awake (ss_Spec ss))"
    by (auto simp: validateSleepSchedule_def Let_def)
  then show ?thesis by (simp add: window_errors_indices)
qed

end
