(* ===== verification/Kube_Api.thy ===== *)
theory Kube_Api
  imports Api_Types
begin

text \<open>
  The world of the operator. The objects it touches are records with the fields it reads or
  writes; the client of \<open>controller-runtime\<close> and the helpers of \<open>client-go\<close> and
  \<open>apimachinery\<close> are third-party code, and a parameter of the model: the record \<open>'w kube\<close> of
  their operations over an abstract world \<open>'w\<close>. What the operator relies on is stated by
  \<^theory_text>\<open>kube_laws\<close> (every call fails without effect or does what the API documents) and
  \<^theory_text>\<open>secret_occ\<close> (optimistic concurrency, with reads that may be stale). The in-memory client
  at the end satisfies the first; the theorems of the other theories are applied to it.
\<close>

section \<open>Go maps\<close>

fun map_put :: "string \<Rightarrow> 'v \<Rightarrow> 'v gomap \<Rightarrow> 'v gomap" where
  "map_put k v [] = [(k, v)]"
| "map_put k v ((j, u) # m) =
     (if k = j then (k, v) # m else if k < j then (k, v) # (j, u) # m else (j, u) # map_put k v m)"

definition map_del :: "string \<Rightarrow> 'v gomap \<Rightarrow> 'v gomap" where
  "map_del k m = filter (\<lambda>p. fst p \<noteq> k) m"

text \<open>The canonical list of a map: strictly increasing keys.\<close>

definition map_wf :: "'v gomap \<Rightarrow> bool" where
  "map_wf m \<longleftrightarrow> sorted_wrt (<) (map fst m)"

lemma map_of_map_put [simp]: "map_of (map_put k v m) = (map_of m)(k \<mapsto> v)"
  by (induction k v m rule: map_put.induct) (auto simp: fun_eq_iff)

lemma map_of_map_del [simp]: "map_of (map_del k m) = (map_of m)(k := None)"
  by (induction m) (auto simp: map_del_def fun_eq_iff)

lemma map_del_Nil_iff: "map_del k m = [] \<longleftrightarrow> (\<forall>j. j \<noteq> k \<longrightarrow> map_of m j = None)"
proof
  assume "map_del k m = []"
  then have "map_of (map_del k m) = Map.empty" by simp
  then show "\<forall>j. j \<noteq> k \<longrightarrow> map_of m j = None" by (metis fun_upd_other map_of_map_del)
next
  assume *: "\<forall>j. j \<noteq> k \<longrightarrow> map_of m j = None"
  show "map_del k m = []"
    using * by (fastforce simp: map_del_def filter_empty_conv map_of_eq_None_iff image_iff)
qed

lemma set_map_put: "fst ` set (map_put k v m) = insert k (fst ` set m)"
  by (induction k v m rule: map_put.induct) auto

lemma map_wf_put: "map_wf m \<Longrightarrow> map_wf (map_put k v m)"
proof (induction k v m rule: map_put.induct)
  case (2 k v j u m)
  have *: "set (map fst (map_put k v m)) = insert k (set (map fst m))"
    using set_map_put [of k v m] by simp
  show ?case using 2 * by (auto simp: map_wf_def dest: order.strict_trans)
qed (simp add: map_wf_def)

section \<open>Objects\<close>

record object_meta =
  om_Namespace :: string
  om_Name :: string
  om_UID :: string
  om_Labels :: "string gomap"
  om_Annotations :: "string gomap"

record deployment =
  dp_Meta :: object_meta
  dp_Replicas :: "int32 option"

text \<open>Of the claim retention policy, its \<open>whenScaled\<close> where a policy is set.\<close>

record stateful_set =
  sts_Meta :: object_meta
  sts_Replicas :: "int32 option"
  sts_PVCWhenScaled :: "string option"

text \<open>A node selector is nil or a map: \<open>encoding/json\<close> tells the two apart.\<close>

record daemon_set =
  ds_Meta :: object_meta
  ds_NodeSelector :: "string gomap option"

record cron_job =
  cj_Meta :: object_meta
  cj_Suspend :: "bool option"

record job =
  jb_Meta :: object_meta
  jb_Suspend :: "bool option"
  jb_Active :: int32

record hpa =
  hp_Meta :: object_meta
  hp_MinReplicas :: "int32 option"
  hp_MaxReplicas :: int32

datatype kobj =
    KDeployment deployment
  | KStatefulSet stateful_set
  | KDaemonSet daemon_set
  | KCronJob cron_job
  | KJob job
  | KHPA hpa

fun meta_of :: "kobj \<Rightarrow> object_meta" where
  "meta_of (KDeployment d) = dp_Meta d"
| "meta_of (KStatefulSet s) = sts_Meta s"
| "meta_of (KDaemonSet d) = ds_Meta d"
| "meta_of (KCronJob c) = cj_Meta c"
| "meta_of (KJob j) = jb_Meta j"
| "meta_of (KHPA h) = hp_Meta h"

fun kind_of :: "kobj \<Rightarrow> string" where
  "kind_of (KDeployment d) = ''Deployment''"
| "kind_of (KStatefulSet s) = ''StatefulSet''"
| "kind_of (KDaemonSet d) = ''DaemonSet''"
| "kind_of (KCronJob c) = ''CronJob''"
| "kind_of (KJob j) = ''Job''"
| "kind_of (KHPA h) = ''HorizontalPodAutoscaler''"

type_synonym obj_key = "string \<times> string \<times> string"

definition key_of :: "kobj \<Rightarrow> obj_key" where
  "key_of x = (kind_of x, om_Namespace (meta_of x), om_Name (meta_of x))"

text \<open>\<open>resourceVersion\<close> is kept where the operator's writes depend on it.\<close>

record secret =
  sec_Name :: string
  sec_Namespace :: string
  sec_Labels :: "string gomap"
  sec_Data :: "string gomap"
  sec_Version :: nat

record config_map =
  cm_Name :: string
  cm_Namespace :: string
  cm_Labels :: "string gomap"
  cm_Owner :: "string option"
  cm_Data :: "string gomap"
  cm_Version :: nat

section \<open>State and programs\<close>

text \<open>
  A reconcile pass changes the API's world and leaves a trace: the Events it emits (the object
  they are about, type, reason, message), the lines of the audit log, and the metrics.
\<close>

record event =
  ev_Object :: "string \<times> string \<times> string"
  ev_Type :: string
  ev_Reason :: string
  ev_Message :: string

record audit_line =
  al_Action :: string
  al_Who :: string
  al_Why :: string
  al_When :: string
  al_ObjectRef :: string
  al_SleepSchedule :: string

type_synonym series = "((string \<times> string) \<times> (nat \<times> nat)) list"

record metrics =
  mt_targetsAsleep :: series
  mt_targetsAwake :: series
  mt_activeWakes :: series
  mt_overrideSecondsRemaining :: series
  mt_restoreFailures :: series

record 'w state =
  st_api :: 'w
  st_events :: "event list"
  st_audit :: "audit_line list"
  st_metrics :: metrics

type_synonym ('w, 'a) prog = "'w state \<Rightarrow> (go_error + 'a) \<times> 'w state"

definition return_p :: "'a \<Rightarrow> ('w, 'a) prog" where
  "return_p x s = (Inr x, s)"

definition throw_p :: "go_error \<Rightarrow> ('w, 'a) prog" where
  "throw_p e s = (Inl e, s)"

text \<open>\<open>if err != nil { return err }\<close> after a call is \<open>bind_p\<close>; code that looks at the error uses
  \<open>try_p\<close>.\<close>

definition bind_p :: "('w, 'a) prog \<Rightarrow> ('a \<Rightarrow> ('w, 'b) prog) \<Rightarrow> ('w, 'b) prog" where
  "bind_p m f s = (case m s of (Inl e, s') \<Rightarrow> (Inl e, s') | (Inr x, s') \<Rightarrow> f x s')"

definition try_p :: "('w, 'a) prog \<Rightarrow> (go_error + 'a \<Rightarrow> ('w, 'b) prog) \<Rightarrow> ('w, 'b) prog" where
  "try_p m f s = (case m s of (r, s') \<Rightarrow> f r s')"

definition when_p :: "bool \<Rightarrow> ('w, unit) prog \<Rightarrow> ('w, unit) prog" where
  "when_p b m = (if b then m else return_p ())"

definition call :: "('w \<Rightarrow> (api_error + 'a) \<times> 'w) \<Rightarrow> ('w, 'a) prog" where
  "call f s = (case f (st_api s) of
     (Inl e, w) \<Rightarrow> (Inl (ApiError e), s\<lparr>st_api := w\<rparr>)
   | (Inr x, w) \<Rightarrow> (Inr x, s\<lparr>st_api := w\<rparr>))"

lemmas prog_defs = return_p_def throw_p_def bind_p_def try_p_def when_p_def call_def
declare prog_defs [prog_simps]

definition isNotFound :: "go_error \<Rightarrow> bool" where "isNotFound e \<longleftrightarrow> e = ApiError NotFound"
definition isConflict :: "go_error \<Rightarrow> bool" where "isConflict e \<longleftrightarrow> e = ApiError Conflict"
definition isAlreadyExists :: "go_error \<Rightarrow> bool" where
  "isAlreadyExists e \<longleftrightarrow> e = ApiError AlreadyExists"

text \<open>\<open>client.IgnoreNotFound\<close> of the error of a call that returns nothing.\<close>

definition ignoreNotFound :: "('w, unit) prog \<Rightarrow> ('w, unit) prog" where
  "ignoreNotFound m = try_p m (\<lambda>r. case r of
     Inl e \<Rightarrow> if isNotFound e then return_p () else throw_p e | Inr _ \<Rightarrow> return_p ())"

section \<open>The client\<close>

type_synonym selector = "string gomap \<Rightarrow> bool"

datatype list_opt = InNamespace string | MatchingLabelsSelector selector

record 'w kube =
  k_get_schedule :: "string \<Rightarrow> string \<Rightarrow> 'w \<Rightarrow> (api_error + sleep_schedule) \<times> 'w"
  k_update_status :: "sleep_schedule \<Rightarrow> 'w \<Rightarrow> (api_error + unit) \<times> 'w"
  k_get_secret :: "string \<Rightarrow> string \<Rightarrow> 'w \<Rightarrow> (api_error + secret) \<times> 'w"
  k_create_secret :: "secret \<Rightarrow> 'w \<Rightarrow> (api_error + unit) \<times> 'w"
  k_update_secret :: "secret \<Rightarrow> 'w \<Rightarrow> (api_error + unit) \<times> 'w"
  k_delete_secret :: "secret \<Rightarrow> 'w \<Rightarrow> (api_error + unit) \<times> 'w"
  k_get_cm :: "string \<Rightarrow> string \<Rightarrow> 'w \<Rightarrow> (api_error + config_map) \<times> 'w"
  k_create_cm :: "config_map \<Rightarrow> 'w \<Rightarrow> (api_error + unit) \<times> 'w"
  k_update_cm :: "config_map \<Rightarrow> 'w \<Rightarrow> (api_error + unit) \<times> 'w"
  k_get_deployment :: "string \<Rightarrow> string \<Rightarrow> 'w \<Rightarrow> (api_error + deployment) \<times> 'w"
  k_get_stateful_set :: "string \<Rightarrow> string \<Rightarrow> 'w \<Rightarrow> (api_error + stateful_set) \<times> 'w"
  k_get_daemon_set :: "string \<Rightarrow> string \<Rightarrow> 'w \<Rightarrow> (api_error + daemon_set) \<times> 'w"
  k_get_cron_job :: "string \<Rightarrow> string \<Rightarrow> 'w \<Rightarrow> (api_error + cron_job) \<times> 'w"
  k_get_job :: "string \<Rightarrow> string \<Rightarrow> 'w \<Rightarrow> (api_error + job) \<times> 'w"
  k_get_hpa :: "string \<Rightarrow> string \<Rightarrow> 'w \<Rightarrow> (api_error + hpa) \<times> 'w"
  k_list :: "string \<Rightarrow> list_opt \<Rightarrow> 'w \<Rightarrow> (api_error + object_meta list) \<times> 'w"
  k_patch :: "kobj \<Rightarrow> kobj \<Rightarrow> 'w \<Rightarrow> (api_error + unit) \<times> 'w"
  k_set_controller_reference :: "sleep_schedule \<Rightarrow> config_map \<Rightarrow> go_error + config_map"
  k_as_selector :: "label_selector option \<Rightarrow> string + selector"
  k_retry :: "(go_error \<Rightarrow> bool) \<Rightarrow> ('w, unit) prog \<Rightarrow> ('w, unit) prog"
  k_now :: "'w \<Rightarrow> instant"
  k_LoadLocation :: "string \<Rightarrow> location option"

text \<open>\<open>k_list\<close> takes the kind of the list type and returns the metadata of its items; \<open>k_patch
  orig new\<close> is \<open>c.Patch(ctx, new, client.MergeFrom(orig))\<close>; \<open>k_retry\<close> is
  \<open>retry.OnError(retry.DefaultRetry, \<dots>)\<close>.\<close>

end
