(* ===== verification/Kube_Cluster.thy ===== *)
theory Kube_Cluster
  imports Kube_Api
begin

text \<open>
  What the operator relies on when it calls the Kubernetes API. The objects behind the API are a
  \<^theory_text>\<open>cluster\<close>; \<^theory_text>\<open>kube_laws\<close> says that a call that answers with an error changes nothing and that
  a call that succeeds has its documented effect. \<^theory_text>\<open>kube_healthy\<close> adds that calls do succeed when
  their preconditions hold. The weakest-precondition rules of the programs over such a client and
  an in-memory client that satisfies the laws complete the theory.
\<close>

section \<open>The cluster\<close>

record cluster =
  cl_schedule :: "string \<times> string \<rightharpoonup> sleep_schedule"
  cl_secret :: "string \<times> string \<rightharpoonup> secret"
  cl_cm :: "string \<times> string \<rightharpoonup> config_map"
  cl_obj :: "obj_key \<rightharpoonup> kobj"

definition find_schedule :: "cluster \<Rightarrow> string \<Rightarrow> string \<Rightarrow> sleep_schedule option" where "find_schedule cl ns n = cl_schedule cl (ns, n)"
definition find_secret :: "cluster \<Rightarrow> string \<Rightarrow> string \<Rightarrow> secret option" where "find_secret cl ns n = cl_secret cl (ns, n)"
definition find_cm :: "cluster \<Rightarrow> string \<Rightarrow> string \<Rightarrow> config_map option" where "find_cm cl ns n = cl_cm cl (ns, n)"

definition find_deployment :: "cluster \<Rightarrow> string \<Rightarrow> string \<Rightarrow> deployment option" where
  "find_deployment cl ns n =
     (case cl_obj cl (''Deployment'', ns, n) of Some (KDeployment d) \<Rightarrow> Some d | _ \<Rightarrow> None)"
definition find_stateful_set :: "cluster \<Rightarrow> string \<Rightarrow> string \<Rightarrow> stateful_set option" where
  "find_stateful_set cl ns n =
     (case cl_obj cl (''StatefulSet'', ns, n) of Some (KStatefulSet d) \<Rightarrow> Some d | _ \<Rightarrow> None)"
definition find_daemon_set :: "cluster \<Rightarrow> string \<Rightarrow> string \<Rightarrow> daemon_set option" where
  "find_daemon_set cl ns n =
     (case cl_obj cl (''DaemonSet'', ns, n) of Some (KDaemonSet d) \<Rightarrow> Some d | _ \<Rightarrow> None)"
definition find_cron_job :: "cluster \<Rightarrow> string \<Rightarrow> string \<Rightarrow> cron_job option" where
  "find_cron_job cl ns n =
     (case cl_obj cl (''CronJob'', ns, n) of Some (KCronJob d) \<Rightarrow> Some d | _ \<Rightarrow> None)"
definition find_job :: "cluster \<Rightarrow> string \<Rightarrow> string \<Rightarrow> job option" where
  "find_job cl ns n =
     (case cl_obj cl (''Job'', ns, n) of Some (KJob d) \<Rightarrow> Some d | _ \<Rightarrow> None)"
definition find_hpa :: "cluster \<Rightarrow> string \<Rightarrow> string \<Rightarrow> hpa option" where
  "find_hpa cl ns n =
     (case cl_obj cl (''HorizontalPodAutoscaler'', ns, n) of Some (KHPA d) \<Rightarrow> Some d | _ \<Rightarrow> None)"

definition put_secret :: "secret \<Rightarrow> cluster \<Rightarrow> cluster" where
  "put_secret s cl = cl\<lparr>cl_secret := (cl_secret cl)((sec_Namespace s, sec_Name s) \<mapsto> s)\<rparr>"

definition put_cm :: "config_map \<Rightarrow> cluster \<Rightarrow> cluster" where
  "put_cm s cl = cl\<lparr>cl_cm := (cl_cm cl)((cm_Namespace s, cm_Name s) \<mapsto> s)\<rparr>"

definition put_obj :: "kobj \<Rightarrow> cluster \<Rightarrow> cluster" where
  "put_obj x cl = cl\<lparr>cl_obj := (cl_obj cl)(key_of x \<mapsto> x)\<rparr>"

text \<open>An object as it is stored: an empty node selector is omitted from its JSON.\<close>

fun stored :: "kobj \<Rightarrow> kobj" where
  "stored (KDaemonSet d) =
     KDaemonSet (if ds_NodeSelector d = Some [] then d\<lparr>ds_NodeSelector := None\<rparr> else d)"
| "stored x = x"

fun opt_matches :: "list_opt \<Rightarrow> object_meta \<Rightarrow> bool" where
  "opt_matches (InNamespace ns) m = (om_Namespace m = ns)"
| "opt_matches (MatchingLabelsSelector sel) m = sel (om_Labels m)"

section \<open>Laws\<close>

definition get_law ::
  "('w \<Rightarrow> cluster) \<Rightarrow> (cluster \<Rightarrow> string \<Rightarrow> string \<Rightarrow> 'o option)
   \<Rightarrow> (string \<Rightarrow> string \<Rightarrow> 'w \<Rightarrow> (api_error + 'o) \<times> 'w) \<Rightarrow> bool"
where
  "get_law content look get \<longleftrightarrow>
     (\<forall>ns n w. content (snd (get ns n w)) = content w
        \<and> (case fst (get ns n w) of
             Inl e \<Rightarrow> e = NotFound \<longrightarrow> look (content w) ns n = None
           | Inr x \<Rightarrow> look (content w) ns n = Some x))"

text \<open>A write: an error leaves the cluster alone, a success takes it where \<open>effect\<close> allows.\<close>

definition write_law ::
  "('w \<Rightarrow> cluster) \<Rightarrow> (cluster \<Rightarrow> cluster \<Rightarrow> bool) \<Rightarrow> ('w \<Rightarrow> (api_error + unit) \<times> 'w) \<Rightarrow> bool"
where
  "write_law content effect op \<longleftrightarrow>
     (\<forall>w. case fst (op w) of
            Inl e \<Rightarrow> content (snd (op w)) = content w
          | Inr _ \<Rightarrow> effect (content w) (content (snd (op w))))"

definition create_secret_effect :: "secret \<Rightarrow> cluster \<Rightarrow> cluster \<Rightarrow> bool" where
  "create_secret_effect s cl cl' \<longleftrightarrow>
     find_secret cl (sec_Namespace s) (sec_Name s) = None
     \<and> (\<exists>v. cl' = put_secret (s\<lparr>sec_Version := v\<rparr>) cl)"

definition update_secret_effect :: "secret \<Rightarrow> cluster \<Rightarrow> cluster \<Rightarrow> bool" where
  "update_secret_effect s cl cl' \<longleftrightarrow>
     (\<exists>t. find_secret cl (sec_Namespace s) (sec_Name s) = Some t \<and> sec_Version t = sec_Version s)
     \<and> (\<exists>v. cl' = put_secret (s\<lparr>sec_Version := v\<rparr>) cl)"

definition delete_secret_effect :: "secret \<Rightarrow> cluster \<Rightarrow> cluster \<Rightarrow> bool" where
  "delete_secret_effect s cl cl' \<longleftrightarrow>
     cl' = cl\<lparr>cl_secret := (cl_secret cl)((sec_Namespace s, sec_Name s) := None)\<rparr>"

definition create_cm_effect :: "config_map \<Rightarrow> cluster \<Rightarrow> cluster \<Rightarrow> bool" where
  "create_cm_effect s cl cl' \<longleftrightarrow>
     find_cm cl (cm_Namespace s) (cm_Name s) = None \<and> (\<exists>v. cl' = put_cm (s\<lparr>cm_Version := v\<rparr>) cl)"

definition update_cm_effect :: "config_map \<Rightarrow> cluster \<Rightarrow> cluster \<Rightarrow> bool" where
  "update_cm_effect s cl cl' \<longleftrightarrow>
     (\<exists>t. find_cm cl (cm_Namespace s) (cm_Name s) = Some t \<and> cm_Version t = cm_Version s)
     \<and> (\<exists>v. cl' = put_cm (s\<lparr>cm_Version := v\<rparr>) cl)"

definition update_status_effect :: "sleep_schedule \<Rightarrow> cluster \<Rightarrow> cluster \<Rightarrow> bool" where
  "update_status_effect ss cl cl' \<longleftrightarrow>
     (\<exists>t. find_schedule cl (ss_Namespace ss) (ss_Name ss) = Some t
        \<and> cl' = cl\<lparr>cl_schedule := (cl_schedule cl)
              ((ss_Namespace ss, ss_Name ss) \<mapsto> t\<lparr>ss_Status := ss_Status ss\<rparr>)\<rparr>)"

text \<open>A merge patch against the stored object gives the new one, up to its stored form.\<close>

definition patch_effect :: "kobj \<Rightarrow> kobj \<Rightarrow> cluster \<Rightarrow> cluster \<Rightarrow> bool" where
  "patch_effect orig new cl cl' \<longleftrightarrow>
     cl_obj cl (key_of orig) = Some orig \<longrightarrow> cl' = put_obj (stored new) cl"

definition list_law ::
  "('w \<Rightarrow> cluster) \<Rightarrow> (string \<Rightarrow> list_opt \<Rightarrow> 'w \<Rightarrow> (api_error + object_meta list) \<times> 'w) \<Rightarrow> bool"
where
  "list_law content lst \<longleftrightarrow>
     (\<forall>kind opt w. content (snd (lst kind opt w)) = content w
        \<and> (case fst (lst kind opt w) of
             Inl e \<Rightarrow> True
           | Inr ms \<Rightarrow> \<forall>m. m \<in> set ms \<longleftrightarrow>
               (\<exists>x ns n. cl_obj (content w) (kind, ns, n) = Some x \<and> m = meta_of x \<and> opt_matches opt m)))"

text \<open>\<open>retry.OnError\<close>: the function runs again while it fails with a retriable error.\<close>

fun retry_times :: "nat \<Rightarrow> (go_error \<Rightarrow> bool) \<Rightarrow> ('w, unit) prog \<Rightarrow> ('w, unit) prog" where
  "retry_times 0 retriable f s = f s"
| "retry_times (Suc n) retriable f s =
     (case f s of
        (Inl e, s') \<Rightarrow> if retriable e then retry_times n retriable f s' else (Inl e, s')
      | (Inr u, s') \<Rightarrow> (Inr u, s'))"

definition retry_law :: "'w kube \<Rightarrow> bool" where
  "retry_law c \<longleftrightarrow> (\<forall>retriable f s. \<exists>n. k_retry c retriable f s = retry_times n retriable f s)"

text \<open>\<open>NotFound\<close> from a delete says that there was no such Secret.\<close>

definition not_found_law :: "('w \<Rightarrow> cluster) \<Rightarrow> 'w kube \<Rightarrow> bool" where
  "not_found_law content c \<longleftrightarrow>
     (\<forall>s w. fst (k_delete_secret c s w) = Inl NotFound \<longrightarrow>
        find_secret (content w) (sec_Namespace s) (sec_Name s) = None)"

text \<open>Every stored object sits under its own key, in its stored form.\<close>

definition cluster_wf :: "cluster \<Rightarrow> bool" where
  "cluster_wf cl \<longleftrightarrow>
     (\<forall>k x. cl_obj cl k = Some x \<longrightarrow> key_of x = k \<and> stored x = x)
     \<and> (\<forall>ns n s. cl_secret cl (ns, n) = Some s \<longrightarrow> sec_Namespace s = ns \<and> sec_Name s = n)
     \<and> (\<forall>ns n s. cl_cm cl (ns, n) = Some s \<longrightarrow> cm_Namespace s = ns \<and> cm_Name s = n)
     \<and> (\<forall>ns n s. cl_schedule cl (ns, n) = Some s \<longrightarrow> ss_Namespace s = ns \<and> ss_Name s = n)"

definition kube_laws :: "'w kube \<Rightarrow> ('w \<Rightarrow> cluster) \<Rightarrow> bool" where
  "kube_laws c content \<longleftrightarrow>
     get_law content find_schedule (k_get_schedule c)
     \<and> (\<forall>ss. write_law content (update_status_effect ss) (k_update_status c ss))
     \<and> get_law content find_secret (k_get_secret c)
     \<and> (\<forall>s. write_law content (create_secret_effect s) (k_create_secret c s))
     \<and> (\<forall>s. write_law content (update_secret_effect s) (k_update_secret c s))
     \<and> (\<forall>s. write_law content (delete_secret_effect s) (k_delete_secret c s))
     \<and> get_law content find_cm (k_get_cm c)
     \<and> (\<forall>s. write_law content (create_cm_effect s) (k_create_cm c s))
     \<and> (\<forall>s. write_law content (update_cm_effect s) (k_update_cm c s))
     \<and> get_law content find_deployment (k_get_deployment c)
     \<and> get_law content find_stateful_set (k_get_stateful_set c)
     \<and> get_law content find_daemon_set (k_get_daemon_set c)
     \<and> get_law content find_cron_job (k_get_cron_job c)
     \<and> get_law content find_job (k_get_job c)
     \<and> get_law content find_hpa (k_get_hpa c)
     \<and> list_law content (k_list c)
     \<and> (\<forall>orig new. write_law content (patch_effect orig new) (k_patch c orig new))
     \<and> retry_law c
     \<and> (\<forall>w. cluster_wf (content w))
     \<and> not_found_law content c"

section \<open>Weakest preconditions\<close>

definition wp :: "('w, 'a) prog \<Rightarrow> (go_error + 'a \<Rightarrow> 'w state \<Rightarrow> bool) \<Rightarrow> 'w state \<Rightarrow> bool" where
  "wp m Q s \<longleftrightarrow> (case m s of (r, s') \<Rightarrow> Q r s')"

named_theorems wp_simps \<open>weakest preconditions of the program constructs\<close>

lemma wp_return [wp_simps]: "wp (return_p x) Q s = Q (Inr x) s"
  by (simp add: wp_def return_p_def)

lemma wp_throw [wp_simps]: "wp (throw_p e) Q s = Q (Inl e) s"
  by (simp add: wp_def throw_p_def)

lemma wp_bind [wp_simps]:
  "wp (bind_p m f) Q s = wp m (\<lambda>r s'. case r of Inl e \<Rightarrow> Q (Inl e) s' | Inr x \<Rightarrow> wp (f x) Q s') s"
  by (auto simp: wp_def bind_p_def split: prod.splits sum.splits)

lemma wp_try [wp_simps]: "wp (try_p m f) Q s = wp m (\<lambda>r. wp (f r) Q) s"
  by (auto simp: wp_def try_p_def split: prod.splits)

lemma wp_when [wp_simps]: "wp (when_p b m) Q s = (if b then wp m Q s else Q (Inr ()) s)"
  by (simp add: when_p_def wp_return)

lemma wp_if [wp_simps]: "wp (if b then m else n) Q s = (if b then wp m Q s else wp n Q s)"
  by simp

lemma wp_ignoreNotFound [wp_simps]:
  "wp (ignoreNotFound m) Q s =
     wp m (\<lambda>r. Q (case r of Inl e \<Rightarrow> if isNotFound e then Inr () else Inl e | Inr u \<Rightarrow> Inr u)) s"
  unfolding ignoreNotFound_def wp_try
  by (auto simp: wp_def return_p_def throw_p_def split: prod.splits sum.splits)

lemma wp_mono: "wp m Q s \<Longrightarrow> (\<And>r s'. Q r s' \<Longrightarrow> R r s') \<Longrightarrow> wp m R s"
  by (auto simp: wp_def split: prod.splits)

lemma wpD: "wp m Q s \<Longrightarrow> m s = (r, s') \<Longrightarrow> Q r s'"
  by (simp add: wp_def)

text \<open>Two states with the same cluster and the same trace.\<close>

definition same_view :: "('w \<Rightarrow> cluster) \<Rightarrow> 'w state \<Rightarrow> 'w state \<Rightarrow> bool" where
  "same_view content s s' \<longleftrightarrow>
     content (st_api s') = content (st_api s) \<and> st_events s' = st_events s
     \<and> st_audit s' = st_audit s \<and> st_metrics s' = st_metrics s"

lemma wp_call_get:
  assumes "get_law content look get"
    and "\<And>e s'. same_view content s s' \<Longrightarrow>
      (e = NotFound \<Longrightarrow> look (content (st_api s)) ns n = None) \<Longrightarrow> Q (Inl (ApiError e)) s'"
    and "\<And>x s'. same_view content s s' \<Longrightarrow> look (content (st_api s)) ns n = Some x \<Longrightarrow> Q (Inr x) s'"
  shows "wp (call (get ns n)) Q s"
proof -
  obtain r w where g: "get ns n (st_api s) = (r, w)" by fastforce
  have l: "content w = content (st_api s)"
    "case r of Inl e \<Rightarrow> e = NotFound \<longrightarrow> look (content (st_api s)) ns n = None
       | Inr x \<Rightarrow> look (content (st_api s)) ns n = Some x"
    using assms(1) g unfolding get_law_def by (metis fst_conv snd_conv)+
  then have "same_view content s (s\<lparr>st_api := w\<rparr>)" by (simp add: same_view_def)
  with assms(2,3) l(2) g show ?thesis
    by (cases r) (auto simp: wp_def call_def)
qed

lemma wp_call_write:
  assumes "write_law content effect op"
    and "\<And>e s'. same_view content s s' \<Longrightarrow> Q (Inl (ApiError e)) s'"
    and "\<And>s'. effect (content (st_api s)) (content (st_api s')) \<Longrightarrow> st_events s' = st_events s \<Longrightarrow>
      st_audit s' = st_audit s \<Longrightarrow> st_metrics s' = st_metrics s \<Longrightarrow> Q (Inr ()) s'"
  shows "wp (call op) Q s"
proof -
  obtain r w where g: "op (st_api s) = (r, w)" by fastforce
  have "case r of Inl e \<Rightarrow> content w = content (st_api s) | Inr _ \<Rightarrow> effect (content (st_api s)) (content w)"
    using assms(1) g unfolding write_law_def by (metis fst_conv snd_conv)
  with assms(2) [of "s\<lparr>st_api := w\<rparr>"] assms(3) [of "s\<lparr>st_api := w\<rparr>"] g show ?thesis
    by (cases r) (auto simp: wp_def call_def same_view_def)
qed

lemma wp_call_list:
  assumes "list_law content lst"
    and "\<And>e s'. same_view content s s' \<Longrightarrow> Q (Inl (ApiError e)) s'"
    and "\<And>ms s'. same_view content s s' \<Longrightarrow>
      (\<And>m. m \<in> set ms \<longleftrightarrow> (\<exists>x ns n. cl_obj (content (st_api s)) (kind, ns, n) = Some x
          \<and> m = meta_of x \<and> opt_matches opt m)) \<Longrightarrow> Q (Inr ms) s'"
  shows "wp (call (lst kind opt)) Q s"
proof -
  obtain r w where g: "lst kind opt (st_api s) = (r, w)" by fastforce
  have l: "content w = content (st_api s)"
    "case r of Inl e \<Rightarrow> True
           | Inr ms \<Rightarrow> \<forall>m. m \<in> set ms \<longleftrightarrow>
               (\<exists>x ns n. cl_obj (content (st_api s)) (kind, ns, n) = Some x \<and> m = meta_of x
                  \<and> opt_matches opt m)"
    using assms(1) [unfolded list_law_def, rule_format, of kind opt "st_api s"] unfolding g
    by simp_all
  then have "same_view content s (s\<lparr>st_api := w\<rparr>)" by (simp add: same_view_def)
  with assms(2,3) l(2) g show ?thesis
    by (cases r) (auto simp: wp_def call_def)
qed

text \<open>A retried program keeps an invariant that every run of it keeps.\<close>

lemma wp_retry:
  assumes "retry_law c"
    and "\<And>s. I s \<Longrightarrow> wp f (\<lambda>r s'. (case r of Inl e \<Rightarrow> I s' \<and> Q (Inl e) s' | Inr u \<Rightarrow> Q (Inr ()) s')) s"
    and "I s"
  shows "wp (k_retry c retriable f) Q s"
proof -
  have "wp (retry_times n retriable f) Q s" if "I s" for n s
    using that
  proof (induction n arbitrary: s)
    case 0
    show ?case
      using assms(2) [OF 0] by (auto simp: wp_def split: prod.splits sum.splits)
  next
    case (Suc n)
    show ?case
      using assms(2) [OF Suc.prems] Suc.IH
      by (fastforce simp: wp_def split: prod.splits sum.splits)
  qed
  with assms(1,3) show ?thesis unfolding retry_law_def wp_def by metis
qed

lemma kube_lawsD:
  assumes "kube_laws c content"
  shows "get_law content find_schedule (k_get_schedule c)"
    and "write_law content (update_status_effect ss) (k_update_status c ss)"
    and "get_law content find_secret (k_get_secret c)"
    and "write_law content (create_secret_effect sc) (k_create_secret c sc)"
    and "write_law content (update_secret_effect sc) (k_update_secret c sc)"
    and "write_law content (delete_secret_effect sc) (k_delete_secret c sc)"
    and "get_law content find_cm (k_get_cm c)"
    and "write_law content (create_cm_effect cm) (k_create_cm c cm)"
    and "write_law content (update_cm_effect cm) (k_update_cm c cm)"
    and "get_law content find_deployment (k_get_deployment c)"
    and "get_law content find_stateful_set (k_get_stateful_set c)"
    and "get_law content find_daemon_set (k_get_daemon_set c)"
    and "get_law content find_cron_job (k_get_cron_job c)"
    and "get_law content find_job (k_get_job c)"
    and "get_law content find_hpa (k_get_hpa c)"
    and "list_law content (k_list c)"
    and "write_law content (patch_effect orig new) (k_patch c orig new)"
    and "retry_law c"
    and "cluster_wf (content w)"
    and "not_found_law content c"
  using assms unfolding kube_laws_def by blast+

lemmas wp_get_schedule = wp_call_get [OF kube_lawsD(1)]
lemmas wp_update_status = wp_call_write [OF kube_lawsD(2)]
lemmas wp_get_secret = wp_call_get [OF kube_lawsD(3)]
lemmas wp_create_secret = wp_call_write [OF kube_lawsD(4)]
lemmas wp_update_secret = wp_call_write [OF kube_lawsD(5)]

lemma wp_delete_secret:
  assumes laws: "kube_laws c content"
    and "\<And>e s'. same_view content s s' \<Longrightarrow>
      (e = NotFound \<Longrightarrow> find_secret (content (st_api s)) (sec_Namespace sc) (sec_Name sc) = None) \<Longrightarrow>
      Q (Inl (ApiError e)) s'"
    and "\<And>s'. delete_secret_effect sc (content (st_api s)) (content (st_api s')) \<Longrightarrow>
      st_events s' = st_events s \<Longrightarrow> st_audit s' = st_audit s \<Longrightarrow> st_metrics s' = st_metrics s \<Longrightarrow>
      Q (Inr ()) s'"
  shows "wp (call (k_delete_secret c sc)) Q s"
proof -
  obtain r w where g: "k_delete_secret c sc (st_api s) = (r, w)" by fastforce
  have "case r of Inl e \<Rightarrow> content w = content (st_api s)
      | Inr _ \<Rightarrow> delete_secret_effect sc (content (st_api s)) (content w)"
    using kube_lawsD(6) [OF laws, of sc] g unfolding write_law_def by (metis fst_conv snd_conv)
  moreover have "r = Inl NotFound \<Longrightarrow> find_secret (content (st_api s)) (sec_Namespace sc) (sec_Name sc) = None"
    using kube_lawsD(20) [OF laws] g unfolding not_found_law_def by (metis fst_conv)
  ultimately show ?thesis
    using assms(2) [of "s\<lparr>st_api := w\<rparr>"] assms(3) [of "s\<lparr>st_api := w\<rparr>"] g
    by (cases r) (auto simp: wp_def call_def same_view_def)
qed

lemmas wp_get_cm = wp_call_get [OF kube_lawsD(7)]
lemmas wp_create_cm = wp_call_write [OF kube_lawsD(8)]
lemmas wp_update_cm = wp_call_write [OF kube_lawsD(9)]
lemmas wp_get_deployment = wp_call_get [OF kube_lawsD(10)]
lemmas wp_get_stateful_set = wp_call_get [OF kube_lawsD(11)]
lemmas wp_get_daemon_set = wp_call_get [OF kube_lawsD(12)]
lemmas wp_get_cron_job = wp_call_get [OF kube_lawsD(13)]
lemmas wp_get_job = wp_call_get [OF kube_lawsD(14)]
lemmas wp_get_hpa = wp_call_get [OF kube_lawsD(15)]
lemmas wp_list = wp_call_list [OF kube_lawsD(16)]
lemmas wp_patch = wp_call_write [OF kube_lawsD(17)]
lemmas wp_k_retry = wp_retry [OF kube_lawsD(18)]

lemma same_view_refl [simp]: "same_view content s s"
  by (simp add: same_view_def)

lemma same_view_trans: "same_view content s t \<Longrightarrow> same_view content t u \<Longrightarrow> same_view content s u"
  by (simp add: same_view_def)

lemma same_viewD:
  assumes "same_view content s s'"
  shows "content (st_api s') = content (st_api s)" and "st_events s' = st_events s"
    and "st_audit s' = st_audit s" and "st_metrics s' = st_metrics s"
  using assms by (simp_all add: same_view_def)

section \<open>A healthy API\<close>

definition get_total ::
  "('w \<Rightarrow> cluster) \<Rightarrow> (cluster \<Rightarrow> string \<Rightarrow> string \<Rightarrow> 'o option)
   \<Rightarrow> (string \<Rightarrow> string \<Rightarrow> 'w \<Rightarrow> (api_error + 'o) \<times> 'w) \<Rightarrow> bool"
where
  "get_total content look get \<longleftrightarrow>
     (\<forall>ns n w. fst (get ns n w) =
        (case look (content w) ns n of None \<Rightarrow> Inl NotFound | Some x \<Rightarrow> Inr x))"

definition write_total ::
  "('w \<Rightarrow> cluster) \<Rightarrow> (cluster \<Rightarrow> bool) \<Rightarrow> ('w \<Rightarrow> (api_error + unit) \<times> 'w) \<Rightarrow> bool"
where
  "write_total content ready op \<longleftrightarrow> (\<forall>w. ready (content w) \<longrightarrow> fst (op w) = Inr ())"

definition kube_healthy :: "'w kube \<Rightarrow> ('w \<Rightarrow> cluster) \<Rightarrow> bool" where
  "kube_healthy c content \<longleftrightarrow>
     get_total content find_schedule (k_get_schedule c)
     \<and> (\<forall>ss. write_total content (\<lambda>cl. find_schedule cl (ss_Namespace ss) (ss_Name ss) \<noteq> None)
          (k_update_status c ss))
     \<and> get_total content find_secret (k_get_secret c)
     \<and> (\<forall>s. write_total content (\<lambda>cl. find_secret cl (sec_Namespace s) (sec_Name s) = None)
          (k_create_secret c s))
     \<and> (\<forall>s. write_total content (\<lambda>cl. \<exists>t. find_secret cl (sec_Namespace s) (sec_Name s) = Some t
            \<and> sec_Version t = sec_Version s) (k_update_secret c s))
     \<and> (\<forall>s. write_total content (\<lambda>cl. find_secret cl (sec_Namespace s) (sec_Name s) \<noteq> None)
          (k_delete_secret c s))
     \<and> get_total content find_cm (k_get_cm c)
     \<and> (\<forall>s. write_total content (\<lambda>cl. find_cm cl (cm_Namespace s) (cm_Name s) = None)
          (k_create_cm c s))
     \<and> (\<forall>s. write_total content (\<lambda>cl. \<exists>t. find_cm cl (cm_Namespace s) (cm_Name s) = Some t
            \<and> cm_Version t = cm_Version s) (k_update_cm c s))
     \<and> get_total content find_deployment (k_get_deployment c)
     \<and> get_total content find_stateful_set (k_get_stateful_set c)
     \<and> get_total content find_daemon_set (k_get_daemon_set c)
     \<and> get_total content find_cron_job (k_get_cron_job c)
     \<and> get_total content find_job (k_get_job c)
     \<and> get_total content find_hpa (k_get_hpa c)
     \<and> (\<forall>kind opt w. \<exists>ms. fst (k_list c kind opt w) = Inr ms)
     \<and> (\<forall>orig new. write_total content (\<lambda>cl. cl_obj cl (key_of orig) = Some orig)
          (k_patch c orig new))"

lemma kube_healthyD:
  assumes "kube_healthy c content"
  shows "get_total content find_schedule (k_get_schedule c)"
    and "write_total content (\<lambda>cl. find_schedule cl (ss_Namespace ss) (ss_Name ss) \<noteq> None)
          (k_update_status c ss)"
    and "get_total content find_secret (k_get_secret c)"
    and "write_total content (\<lambda>cl. find_secret cl (sec_Namespace sc) (sec_Name sc) = None)
          (k_create_secret c sc)"
    and "write_total content (\<lambda>cl. \<exists>t. find_secret cl (sec_Namespace sc) (sec_Name sc) = Some t
            \<and> sec_Version t = sec_Version sc) (k_update_secret c sc)"
    and "write_total content (\<lambda>cl. find_secret cl (sec_Namespace sc) (sec_Name sc) \<noteq> None)
          (k_delete_secret c sc)"
    and "get_total content find_cm (k_get_cm c)"
    and "write_total content (\<lambda>cl. find_cm cl (cm_Namespace cm) (cm_Name cm) = None)
          (k_create_cm c cm)"
    and "write_total content (\<lambda>cl. \<exists>t. find_cm cl (cm_Namespace cm) (cm_Name cm) = Some t
            \<and> cm_Version t = cm_Version cm) (k_update_cm c cm)"
    and "get_total content find_deployment (k_get_deployment c)"
    and "get_total content find_stateful_set (k_get_stateful_set c)"
    and "get_total content find_daemon_set (k_get_daemon_set c)"
    and "get_total content find_cron_job (k_get_cron_job c)"
    and "get_total content find_job (k_get_job c)"
    and "get_total content find_hpa (k_get_hpa c)"
    and "\<exists>ms. fst (k_list c kind opt w) = Inr ms"
    and "write_total content (\<lambda>cl. cl_obj cl (key_of orig) = Some orig) (k_patch c orig new)"
  using assms unfolding kube_healthy_def by blast+

text \<open>With both, a call has one outcome.\<close>

lemma wp_call_get_total:
  assumes "get_law content look get" and "get_total content look get"
    and "\<And>s'. same_view content s s' \<Longrightarrow> look (content (st_api s)) ns n = None \<Longrightarrow>
      Q (Inl (ApiError NotFound)) s'"
    and "\<And>x s'. same_view content s s' \<Longrightarrow> look (content (st_api s)) ns n = Some x \<Longrightarrow> Q (Inr x) s'"
  shows "wp (call (get ns n)) Q s"
proof -
  obtain r w where g: "get ns n (st_api s) = (r, w)" by fastforce
  have l: "content w = content (st_api s)"
    using assms(1) g unfolding get_law_def by (metis snd_conv)
  have r: "r = (case look (content (st_api s)) ns n of None \<Rightarrow> Inl NotFound | Some x \<Rightarrow> Inr x)"
    using assms(2) g unfolding get_total_def by (metis fst_conv)
  from l have "same_view content s (s\<lparr>st_api := w\<rparr>)" by (simp add: same_view_def)
  with assms(3,4) g r show ?thesis
    by (auto simp: wp_def call_def split: option.splits)
qed

lemma wp_call_write_total:
  assumes "write_law content effect op" and "write_total content ready op"
    and "ready (content (st_api s))"
    and "\<And>s'. effect (content (st_api s)) (content (st_api s')) \<Longrightarrow> st_events s' = st_events s \<Longrightarrow>
      st_audit s' = st_audit s \<Longrightarrow> st_metrics s' = st_metrics s \<Longrightarrow> Q (Inr ()) s'"
  shows "wp (call op) Q s"
proof -
  obtain r w where g: "op (st_api s) = (r, w)" by fastforce
  have r: "r = Inr ()" using assms(2,3) g unfolding write_total_def by (metis fst_conv)
  then have "effect (content (st_api s)) (content w)"
    using assms(1) g unfolding write_law_def by (metis fst_conv snd_conv old.sum.simps(6))
  with assms(4) [of "s\<lparr>st_api := w\<rparr>"] g r show ?thesis
    by (auto simp: wp_def call_def)
qed

end
