(* ===== verification/Kube_Memory.thy ===== *)
theory Kube_Memory
  imports Kube_Cluster
begin

text \<open>
  An in-memory client: lists of objects, a version counter, a clock, and a script of faults (each
  call takes one entry; \<open>Some msg\<close> makes it fail). It satisfies \<^theory_text>\<open>kube_laws\<close>, and without faults
  \<^theory_text>\<open>kube_healthy\<close>; the theorems about the operator's programs are applied to it.
\<close>

section \<open>The client\<close>

record mem =
  mm_schedules :: "sleep_schedule list"
  mm_secrets :: "secret list"
  mm_cms :: "config_map list"
  mm_objs :: "kobj list"
  mm_version :: nat
  mm_faults :: "string option list"
  mm_clock :: instant

definition obj_at :: "kobj list \<Rightarrow> obj_key \<Rightarrow> kobj option" where
  "obj_at xs k = first_such (\<lambda>x. key_of x = k) (map stored xs)"

definition secret_at :: "secret list \<Rightarrow> string \<times> string \<Rightarrow> secret option" where
  "secret_at xs k = first_such (\<lambda>s. (sec_Namespace s, sec_Name s) = k) xs"

definition cm_at :: "config_map list \<Rightarrow> string \<times> string \<Rightarrow> config_map option" where
  "cm_at xs k = first_such (\<lambda>s. (cm_Namespace s, cm_Name s) = k) xs"

definition schedule_at :: "sleep_schedule list \<Rightarrow> string \<times> string \<Rightarrow> sleep_schedule option" where
  "schedule_at xs k = first_such (\<lambda>s. (ss_Namespace s, ss_Name s) = k) xs"

definition mem_content :: "mem \<Rightarrow> cluster" where
  "mem_content m = \<lparr>cl_schedule = schedule_at (mm_schedules m), cl_secret = secret_at (mm_secrets m),
     cl_cm = cm_at (mm_cms m), cl_obj = obj_at (mm_objs m)\<rparr>"

definition mem_call :: "(mem \<Rightarrow> (api_error + 'a) \<times> mem) \<Rightarrow> mem \<Rightarrow> (api_error + 'a) \<times> mem" where
  "mem_call f m =
     (case mm_faults m of
        [] \<Rightarrow> f m
      | None # fs \<Rightarrow> f (m\<lparr>mm_faults := fs\<rparr>)
      | Some e # fs \<Rightarrow> (Inl (OtherAPIError e), m\<lparr>mm_faults := fs\<rparr>))"

definition mem_get ::
  "(cluster \<Rightarrow> string \<Rightarrow> string \<Rightarrow> 'o option) \<Rightarrow> string \<Rightarrow> string \<Rightarrow> mem \<Rightarrow> (api_error + 'o) \<times> mem"
where
  "mem_get look ns n = mem_call (\<lambda>m.
     (case look (mem_content m) ns n of None \<Rightarrow> Inl NotFound | Some x \<Rightarrow> Inr x, m))"

definition mem_put_secret :: "secret \<Rightarrow> mem \<Rightarrow> mem" where
  "mem_put_secret s m = m\<lparr>mm_secrets := s\<lparr>sec_Version := Suc (mm_version m)\<rparr> # mm_secrets m,
     mm_version := Suc (mm_version m)\<rparr>"

definition mem_put_cm :: "config_map \<Rightarrow> mem \<Rightarrow> mem" where
  "mem_put_cm s m = m\<lparr>mm_cms := s\<lparr>cm_Version := Suc (mm_version m)\<rparr> # mm_cms m,
     mm_version := Suc (mm_version m)\<rparr>"

definition mem_create_secret :: "secret \<Rightarrow> mem \<Rightarrow> (api_error + unit) \<times> mem" where
  "mem_create_secret s = mem_call (\<lambda>m.
     case find_secret (mem_content m) (sec_Namespace s) (sec_Name s) of
       Some _ \<Rightarrow> (Inl AlreadyExists, m) | None \<Rightarrow> (Inr (), mem_put_secret s m))"

definition mem_update_secret :: "secret \<Rightarrow> mem \<Rightarrow> (api_error + unit) \<times> mem" where
  "mem_update_secret s = mem_call (\<lambda>m.
     case find_secret (mem_content m) (sec_Namespace s) (sec_Name s) of
       None \<Rightarrow> (Inl NotFound, m)
     | Some t \<Rightarrow> if sec_Version t = sec_Version s then (Inr (), mem_put_secret s m)
                else (Inl Conflict, m))"

definition mem_delete_secret :: "secret \<Rightarrow> mem \<Rightarrow> (api_error + unit) \<times> mem" where
  "mem_delete_secret s = mem_call (\<lambda>m.
     case find_secret (mem_content m) (sec_Namespace s) (sec_Name s) of
       None \<Rightarrow> (Inl NotFound, m)
     | Some t \<Rightarrow> (Inr (), m\<lparr>mm_secrets := filter
         (\<lambda>t. (sec_Namespace t, sec_Name t) \<noteq> (sec_Namespace s, sec_Name s)) (mm_secrets m)\<rparr>))"

definition mem_create_cm :: "config_map \<Rightarrow> mem \<Rightarrow> (api_error + unit) \<times> mem" where
  "mem_create_cm s = mem_call (\<lambda>m.
     case find_cm (mem_content m) (cm_Namespace s) (cm_Name s) of
       Some _ \<Rightarrow> (Inl AlreadyExists, m) | None \<Rightarrow> (Inr (), mem_put_cm s m))"

definition mem_update_cm :: "config_map \<Rightarrow> mem \<Rightarrow> (api_error + unit) \<times> mem" where
  "mem_update_cm s = mem_call (\<lambda>m.
     case find_cm (mem_content m) (cm_Namespace s) (cm_Name s) of
       None \<Rightarrow> (Inl NotFound, m)
     | Some t \<Rightarrow> if cm_Version t = cm_Version s then (Inr (), mem_put_cm s m)
                else (Inl Conflict, m))"

definition mem_update_status :: "sleep_schedule \<Rightarrow> mem \<Rightarrow> (api_error + unit) \<times> mem" where
  "mem_update_status ss = mem_call (\<lambda>m.
     case find_schedule (mem_content m) (ss_Namespace ss) (ss_Name ss) of
       None \<Rightarrow> (Inl NotFound, m)
     | Some t \<Rightarrow> (Inr (), m\<lparr>mm_schedules := t\<lparr>ss_Status := ss_Status ss\<rparr> # mm_schedules m\<rparr>))"

definition mem_patch :: "kobj \<Rightarrow> kobj \<Rightarrow> mem \<Rightarrow> (api_error + unit) \<times> mem" where
  "mem_patch orig new = mem_call (\<lambda>m.
     case cl_obj (mem_content m) (key_of orig) of
       None \<Rightarrow> (Inl NotFound, m)
     | Some _ \<Rightarrow> (Inr (), m\<lparr>mm_objs := new # mm_objs m\<rparr>))"

definition mem_items :: "string \<Rightarrow> list_opt \<Rightarrow> mem \<Rightarrow> object_meta list" where
  "mem_items kind opt m =
     map meta_of (filter (\<lambda>x. kind_of x = kind \<and> opt_matches opt (meta_of x)
        \<and> obj_at (mm_objs m) (key_of x) = Some x) (map stored (mm_objs m)))"

definition mem_list :: "string \<Rightarrow> list_opt \<Rightarrow> mem \<Rightarrow> (api_error + object_meta list) \<times> mem" where
  "mem_list kind opt = mem_call (\<lambda>m. (Inr (mem_items kind opt m), m))"

fun expr_matches :: "string \<times> string \<times> string list \<Rightarrow> string gomap \<Rightarrow> bool option" where
  "expr_matches (k, op, vs) labels =
     (if op = ''In'' then Some (case map_of labels k of None \<Rightarrow> False | Some v \<Rightarrow> v \<in> set vs)
      else if op = ''NotIn'' then Some (case map_of labels k of None \<Rightarrow> True | Some v \<Rightarrow> v \<notin> set vs)
      else if op = ''Exists'' then Some (map_of labels k \<noteq> None)
      else if op = ''DoesNotExist'' then Some (map_of labels k = None)
      else None)"

definition mem_as_selector :: "label_selector option \<Rightarrow> string + selector" where
  "mem_as_selector sel =
     (case sel of
        None \<Rightarrow> Inr (\<lambda>_. False)
      | Some ls \<Rightarrow>
          if list_all (\<lambda>e. expr_matches e [] \<noteq> None) (ls_MatchExpressions ls)
          then Inr (\<lambda>labels. list_all (\<lambda>(k, v). map_of labels k = Some v) (ls_MatchLabels ls)
                 \<and> list_all (\<lambda>e. expr_matches e labels = Some True) (ls_MatchExpressions ls))
          else Inl ''not a valid label selector operator'')"

definition mem_client :: "mem kube" where
  "mem_client = \<lparr>
     k_get_schedule = mem_get find_schedule, k_update_status = mem_update_status,
     k_get_secret = mem_get find_secret, k_create_secret = mem_create_secret,
     k_update_secret = mem_update_secret, k_delete_secret = mem_delete_secret,
     k_get_cm = mem_get find_cm, k_create_cm = mem_create_cm, k_update_cm = mem_update_cm,
     k_get_deployment = mem_get find_deployment, k_get_stateful_set = mem_get find_stateful_set,
     k_get_daemon_set = mem_get find_daemon_set, k_get_cron_job = mem_get find_cron_job,
     k_get_job = mem_get find_job, k_get_hpa = mem_get find_hpa, k_list = mem_list,
     k_patch = mem_patch,
     k_set_controller_reference = (\<lambda>ss cm. Inr (cm\<lparr>cm_Owner := Some (ss_Name ss)\<rparr>)),
     k_as_selector = mem_as_selector, k_retry = retry_times 4, k_now = mm_clock,
     k_LoadLocation = go_LoadLocation utc_location (\<lambda>_. None)\<rparr>"

section \<open>The laws\<close>

lemma key_of_stored [simp]: "key_of (stored x) = key_of x"
  by (cases x) (auto simp: key_of_def)

lemma meta_of_stored [simp]: "meta_of (stored x) = meta_of x"
  by (cases x) auto

lemma stored_stored [simp]: "stored (stored x) = stored x"
  by (cases x) auto

lemma find_first_such: "first_such P xs = Some x \<Longrightarrow> P x \<and> x \<in> set xs"
  using first_such_SomeD by fastforce

lemma mem_wf: "cluster_wf (mem_content m)"
  by (auto simp: cluster_wf_def mem_content_def obj_at_def secret_at_def cm_at_def schedule_at_def
      dest!: first_such_SomeD)

lemma mem_content_faults [simp]: "mem_content (m\<lparr>mm_faults := fs\<rparr>) = mem_content m"
  by (simp add: mem_content_def)

lemma mem_get_law: "get_law mem_content look (mem_get look)"
  by (auto simp: get_law_def mem_get_def mem_call_def split: option.splits list.splits)

lemma mem_call_cases:
  obtains "mem_call f m = f m"
    | fs where "mem_call f m = f (m\<lparr>mm_faults := fs\<rparr>)"
    | e fs where "mem_call f m = (Inl (OtherAPIError e), m\<lparr>mm_faults := fs\<rparr>)"
proof (cases "mm_faults m")
  case Nil
  then show ?thesis using that(1) by (simp add: mem_call_def)
next
  case (Cons a fs)
  then show ?thesis using that(2,3) by (cases a) (simp_all add: mem_call_def)
qed

lemma mem_write_law:
  assumes *: "\<And>m. case fst (f m) of Inl e \<Rightarrow> mem_content (snd (f m)) = mem_content m
    | Inr u \<Rightarrow> effect (mem_content m) (mem_content (snd (f m)))"
  shows "write_law mem_content effect (mem_call f)"
  unfolding write_law_def
proof
  fix m
  show "case fst (mem_call f m) of Inl e \<Rightarrow> mem_content (snd (mem_call f m)) = mem_content m
      | Inr _ \<Rightarrow> effect (mem_content m) (mem_content (snd (mem_call f m)))"
  proof (cases rule: mem_call_cases [of f m])
    case 1
    show ?thesis unfolding 1 by (rule *)
  next
    case (2 fs)
    show ?thesis unfolding 2 using * [of "m\<lparr>mm_faults := fs\<rparr>"] unfolding mem_content_faults .
  next
    case (3 e fs)
    show ?thesis unfolding 3 by simp
  qed
qed

lemma secret_at_put: "secret_at (s # xs) = (secret_at xs)((sec_Namespace s, sec_Name s) \<mapsto> s)"
  by (auto simp: secret_at_def fun_eq_iff)

lemma cm_at_put: "cm_at (s # xs) = (cm_at xs)((cm_Namespace s, cm_Name s) \<mapsto> s)"
  by (auto simp: cm_at_def fun_eq_iff)

lemma schedule_at_put:
  "schedule_at (s # xs) = (schedule_at xs)((ss_Namespace s, ss_Name s) \<mapsto> s)"
  by (auto simp: schedule_at_def fun_eq_iff)

lemma obj_at_put: "obj_at (x # xs) = (obj_at xs)(key_of x \<mapsto> stored x)"
  by (auto simp: obj_at_def fun_eq_iff)

lemma secret_at_filter:
  "secret_at (filter (\<lambda>t. (sec_Namespace t, sec_Name t) \<noteq> k) xs) = (secret_at xs)(k := None)"
proof
  fix j
  show "secret_at (filter (\<lambda>t. (sec_Namespace t, sec_Name t) \<noteq> k) xs) j = ((secret_at xs)(k := None)) j"
    by (induction xs) (auto simp: secret_at_def)
qed

lemmas secret_at_filter_pair = secret_at_filter [of "(ns, n)" for ns n, simplified]

lemma mem_secret_laws:
  "write_law mem_content (create_secret_effect s) (mem_create_secret s)"
  "write_law mem_content (update_secret_effect s) (mem_update_secret s)"
  "write_law mem_content (delete_secret_effect s) (mem_delete_secret s)"
  unfolding mem_create_secret_def mem_update_secret_def mem_delete_secret_def
  by (rule mem_write_law;
      auto simp: create_secret_effect_def update_secret_effect_def delete_secret_effect_def
        mem_put_secret_def put_secret_def mem_content_def secret_at_put secret_at_filter_pair
        split: option.splits)+

lemma mem_cm_laws:
  "write_law mem_content (create_cm_effect cm) (mem_create_cm cm)"
  "write_law mem_content (update_cm_effect cm) (mem_update_cm cm)"
  unfolding mem_create_cm_def mem_update_cm_def
  by (rule mem_write_law;
      auto simp: create_cm_effect_def update_cm_effect_def
        mem_put_cm_def put_cm_def mem_content_def cm_at_put split: option.splits)+

lemma mem_content_put_schedule:
  "mem_content (m\<lparr>mm_schedules := t # mm_schedules m\<rparr>) =
   (mem_content m)\<lparr>cl_schedule := (cl_schedule (mem_content m))((ss_Namespace t, ss_Name t) \<mapsto> t)\<rparr>"
  by (simp add: mem_content_def schedule_at_put)

lemma mem_update_status_law:
  "write_law mem_content (update_status_effect ss) (mem_update_status ss)"
  unfolding mem_update_status_def
proof (rule mem_write_law)
  fix m
  show "case fst (case find_schedule (mem_content m) (ss_Namespace ss) (ss_Name ss) of
        None \<Rightarrow> (Inl NotFound, m)
      | Some t \<Rightarrow> (Inr (), m\<lparr>mm_schedules := t\<lparr>ss_Status := ss_Status ss\<rparr> # mm_schedules m\<rparr>)) of
      Inl e \<Rightarrow> mem_content (snd (case find_schedule (mem_content m) (ss_Namespace ss) (ss_Name ss) of
        None \<Rightarrow> (Inl NotFound, m)
      | Some t \<Rightarrow> (Inr (), m\<lparr>mm_schedules := t\<lparr>ss_Status := ss_Status ss\<rparr> # mm_schedules m\<rparr>))) = mem_content m
    | Inr u \<Rightarrow> update_status_effect ss (mem_content m)
        (mem_content (snd (case find_schedule (mem_content m) (ss_Namespace ss) (ss_Name ss) of
        None \<Rightarrow> (Inl NotFound, m)
      | Some t \<Rightarrow> (Inr (), m\<lparr>mm_schedules := t\<lparr>ss_Status := ss_Status ss\<rparr> # mm_schedules m\<rparr>))))"
  proof (cases "find_schedule (mem_content m) (ss_Namespace ss) (ss_Name ss)")
    case None
    show ?thesis unfolding None option.case by simp
  next
    case (Some t)
    then have "ss_Namespace t = ss_Namespace ss" "ss_Name t = ss_Name ss"
      using mem_wf [of m] unfolding cluster_wf_def find_schedule_def by blast+
    then have "update_status_effect ss (mem_content m)
        (mem_content (m\<lparr>mm_schedules := t\<lparr>ss_Status := ss_Status ss\<rparr> # mm_schedules m\<rparr>))"
      unfolding update_status_effect_def mem_content_put_schedule using Some
      by (intro exI [of _ t]) simp
    then show ?thesis unfolding Some option.case by simp
  qed
qed

lemma mem_patch_law: "write_law mem_content (patch_effect orig new) (mem_patch orig new)"
  unfolding mem_patch_def
  by (rule mem_write_law)
    (auto simp: patch_effect_def put_obj_def mem_content_def obj_at_put split: option.splits)

lemma obj_at_SomeD: "obj_at xs k = Some x \<Longrightarrow> key_of x = k \<and> x \<in> set (map stored xs)"
  unfolding obj_at_def by (drule first_such_SomeD) simp

lemma mem_items_iff:
  "mt \<in> set (mem_items kind opt m) \<longleftrightarrow>
   (\<exists>x ns n. cl_obj (mem_content m) (kind, ns, n) = Some x \<and> mt = meta_of x \<and> opt_matches opt mt)"
  (is "?l \<longleftrightarrow> ?r")
proof
  assume ?l
  then obtain x where "kind_of x = kind" "opt_matches opt mt" "mt = meta_of x"
    "obj_at (mm_objs m) (key_of x) = Some x" by (auto simp: mem_items_def)
  then show ?r by (auto simp: key_of_def mem_content_def)
next
  assume ?r
  then obtain x ns n where x: "obj_at (mm_objs m) (kind, ns, n) = Some x" "mt = meta_of x"
    "opt_matches opt mt" by (auto simp: mem_content_def)
  from obj_at_SomeD [OF x(1)] have k: "key_of x = (kind, ns, n)" "x \<in> set (map stored (mm_objs m))"
    by auto
  then have "kind_of x = kind" by (simp add: key_of_def)
  with x k show ?l unfolding mem_items_def set_map set_filter by (intro image_eqI [of _ _ x]) auto
qed

lemma mem_list_law: "list_law mem_content mem_list"
  unfolding list_law_def
proof (intro allI)
  fix kind opt m
  let ?f = "\<lambda>m. (Inr (mem_items kind opt m), m)"
  show "mem_content (snd (mem_list kind opt m)) = mem_content m
    \<and> (case fst (mem_list kind opt m) of Inl e \<Rightarrow> True | Inr ms \<Rightarrow> \<forall>mt. mt \<in> set ms \<longleftrightarrow>
      (\<exists>x ns n. cl_obj (mem_content m) (kind, ns, n) = Some x \<and> mt = meta_of x \<and> opt_matches opt mt))"
  proof (cases rule: mem_call_cases [of ?f m])
    case 1
    show ?thesis unfolding mem_list_def 1 fst_conv snd_conv sum.case mem_items_iff by simp
  next
    case (2 fs)
    show ?thesis unfolding mem_list_def 2 fst_conv snd_conv sum.case mem_items_iff mem_content_faults
      by simp
  next
    case (3 e fs)
    show ?thesis unfolding mem_list_def 3 fst_conv snd_conv sum.case mem_content_faults by simp
  qed
qed

lemma mem_retry_law: "retry_law mem_client"
  by (auto simp: retry_law_def mem_client_def)

lemma mem_not_found_law: "not_found_law mem_content mem_client"
  by (auto simp: not_found_law_def mem_client_def mem_delete_secret_def mem_call_def
      split: list.splits option.splits)

theorem mem_kube_laws: "kube_laws mem_client mem_content"
  unfolding kube_laws_def
  by (simp add: mem_retry_law mem_wf mem_not_found_law)
    (simp add: mem_client_def mem_get_law mem_secret_laws mem_cm_laws mem_update_status_law
      mem_patch_law mem_list_law)

section \<open>Without faults\<close>

definition calm :: "(mem \<Rightarrow> 'r \<times> mem) \<Rightarrow> mem \<Rightarrow> 'r \<times> mem" where
  "calm f m = f (m\<lparr>mm_faults := []\<rparr>)"

definition calm_client :: "mem kube" where
  "calm_client = mem_client\<lparr>
     k_get_schedule := (\<lambda>ns n. calm (mem_get find_schedule ns n)),
     k_update_status := (\<lambda>ss. calm (mem_update_status ss)),
     k_get_secret := (\<lambda>ns n. calm (mem_get find_secret ns n)),
     k_create_secret := (\<lambda>s. calm (mem_create_secret s)),
     k_update_secret := (\<lambda>s. calm (mem_update_secret s)),
     k_delete_secret := (\<lambda>s. calm (mem_delete_secret s)),
     k_get_cm := (\<lambda>ns n. calm (mem_get find_cm ns n)),
     k_create_cm := (\<lambda>s. calm (mem_create_cm s)), k_update_cm := (\<lambda>s. calm (mem_update_cm s)),
     k_get_deployment := (\<lambda>ns n. calm (mem_get find_deployment ns n)),
     k_get_stateful_set := (\<lambda>ns n. calm (mem_get find_stateful_set ns n)),
     k_get_daemon_set := (\<lambda>ns n. calm (mem_get find_daemon_set ns n)),
     k_get_cron_job := (\<lambda>ns n. calm (mem_get find_cron_job ns n)),
     k_get_job := (\<lambda>ns n. calm (mem_get find_job ns n)),
     k_get_hpa := (\<lambda>ns n. calm (mem_get find_hpa ns n)),
     k_list := (\<lambda>kind opt. calm (mem_list kind opt)),
     k_patch := (\<lambda>orig new. calm (mem_patch orig new))\<rparr>"

lemma calm_get_law: "get_law mem_content look (\<lambda>ns n. calm (mem_get look ns n))"
  by (auto simp: get_law_def calm_def mem_get_def mem_call_def split: option.splits)

lemma calm_write_law:
  assumes "write_law mem_content effect f"
  shows "write_law mem_content effect (calm f)"
  unfolding write_law_def
proof
  fix m
  from assms have "case fst (f (m\<lparr>mm_faults := []\<rparr>)) of
      Inl e \<Rightarrow> mem_content (snd (f (m\<lparr>mm_faults := []\<rparr>))) = mem_content (m\<lparr>mm_faults := []\<rparr>)
    | Inr _ \<Rightarrow> effect (mem_content (m\<lparr>mm_faults := []\<rparr>)) (mem_content (snd (f (m\<lparr>mm_faults := []\<rparr>))))"
    unfolding write_law_def by blast
  then show "case fst (calm f m) of Inl e \<Rightarrow> mem_content (snd (calm f m)) = mem_content m
      | Inr _ \<Rightarrow> effect (mem_content m) (mem_content (snd (calm f m)))"
    unfolding calm_def mem_content_faults .
qed

lemma calm_list_law: "list_law mem_content (\<lambda>kind opt. calm (mem_list kind opt))"
  unfolding list_law_def
proof (intro allI)
  fix kind opt m
  show "mem_content (snd (calm (mem_list kind opt) m)) = mem_content m
    \<and> (case fst (calm (mem_list kind opt) m) of Inl e \<Rightarrow> True | Inr ms \<Rightarrow> \<forall>mt. mt \<in> set ms \<longleftrightarrow>
      (\<exists>x ns n. cl_obj (mem_content m) (kind, ns, n) = Some x \<and> mt = meta_of x \<and> opt_matches opt mt))"
    using mem_list_law [unfolded list_law_def, rule_format, of kind opt "m\<lparr>mm_faults := []\<rparr>"]
    unfolding calm_def mem_content_faults .
qed

lemma calm_not_found_law: "not_found_law mem_content calm_client"
  by (auto simp: not_found_law_def calm_client_def calm_def mem_delete_secret_def mem_call_def
      split: option.splits)

theorem calm_kube_laws: "kube_laws calm_client mem_content"
  unfolding kube_laws_def
  by (simp add: mem_wf calm_not_found_law)
    (simp add: calm_client_def mem_client_def calm_get_law calm_write_law mem_secret_laws mem_cm_laws
      mem_update_status_law mem_patch_law calm_list_law retry_law_def, blast)

lemma calm_get_total: "get_total mem_content look (\<lambda>ns n. calm (mem_get look ns n))"
  by (auto simp: get_total_def calm_def mem_get_def mem_call_def)

lemma calm_write_total:
  assumes "\<And>m. ready (mem_content m) \<Longrightarrow> fst (f m) = Inr ()"
  shows "write_total mem_content ready (calm (mem_call f))"
  unfolding write_total_def calm_def mem_call_def
proof (intro allI impI)
  fix m assume "ready (mem_content m)"
  with assms [of "m\<lparr>mm_faults := []\<rparr>"]
  have "fst (f (m\<lparr>mm_faults := []\<rparr>\<lparr>mm_faults := []\<rparr>)) = Inr ()"
    unfolding mem_content_faults by simp
  then show "fst (case mm_faults (m\<lparr>mm_faults := []\<rparr>) of [] \<Rightarrow> f (m\<lparr>mm_faults := []\<rparr>)
      | None # fs \<Rightarrow> f (m\<lparr>mm_faults := []\<rparr>\<lparr>mm_faults := fs\<rparr>)
      | Some e # fs \<Rightarrow> (Inl (OtherAPIError e), m\<lparr>mm_faults := []\<rparr>\<lparr>mm_faults := fs\<rparr>)) = Inr ()"
    by simp
qed

lemma calm_secret_total:
  "write_total mem_content (\<lambda>cl. find_secret cl (sec_Namespace s) (sec_Name s) = None)
     (calm (mem_create_secret s))"
  "write_total mem_content (\<lambda>cl. \<exists>t. find_secret cl (sec_Namespace s) (sec_Name s) = Some t
     \<and> sec_Version t = sec_Version s) (calm (mem_update_secret s))"
  "write_total mem_content (\<lambda>cl. find_secret cl (sec_Namespace s) (sec_Name s) \<noteq> None)
     (calm (mem_delete_secret s))"
  unfolding mem_create_secret_def mem_update_secret_def mem_delete_secret_def
  by (rule calm_write_total; force)+

lemma calm_cm_total:
  "write_total mem_content (\<lambda>cl. find_cm cl (cm_Namespace cm) (cm_Name cm) = None)
     (calm (mem_create_cm cm))"
  "write_total mem_content (\<lambda>cl. \<exists>t. find_cm cl (cm_Namespace cm) (cm_Name cm) = Some t
     \<and> cm_Version t = cm_Version cm) (calm (mem_update_cm cm))"
  unfolding mem_create_cm_def mem_update_cm_def
  by (rule calm_write_total; force)+

lemma calm_object_total:
  "write_total mem_content (\<lambda>cl. find_schedule cl (ss_Namespace ss) (ss_Name ss) \<noteq> None)
     (calm (mem_update_status ss))"
  "write_total mem_content (\<lambda>cl. cl_obj cl (key_of orig) = Some orig) (calm (mem_patch orig new))"
  unfolding mem_update_status_def mem_patch_def
  by (rule calm_write_total; force)+

lemma calm_list_total: "\<exists>ms. fst (calm (mem_list kind opt) m) = Inr ms"
  by (simp add: calm_def mem_list_def mem_call_def)

theorem calm_kube_healthy: "kube_healthy calm_client mem_content"
  unfolding kube_healthy_def
  by (simp add: calm_client_def calm_get_total calm_secret_total calm_cm_total
      calm_object_total [simplified] calm_object_total calm_list_total
      calm_secret_total [simplified])

section \<open>Starting states\<close>

definition empty_mem :: mem where
  "empty_mem = \<lparr>mm_schedules = [], mm_secrets = [], mm_cms = [], mm_objs = [], mm_version = 0,
     mm_faults = [], mm_clock = 0\<rparr>"

definition no_metrics :: metrics where
  "no_metrics = \<lparr>mt_targetsAsleep = [], mt_targetsAwake = [], mt_activeWakes = [],
     mt_overrideSecondsRemaining = [], mt_restoreFailures = []\<rparr>"

definition mem_state :: "mem \<Rightarrow> mem state" where
  "mem_state m = \<lparr>st_api = m, st_events = [], st_audit = [], st_metrics = no_metrics\<rparr>"

end
