(* ===== verification/Checkpoint_Store.thy ===== *)
theory Checkpoint_Store
  imports Kube_Memory
begin

text \<open>
  \<open>internal/checkpoint/store.go\<close>: the Secret that keeps what a workload needs to be restored. The
  store is a write-once map from keys to strings: \<^theory_text>\<open>GetRaw\<close>, \<^theory_text>\<open>SetRaw\<close> and \<^theory_text>\<open>Delete\<close> act on one
  entry of one Secret and on nothing else. That no recorded original is ever overwritten holds even
  when the client's reads are stale.
\<close>

section \<open>store.go\<close>

record 'w store =
  sr_Client :: "'w kube"
  sr_Namespace :: string

definition Key :: "string \<Rightarrow> string \<Rightarrow> string \<Rightarrow> string \<Rightarrow> string" where
  "Key kind ns name uid = ''apps_v1_'' @ kind @ ''_'' @ ns @ ''_'' @ name @ ''_'' @ uid"

definition secretName :: "sleep_schedule \<Rightarrow> string" where
  "secretName schedule = ss_Name schedule @ ''-checkpoint''"

definition GetRaw :: "'w store \<Rightarrow> sleep_schedule \<Rightarrow> string \<Rightarrow> ('w, string option) prog" where
  "GetRaw st schedule key =
     try_p (call (k_get_secret (sr_Client st) (sr_Namespace st) (secretName schedule))) (\<lambda>r.
       case r of
         Inl e \<Rightarrow> if isNotFound e then return_p None else throw_p e
       | Inr sec \<Rightarrow> return_p (map_of (sec_Data sec) key))"

definition isTransientWrite :: "go_error \<Rightarrow> bool" where
  "isTransientWrite e \<longleftrightarrow> isConflict e \<or> isAlreadyExists e"

definition new_checkpoint_secret :: "'w store \<Rightarrow> sleep_schedule \<Rightarrow> string \<Rightarrow> string \<Rightarrow> secret" where
  "new_checkpoint_secret st schedule key v =
     \<lparr>sec_Name = secretName schedule, sec_Namespace = sr_Namespace st,
      sec_Labels = [(''app.kubernetes.io/managed-by'', ''k8s-nyx''),
                    (''nyx.dev/schedule'', ss_Name schedule)],
      sec_Data = [(key, v)], sec_Version = 0\<rparr>"

definition SetRaw_once :: "'w store \<Rightarrow> sleep_schedule \<Rightarrow> string \<Rightarrow> string \<Rightarrow> ('w, unit) prog" where
  "SetRaw_once st schedule key v =
     try_p (call (k_get_secret (sr_Client st) (sr_Namespace st) (secretName schedule))) (\<lambda>r.
       case r of
         Inl e \<Rightarrow>
           if isNotFound e
           then call (k_create_secret (sr_Client st) (new_checkpoint_secret st schedule key v))
           else throw_p e
       | Inr sec \<Rightarrow>
           if map_of (sec_Data sec) key \<noteq> None then return_p ()
           else call (k_update_secret (sr_Client st) (sec\<lparr>sec_Data := map_put key v (sec_Data sec)\<rparr>)))"

definition SetRaw :: "'w store \<Rightarrow> sleep_schedule \<Rightarrow> string \<Rightarrow> string \<Rightarrow> ('w, unit) prog" where
  "SetRaw st schedule key v =
     k_retry (sr_Client st) isTransientWrite (SetRaw_once st schedule key v)"

text \<open>\<open>Get\<close> and \<open>Set\<close> carry a replica count as decimal text.\<close>

definition Get :: "'w store \<Rightarrow> sleep_schedule \<Rightarrow> string \<Rightarrow> ('w, int32 option) prog" where
  "Get st schedule key =
     bind_p (GetRaw st schedule key) (\<lambda>raw.
       case raw of
         None \<Rightarrow> return_p None
       | Some r \<Rightarrow>
           (case ParseInt 32 r of
              None \<Rightarrow> throw_p (CorruptCheckpoint key)
            | Some n \<Rightarrow> return_p (Some (word_of_int n))))"

definition Set_replicas :: "'w store \<Rightarrow> sleep_schedule \<Rightarrow> string \<Rightarrow> int32 \<Rightarrow> ('w, unit) prog" where
  "Set_replicas st schedule key replicas = SetRaw st schedule key (FormatInt (sint replicas))"

definition Delete_once :: "'w store \<Rightarrow> sleep_schedule \<Rightarrow> string \<Rightarrow> ('w, unit) prog" where
  "Delete_once st schedule key =
     try_p (call (k_get_secret (sr_Client st) (sr_Namespace st) (secretName schedule))) (\<lambda>r.
       case r of
         Inl e \<Rightarrow> if isNotFound e then return_p () else throw_p e
       | Inr sec \<Rightarrow>
           if map_of (sec_Data sec) key = None then return_p ()
           else
             (let sec' = sec\<lparr>sec_Data := map_del key (sec_Data sec)\<rparr>
              in if length (sec_Data sec') = 0
                 then ignoreNotFound (call (k_delete_secret (sr_Client st) sec'))
                 else call (k_update_secret (sr_Client st) sec')))"

definition Delete_entry :: "'w store \<Rightarrow> sleep_schedule \<Rightarrow> string \<Rightarrow> ('w, unit) prog" where
  "Delete_entry st schedule key =
     k_retry (sr_Client st) isTransientWrite (Delete_once st schedule key)"

section \<open>The store as a map of entries\<close>

definition secret_entry :: "cluster \<Rightarrow> string \<Rightarrow> string \<Rightarrow> string \<Rightarrow> string option" where
  "secret_entry cl ns n k =
     (case find_secret cl ns n of None \<Rightarrow> None | Some s \<Rightarrow> map_of (sec_Data s) k)"

abbreviation entry :: "'w store \<Rightarrow> sleep_schedule \<Rightarrow> string \<Rightarrow> cluster \<Rightarrow> string option" where
  "entry st schedule key cl \<equiv> secret_entry cl (sr_Namespace st) (secretName schedule) key"

text \<open>One entry takes a new value; no other entry and no other object changes.\<close>

definition entry_upd ::
  "'w store \<Rightarrow> sleep_schedule \<Rightarrow> string \<Rightarrow> string option \<Rightarrow> cluster \<Rightarrow> cluster \<Rightarrow> bool"
where
  "entry_upd st schedule key v cl cl' \<longleftrightarrow>
     cl_obj cl' = cl_obj cl \<and> cl_cm cl' = cl_cm cl \<and> cl_schedule cl' = cl_schedule cl
     \<and> (\<forall>ns n k. secret_entry cl' ns n k =
          (if (ns, n, k) = (sr_Namespace st, secretName schedule, key) then v
           else secret_entry cl ns n k))"

definition same_trace :: "'w state \<Rightarrow> 'w state \<Rightarrow> bool" where
  "same_trace s s' \<longleftrightarrow>
     st_events s' = st_events s \<and> st_audit s' = st_audit s \<and> st_metrics s' = st_metrics s"

lemma same_view_trace: "same_view content s s' \<Longrightarrow> same_trace s s'"
  by (simp add: same_view_def same_trace_def)

lemma entry_upd_refl: "entry st schedule key cl = v \<Longrightarrow> entry_upd st schedule key v cl cl"
  by (auto simp: entry_upd_def)

lemma secret_entry_put:
  "secret_entry (put_secret s cl) ns n k =
     (if ns = sec_Namespace s \<and> n = sec_Name s then map_of (sec_Data s) k else secret_entry cl ns n k)"
  by (auto simp: secret_entry_def find_secret_def put_secret_def)

lemma put_secret_frame [simp]:
  "cl_obj (put_secret s cl) = cl_obj cl" "cl_cm (put_secret s cl) = cl_cm cl"
  "cl_schedule (put_secret s cl) = cl_schedule cl"
  by (simp_all add: put_secret_def)

lemma found_secret_key:
  assumes "kube_laws c content" and "find_secret (content w) ns n = Some s"
  shows "sec_Namespace s = ns" and "sec_Name s = n"
  using kube_lawsD(19) [OF assms(1), of w] assms(2) by (auto simp: cluster_wf_def find_secret_def)

lemma wp_GetRaw:
  assumes "kube_laws (sr_Client st) content"
    and "\<And>e s'. same_view content s s' \<Longrightarrow> Q (Inl e) s'"
    and "\<And>s'. same_view content s s' \<Longrightarrow> Q (Inr (entry st schedule key (content (st_api s)))) s'"
  shows "wp (GetRaw st schedule key) Q s"
  unfolding GetRaw_def wp_try
  by (rule wp_get_secret [OF assms(1)])
    (use assms(2,3) in \<open>auto simp: wp_simps isNotFound_def secret_entry_def\<close>)

lemma created_entry:
  assumes "create_secret_effect (new_checkpoint_secret st schedule key v) cl cl'"
  shows "entry_upd st schedule key (Some v) cl cl'" and "entry st schedule key cl = None"
  using assms
  by (auto simp: create_secret_effect_def new_checkpoint_secret_def entry_upd_def secret_entry_put)
    (auto simp: secret_entry_def)

lemma updated_entry:
  assumes "update_secret_effect (sec\<lparr>sec_Data := d\<rparr>) cl cl'" and "\<And>k. k \<noteq> key \<Longrightarrow> map_of d k = map_of (sec_Data sec) k"
    and "find_secret cl (sr_Namespace st) (secretName schedule) = Some sec"
    and "sec_Namespace sec = sr_Namespace st" and "sec_Name sec = secretName schedule"
  shows "entry_upd st schedule key (map_of d key) cl cl'"
  using assms
  by (auto simp: update_secret_effect_def entry_upd_def secret_entry_put)
    (auto simp: secret_entry_def)

lemma deleted_entry:
  assumes "delete_secret_effect (sec\<lparr>sec_Data := d\<rparr>) cl cl'"
    and "\<And>k. k \<noteq> key \<Longrightarrow> map_of (sec_Data sec) k = None"
    and "find_secret cl (sr_Namespace st) (secretName schedule) = Some sec"
    and "sec_Namespace sec = sr_Namespace st" and "sec_Name sec = secretName schedule"
  shows "entry_upd st schedule key None cl cl'"
  using assms by (auto simp: delete_secret_effect_def entry_upd_def secret_entry_def find_secret_def)

lemma wp_SetRaw_once:
  fixes content :: "'w \<Rightarrow> cluster"
  assumes laws: "kube_laws (sr_Client st) content"
    and err: "\<And>e s'. same_view content s s' \<Longrightarrow> Q (Inl e) s'"
    and ok: "\<And>s'. same_trace s s' \<Longrightarrow>
      entry_upd st schedule key
        (case entry st schedule key (content (st_api s)) of None \<Rightarrow> Some v | Some u \<Rightarrow> Some u)
        (content (st_api s)) (content (st_api s')) \<Longrightarrow> Q (Inr ()) s'"
  shows "wp (SetRaw_once st schedule key v) Q s"
  unfolding SetRaw_once_def wp_try
proof (rule wp_get_secret [OF laws])
  fix e and s1 :: "'w state"
  assume v: "same_view content s s1"
    and nf: "e = NotFound \<Longrightarrow> find_secret (content (st_api s)) (sr_Namespace st) (secretName schedule) = None"
  have "wp (call (k_create_secret (sr_Client st) (new_checkpoint_secret st schedule key v))) Q s1"
  proof (rule wp_create_secret [OF laws])
    fix s2 :: "'w state"
    assume eff: "create_secret_effect (new_checkpoint_secret st schedule key v)
        (content (st_api s1)) (content (st_api s2))"
      and "st_events s2 = st_events s1" "st_audit s2 = st_audit s1" "st_metrics s2 = st_metrics s1"
    then have "same_trace s s2" using same_viewD [OF v] by (simp add: same_trace_def)
    then show "Q (Inr ()) s2"
      using ok created_entry [OF eff [unfolded same_viewD(1) [OF v]]] by simp
  qed (use same_view_trans [OF v] err in blast)
  then show "wp (case Inl (ApiError e) of
         Inl e \<Rightarrow> if isNotFound e
           then call (k_create_secret (sr_Client st) (new_checkpoint_secret st schedule key v))
           else throw_p e
       | Inr sec \<Rightarrow>
           if map_of (sec_Data sec) key \<noteq> None then return_p ()
           else call (k_update_secret (sr_Client st) (sec\<lparr>sec_Data := map_put key v (sec_Data sec)\<rparr>)))
      Q s1"
    using v err by (simp add: wp_simps)
next
  fix sec and s1 :: "'w state"
  assume v: "same_view content s s1"
    and sec: "find_secret (content (st_api s)) (sr_Namespace st) (secretName schedule) = Some sec"
  note k = found_secret_key [OF laws sec]
  have "wp (call (k_update_secret (sr_Client st) (sec\<lparr>sec_Data := map_put key v (sec_Data sec)\<rparr>))) Q s1"
    if "map_of (sec_Data sec) key = None"
  proof (rule wp_update_secret [OF laws])
    fix s2 :: "'w state"
    assume eff: "update_secret_effect (sec\<lparr>sec_Data := map_put key v (sec_Data sec)\<rparr>)
        (content (st_api s1)) (content (st_api s2))"
      and "st_events s2 = st_events s1" "st_audit s2 = st_audit s1" "st_metrics s2 = st_metrics s1"
    then have "same_trace s s2" using same_viewD [OF v] by (simp add: same_trace_def)
    moreover have "entry_upd st schedule key (Some v) (content (st_api s)) (content (st_api s2))"
      using updated_entry [OF eff [unfolded same_viewD(1) [OF v]] _ sec k, of key] by simp
    ultimately show "Q (Inr ()) s2" using ok that sec by (simp add: secret_entry_def)
  qed (use same_view_trans [OF v] err in blast)
  moreover have "Q (Inr ()) s1" if "map_of (sec_Data sec) key = Some x" for x
  proof -
    have x: "entry st schedule key (content (st_api s)) = Some x"
      using sec that by (simp add: secret_entry_def)
    then show ?thesis
      using ok [OF same_view_trace [OF v]] same_viewD(1) [OF v] entry_upd_refl [OF x] by simp
  qed
  ultimately show "wp (case Inr sec of
         Inl e \<Rightarrow> if isNotFound e
           then call (k_create_secret (sr_Client st) (new_checkpoint_secret st schedule key v))
           else throw_p e
       | Inr sec \<Rightarrow>
           if map_of (sec_Data sec) key \<noteq> None then return_p ()
           else call (k_update_secret (sr_Client st) (sec\<lparr>sec_Data := map_put key v (sec_Data sec)\<rparr>)))
      Q s1"
    by (auto simp: wp_simps)
qed

lemma same_trace_view: "same_view content s t \<Longrightarrow> same_trace t u \<Longrightarrow> same_trace s u"
  by (simp add: same_view_def same_trace_def)

lemma wp_SetRaw:
  assumes laws: "kube_laws (sr_Client st) content"
    and err: "\<And>e s'. same_view content s s' \<Longrightarrow> Q (Inl e) s'"
    and ok: "\<And>s'. same_trace s s' \<Longrightarrow>
      entry_upd st schedule key
        (case entry st schedule key (content (st_api s)) of None \<Rightarrow> Some v | Some u \<Rightarrow> Some u)
        (content (st_api s)) (content (st_api s')) \<Longrightarrow> Q (Inr ()) s'"
  shows "wp (SetRaw st schedule key v) Q s"
  unfolding SetRaw_def
proof (rule wp_k_retry [OF laws, where I = "same_view content s"])
  fix t assume t: "same_view content s t"
  show "wp (SetRaw_once st schedule key v)
      (\<lambda>r s'. case r of Inl e \<Rightarrow> same_view content s s' \<and> Q (Inl e) s' | Inr u \<Rightarrow> Q (Inr ()) s') t"
    by (rule wp_SetRaw_once [OF laws])
      (use err ok same_view_trans [OF t] same_trace_view [OF t] same_viewD(1) [OF t] in auto)
qed simp

lemma wp_Delete_once:
  fixes content :: "'w \<Rightarrow> cluster"
  assumes laws: "kube_laws (sr_Client st) content"
    and err: "\<And>e s'. same_view content s s' \<Longrightarrow> Q (Inl e) s'"
    and ok: "\<And>s'. same_trace s s' \<Longrightarrow>
      entry_upd st schedule key None (content (st_api s)) (content (st_api s')) \<Longrightarrow>
      (entry st schedule key (content (st_api s)) \<noteq> None \<longrightarrow>
        (\<forall>k. entry st schedule k (content (st_api s')) = None) \<longrightarrow>
        find_secret (content (st_api s')) (sr_Namespace st) (secretName schedule) = None) \<Longrightarrow>
      Q (Inr ()) s'"
  shows "wp (Delete_once st schedule key) Q s"
  unfolding Delete_once_def wp_try
proof (rule wp_get_secret [OF laws])
  fix e and s1 :: "'w state"
  assume v: "same_view content s s1"
    and nf: "e = NotFound \<Longrightarrow> find_secret (content (st_api s)) (sr_Namespace st) (secretName schedule) = None"
  have "Q (Inr ()) s1" if "e = NotFound"
  proof -
    have "entry st schedule key (content (st_api s)) = None"
      using nf that by (simp add: secret_entry_def)
    then show ?thesis
      using ok [OF same_view_trace [OF v]] same_viewD(1) [OF v] entry_upd_refl by metis
  qed
  then show "wp (case Inl (ApiError e) of
         Inl e \<Rightarrow> if isNotFound e then return_p () else throw_p e
       | Inr sec \<Rightarrow>
           if map_of (sec_Data sec) key = None then return_p ()
           else
             (let sec' = sec\<lparr>sec_Data := map_del key (sec_Data sec)\<rparr>
              in if length (sec_Data sec') = 0
                 then ignoreNotFound (call (k_delete_secret (sr_Client st) sec'))
                 else call (k_update_secret (sr_Client st) sec'))) Q s1"
    using v err by (simp add: wp_simps isNotFound_def)
next
  fix sec and s1 :: "'w state"
  assume v: "same_view content s s1"
    and sec: "find_secret (content (st_api s)) (sr_Namespace st) (secretName schedule) = Some sec"
  note k = found_secret_key [OF laws sec]
  let ?sec = "sec\<lparr>sec_Data := map_del key (sec_Data sec)\<rparr>"
  have "Q (Inr ()) s1" if "map_of (sec_Data sec) key = None"
  proof -
    have "entry st schedule key (content (st_api s)) = None"
      using sec that by (simp add: secret_entry_def)
    then show ?thesis
      using ok [OF same_view_trace [OF v]] same_viewD(1) [OF v] entry_upd_refl by metis
  qed
  moreover have "wp (call (k_update_secret (sr_Client st) ?sec)) Q s1"
    if h: "map_of (sec_Data sec) key \<noteq> None" "map_del key (sec_Data sec) \<noteq> []"
  proof (rule wp_update_secret [OF laws])
    fix s2 :: "'w state"
    assume eff: "update_secret_effect ?sec (content (st_api s1)) (content (st_api s2))"
      and "st_events s2 = st_events s1" "st_audit s2 = st_audit s1" "st_metrics s2 = st_metrics s1"
    then have tr: "same_trace s s2" using same_viewD [OF v] by (simp add: same_trace_def)
    have u: "entry_upd st schedule key None (content (st_api s)) (content (st_api s2))"
      using updated_entry [OF eff [unfolded same_viewD(1) [OF v]] _ sec k, of key] by simp
    obtain j where "j \<noteq> key" "map_of (sec_Data sec) j \<noteq> None"
      using h(2) by (auto simp: map_del_Nil_iff)
    then have "entry st schedule j (content (st_api s2)) \<noteq> None"
      using u sec by (simp add: entry_upd_def secret_entry_def [of "content (st_api s)"])
    then have "\<not> (\<forall>k. entry st schedule k (content (st_api s2)) = None)" by (rule contrapos_nn) simp
    with ok [OF tr u] show "Q (Inr ()) s2" by metis
  qed (use same_view_trans [OF v] err in blast)
  moreover have "wp (ignoreNotFound (call (k_delete_secret (sr_Client st) ?sec))) Q s1"
    if "map_of (sec_Data sec) key \<noteq> None" "map_del key (sec_Data sec) = []"
    unfolding wp_ignoreNotFound
  proof (rule wp_delete_secret [OF laws])
    fix s2 :: "'w state"
    assume eff: "delete_secret_effect ?sec (content (st_api s1)) (content (st_api s2))"
      and "st_events s2 = st_events s1" "st_audit s2 = st_audit s1" "st_metrics s2 = st_metrics s1"
    then have "same_trace s s2" using same_viewD [OF v] by (simp add: same_trace_def)
    moreover have u: "entry_upd st schedule key None (content (st_api s)) (content (st_api s2))"
      using deleted_entry [OF eff [unfolded same_viewD(1) [OF v]] _ sec k] that(2)
      by (simp add: map_del_Nil_iff)
    moreover have "find_secret (content (st_api s2)) (sr_Namespace st) (secretName schedule) = None"
      using eff k by (simp add: delete_secret_effect_def find_secret_def)
    ultimately show "Q (case Inr () of Inl e \<Rightarrow> if isNotFound e then Inr () else Inl e | Inr u \<Rightarrow> Inr u) s2"
      using ok by simp
  next
    fix e and s2 :: "'w state"
    assume v2: "same_view content s1 s2" and nf: "e = NotFound \<Longrightarrow>
      find_secret (content (st_api s1)) (sec_Namespace ?sec) (sec_Name ?sec) = None"
    have "e \<noteq> NotFound" using nf sec k same_viewD(1) [OF v] by auto
    then show "Q (case Inl (ApiError e) of Inl e \<Rightarrow> if isNotFound e then Inr () else Inl e
        | Inr u \<Rightarrow> Inr u) s2"
      using err same_view_trans [OF v v2] by (simp add: isNotFound_def)
  qed
  ultimately show "wp (case Inr sec of
         Inl e \<Rightarrow> if isNotFound e then return_p () else throw_p e
       | Inr sec \<Rightarrow>
           if map_of (sec_Data sec) key = None then return_p ()
           else
             (let sec' = sec\<lparr>sec_Data := map_del key (sec_Data sec)\<rparr>
              in if length (sec_Data sec') = 0
                 then ignoreNotFound (call (k_delete_secret (sr_Client st) sec'))
                 else call (k_update_secret (sr_Client st) sec'))) Q s1"
    by (auto simp: wp_simps Let_def)
qed


lemma wp_Delete_entry:
  assumes laws: "kube_laws (sr_Client st) content"
    and err: "\<And>e s'. same_view content s s' \<Longrightarrow> Q (Inl e) s'"
    and ok: "\<And>s'. same_trace s s' \<Longrightarrow>
      entry_upd st schedule key None (content (st_api s)) (content (st_api s')) \<Longrightarrow>
      (entry st schedule key (content (st_api s)) \<noteq> None \<longrightarrow>
        (\<forall>k. entry st schedule k (content (st_api s')) = None) \<longrightarrow>
        find_secret (content (st_api s')) (sr_Namespace st) (secretName schedule) = None) \<Longrightarrow>
      Q (Inr ()) s'"
  shows "wp (Delete_entry st schedule key) Q s"
  unfolding Delete_entry_def
proof (rule wp_k_retry [OF laws, where I = "same_view content s"])
  fix t assume t: "same_view content s t"
  show "wp (Delete_once st schedule key)
      (\<lambda>r s'. case r of Inl e \<Rightarrow> same_view content s s' \<and> Q (Inl e) s' | Inr u \<Rightarrow> Q (Inr ()) s') t"
    by (rule wp_Delete_once [OF laws])
      (use err ok same_view_trans [OF t] same_trace_view [OF t] same_viewD(1) [OF t] in auto)
qed simp

lemma wp_Get:
  assumes "kube_laws (sr_Client st) content"
    and "\<And>e s'. same_view content s s' \<Longrightarrow> Q (Inl e) s'"
    and "\<And>s'. same_view content s s' \<Longrightarrow> entry st schedule key (content (st_api s)) = None \<Longrightarrow>
      Q (Inr None) s'"
    and "\<And>s' raw n. same_view content s s' \<Longrightarrow> entry st schedule key (content (st_api s)) = Some raw \<Longrightarrow>
      ParseInt 32 raw = Some n \<Longrightarrow> Q (Inr (Some (word_of_int n))) s'"
  shows "wp (Get st schedule key) Q s"
  unfolding Get_def wp_bind
  by (rule wp_GetRaw [OF assms(1)])
    (use assms(2-4) in \<open>auto simp: wp_simps split: option.splits\<close>)

text \<open>A replica count survives its decimal text.\<close>

lemma sint_int32_range: "- (2 ^ 31) \<le> sint (w :: int32)" "sint (w :: int32) < 2 ^ 31"
  using sint_ge [of w] sint_lt [of w] by simp_all

lemma ParseInt_sint [simp]: "ParseInt 32 (FormatInt (sint (w :: int32))) = Some (sint w)"
  by (rule ParseInt_FormatInt) (use sint_int32_range [of w] in simp_all)

end
