(* ===== verification/Checkpoint_Correct.thy ===== *)
theory Checkpoint_Correct
  imports Checkpoint_Store
begin

text \<open>
  The properties of the checkpoint store. The interface that the workload handlers rely on is the
  locale \<^theory_text>\<open>checkpoint_map\<close>, a write-once map with failing operations; the store of
  \<open>store.go\<close> over every client that obeys the laws of the API is an interpretation of it.
\<close>

section \<open>The interface\<close>

locale checkpoint_map =
  fixes ok :: "'c \<Rightarrow> bool"
    and view :: "'c \<Rightarrow> 's \<Rightarrow> 'k \<Rightarrow> 'v option"
    and get :: "'c \<Rightarrow> 'k \<Rightarrow> 's \<Rightarrow> ('e + 'v option) \<times> 's"
    and put :: "'c \<Rightarrow> 'k \<Rightarrow> 'v \<Rightarrow> 's \<Rightarrow> ('e + unit) \<times> 's"
    and del :: "'c \<Rightarrow> 'k \<Rightarrow> 's \<Rightarrow> ('e + unit) \<times> 's"
  assumes get_view: "ok c \<Longrightarrow> get c k s = (r, s') \<Longrightarrow> view c s' = view c s"
    and get_value: "ok c \<Longrightarrow> get c k s = (Inr x, s') \<Longrightarrow> x = view c s k"
    and put_error: "ok c \<Longrightarrow> put c k v s = (Inl e, s') \<Longrightarrow> view c s' = view c s"
    and put_view: "ok c \<Longrightarrow> put c k v s = (Inr u, s') \<Longrightarrow>
      view c s' = (view c s)(k := (case view c s k of None \<Rightarrow> Some v | Some w \<Rightarrow> Some w))"
    and del_error: "ok c \<Longrightarrow> del c k s = (Inl e, s') \<Longrightarrow> view c s' = view c s"
    and del_view: "ok c \<Longrightarrow> del c k s = (Inr u, s') \<Longrightarrow> view c s' = (view c s)(k := None)"
begin

lemma put_keeps:
  assumes "ok c" and "view c s k = Some v"
  shows "view c (snd (put c j u s)) k = Some v"
  using assms put_error [OF assms(1)] put_view [OF assms(1)]
  by (cases "put c j u s"; cases "fst (put c j u s)") auto

text \<open>Whatever is put afterwards, and whether it succeeds or not, the first value stays.\<close>

lemma puts_keep:
  assumes "ok c" and "view c s k = Some v"
  shows "view c (foldl (\<lambda>s (j, u). snd (put c j u s)) s ps) k = Some v"
  using assms(2)
proof (induction ps arbitrary: s)
  case (Cons p ps)
  then show ?case using put_keeps [OF assms(1) Cons.prems] by (cases p) simp
qed simp

lemma first_put_wins:
  assumes "ok c" and "put c k v s = (Inr u, s1)" and "view c s k = None"
    and "get c k (foldl (\<lambda>s (j, u). snd (put c j u s)) s1 ps) = (Inr x, s2)"
  shows "x = Some v"
proof -
  have "view c s1 k = Some v" using put_view [OF assms(1,2)] assms(3) by simp
  from puts_keep [OF assms(1) this] get_value [OF assms(1,4)] show ?thesis by simp
qed

end

text \<open>The store over any client that obeys the laws, for one schedule.\<close>

definition store_ok :: "'w store \<times> ('w \<Rightarrow> cluster) \<times> sleep_schedule \<Rightarrow> bool" where
  "store_ok c = (case c of (st, content, schedule) \<Rightarrow> kube_laws (sr_Client st) content)"

definition store_view ::
  "'w store \<times> ('w \<Rightarrow> cluster) \<times> sleep_schedule \<Rightarrow> 'w state \<Rightarrow> string \<Rightarrow> string option"
where
  "store_view c s k = (case c of (st, content, schedule) \<Rightarrow> entry st schedule k (content (st_api s)))"

definition store_get where
  "store_get c k = (case c of (st, content, schedule) \<Rightarrow> GetRaw st schedule k)"

definition store_put where
  "store_put c k v = (case c of (st, content, schedule) \<Rightarrow> SetRaw st schedule k v)"

definition store_del where
  "store_del c k = (case c of (st, content, schedule) \<Rightarrow> Delete_entry st schedule k)"

lemmas store_defs = store_ok_def store_view_def store_get_def store_put_def store_del_def

lemma GetRaw_result:
  assumes "kube_laws (sr_Client st) content" and "GetRaw st schedule key s = (r, s')"
  shows "same_view content s s'"
    and "r = Inr x \<Longrightarrow> x = entry st schedule key (content (st_api s))"
proof -
  have "wp (GetRaw st schedule key)
      (\<lambda>r s'. same_view content s s' \<and> (\<forall>x. r = Inr x \<longrightarrow> x = entry st schedule key (content (st_api s)))) s"
    by (rule wp_GetRaw [OF assms(1)]) auto
  from wpD [OF this assms(2)] show "same_view content s s'"
    and "r = Inr x \<Longrightarrow> x = entry st schedule key (content (st_api s))" by auto
qed

lemma SetRaw_result:
  assumes "kube_laws (sr_Client st) content" and "SetRaw st schedule key v s = (r, s')"
  shows "r = Inl e \<Longrightarrow> same_view content s s'"
    and "r = Inr u \<Longrightarrow> entry_upd st schedule key
        (case entry st schedule key (content (st_api s)) of None \<Rightarrow> Some v | Some u \<Rightarrow> Some u)
        (content (st_api s)) (content (st_api s'))"
proof -
  have "wp (SetRaw st schedule key v)
      (\<lambda>r s'. (\<forall>e. r = Inl e \<longrightarrow> same_view content s s') \<and> (\<forall>u. r = Inr u \<longrightarrow> entry_upd st schedule key
        (case entry st schedule key (content (st_api s)) of None \<Rightarrow> Some v | Some u \<Rightarrow> Some u)
        (content (st_api s)) (content (st_api s')))) s"
    by (rule wp_SetRaw [OF assms(1)]) auto
  from wpD [OF this assms(2)] show "r = Inl e \<Longrightarrow> same_view content s s'"
    and "r = Inr u \<Longrightarrow> entry_upd st schedule key
        (case entry st schedule key (content (st_api s)) of None \<Rightarrow> Some v | Some u \<Rightarrow> Some u)
        (content (st_api s)) (content (st_api s'))" by auto
qed

lemma Delete_result:
  assumes "kube_laws (sr_Client st) content" and "Delete_entry st schedule key s = (r, s')"
  shows "r = Inl e \<Longrightarrow> same_view content s s'"
    and "r = Inr u \<Longrightarrow> entry_upd st schedule key None (content (st_api s)) (content (st_api s'))"
    and "r = Inr u \<Longrightarrow> entry st schedule key (content (st_api s)) \<noteq> None \<Longrightarrow>
      \<forall>k. entry st schedule k (content (st_api s')) = None \<Longrightarrow>
      find_secret (content (st_api s')) (sr_Namespace st) (secretName schedule) = None"
proof -
  have "wp (Delete_entry st schedule key)
      (\<lambda>r s'. (\<forall>e. r = Inl e \<longrightarrow> same_view content s s') \<and> (\<forall>u. r = Inr u \<longrightarrow>
         entry_upd st schedule key None (content (st_api s)) (content (st_api s'))
         \<and> (entry st schedule key (content (st_api s)) \<noteq> None \<longrightarrow>
              (\<forall>k. entry st schedule k (content (st_api s')) = None) \<longrightarrow>
              find_secret (content (st_api s')) (sr_Namespace st) (secretName schedule) = None))) s"
    by (rule wp_Delete_entry [OF assms(1)]) auto
  from wpD [OF this assms(2)]
  show "r = Inl e \<Longrightarrow> same_view content s s'"
    and "r = Inr u \<Longrightarrow> entry_upd st schedule key None (content (st_api s)) (content (st_api s'))"
    and "r = Inr u \<Longrightarrow> entry st schedule key (content (st_api s)) \<noteq> None \<Longrightarrow>
      \<forall>k. entry st schedule k (content (st_api s')) = None \<Longrightarrow>
      find_secret (content (st_api s')) (sr_Namespace st) (secretName schedule) = None"
    by auto
qed

lemma entry_upd_view:
  "entry_upd st schedule key v cl cl' \<Longrightarrow>
   (\<lambda>k. entry st schedule k cl') = (\<lambda>k. entry st schedule k cl)(key := v)"
  by (auto simp: entry_upd_def)

interpretation store_map: checkpoint_map store_ok store_view store_get store_put store_del
proof (unfold_locales, goal_cases)
  case (1 c k s r s')
  then show ?case using same_viewD(1) [OF GetRaw_result(1)]
    by (cases c) (fastforce simp: store_defs fun_eq_iff)
next
  case (2 c k s x s')
  then show ?case using GetRaw_result(2) by (cases c) (fastforce simp: store_defs)
next
  case (3 c k v s e s')
  then show ?case using same_viewD(1) [OF SetRaw_result(1)]
    by (cases c) (fastforce simp: store_defs fun_eq_iff)
next
  case (4 c k v s u s')
  obtain st content schedule where c: "c = (st, content, schedule)" by (cases c)
  with 4 show ?case
    using entry_upd_view [OF SetRaw_result(2) [of st content schedule k v s "Inr u" s' u]]
    by (simp add: store_defs [abs_def])
next
  case (5 c k s e s')
  then show ?case using same_viewD(1) [OF Delete_result(1)]
    by (cases c) (fastforce simp: store_defs fun_eq_iff)
next
  case (6 c k s u s')
  obtain st content schedule where c: "c = (st, content, schedule)" by (cases c)
  with 6 show ?case
    using entry_upd_view [OF Delete_result(2) [of st content schedule k s "Inr u" s' u]]
    by (simp add: store_defs [abs_def])
qed

section \<open>First write wins\<close>

text \<open>
  C29: The checkpoint keeps the true original: once a replica count has been recorded for a
  workload, then after any further sequence of \<open>SetRaw\<close> calls (on any key, with any value, each
  succeeding or failing) every \<open>Get\<close> that answers returns exactly the count recorded first, as
  the same 32-bit integer.
\<close>

theorem checkpoint_keeps_original:
  assumes laws: "kube_laws (sr_Client st) content"
    and "entry st schedule key (content (st_api s)) = None"
    and "Set_replicas st schedule key n s = (Inr (), s1)"
    and "Get st schedule key (foldl (\<lambda>s (k, v). snd (SetRaw st schedule k v s)) s1 later) = (Inr x, s2)"
  shows "x = Some n"
proof -
  let ?c = "(st, content, schedule)" and ?s = "foldl (\<lambda>s (k, v). snd (SetRaw st schedule k v s)) s1 later"
  obtain raw t where g: "GetRaw st schedule key ?s = (Inr raw, t)"
    and x: "x = map_option (\<lambda>r. word_of_int (the (ParseInt 32 r))) raw"
    using assms(4) by (auto simp: Get_def prog_simps split: prod.splits sum.splits option.splits)
  have "raw = Some (FormatInt (sint n))"
  proof (rule store_map.first_put_wins [of ?c key "FormatInt (sint n)" s "()" s1 later raw t])
    show "store_get ?c key (foldl (\<lambda>s (j, u). snd (store_put ?c j u s)) s1 later) = (Inr raw, t)"
      using g by (simp add: store_defs)
  qed (use assms in \<open>simp_all add: store_defs Set_replicas_def\<close>)
  then show ?thesis by (simp add: x)
qed

definition mem_store :: "mem store" where
  "mem_store = \<lparr>sr_Client = mem_client, sr_Namespace = ''nyx-system''\<rparr>"

definition calm_store :: "mem store" where
  "calm_store = \<lparr>sr_Client = calm_client, sr_Namespace = ''nyx-system''\<rparr>"

lemma mem_store_laws: "kube_laws (sr_Client mem_store) mem_content"
  by (simp add: mem_store_def mem_kube_laws)

lemma calm_store_laws:
  "kube_laws (sr_Client calm_store) mem_content" "kube_healthy (sr_Client calm_store) mem_content"
  by (simp_all add: calm_store_def calm_kube_laws calm_kube_healthy)

lemma result_split: "fst p = r \<Longrightarrow> p = (r, snd p)"
  by (cases p) simp

theorem checkpoint_keeps_original_witness:
  "fst (Get mem_store office_hours ''k''
     (snd (SetRaw mem_store office_hours ''k'' ''9''
       (snd (Set_replicas mem_store office_hours ''k'' 3 (mem_state empty_mem)))))) = Inr (Some 3)"
proof -
  let ?s1 = "snd (Set_replicas mem_store office_hours ''k'' 3 (mem_state empty_mem))"
  let ?g = "Get mem_store office_hours ''k'' (snd (SetRaw mem_store office_hours ''k'' ''9'' ?s1))"
  have none: "entry mem_store office_hours ''k'' (mem_content (st_api (mem_state empty_mem))) = None"
    by code_simp
  have "fst (Set_replicas mem_store office_hours ''k'' 3 (mem_state empty_mem)) = Inr ()" by code_simp
  note set = result_split [OF this]
  have "case fst ?g of Inl _ \<Rightarrow> False | Inr _ \<Rightarrow> True" by code_simp
  then obtain x where x: "fst ?g = Inr x" by (cases "fst ?g") auto
  have "foldl (\<lambda>s (k, v). snd (SetRaw mem_store office_hours k v s)) ?s1 [(''k'', ''9'')]
      = snd (SetRaw mem_store office_hours ''k'' ''9'' ?s1)" by simp
  with checkpoint_keeps_original [OF mem_store_laws none set, of "[(''k'', ''9'')]" x "snd ?g"] x
  have "x = Some 3" by (metis prod.collapse)
  with x show ?thesis by simp
qed

section \<open>Stale reads and concurrent writers\<close>

text \<open>
  What optimistic concurrency gives when reads come from a cache: a read returns some earlier
  version; a create succeeds only where there is no Secret, an update only against the version it
  names; and around every call other actors may act, in the ways \<open>interfere\<close> allows.
\<close>

definition secret_occ ::
  "'w kube \<Rightarrow> ('w \<Rightarrow> cluster) \<Rightarrow> ('w \<Rightarrow> secret \<Rightarrow> bool) \<Rightarrow> ('w \<Rightarrow> 'w \<Rightarrow> bool) \<Rightarrow> bool"
where
  "secret_occ c content past interfere \<longleftrightarrow>
     (\<forall>w w' s. interfere w w' \<longrightarrow> past w s \<longrightarrow> past w' s)
     \<and> (\<forall>w s t. past w s \<longrightarrow> find_secret (content w) (sec_Namespace s) (sec_Name s) = Some t \<longrightarrow>
          sec_Version s = sec_Version t \<longrightarrow> sec_Data s = sec_Data t)
     \<and> (\<forall>ns n w r w'. k_get_secret c ns n w = (r, w') \<longrightarrow> interfere w w'
          \<and> (\<forall>s. r = Inr s \<longrightarrow> past w' s \<and> sec_Namespace s = ns \<and> sec_Name s = n))
     \<and> (\<forall>s w e w'. k_create_secret c s w = (Inl e, w') \<longrightarrow> interfere w w')
     \<and> (\<forall>s w u w'. k_create_secret c s w = (Inr u, w') \<longrightarrow>
          (\<exists>w1 w2. interfere w w1 \<and> create_secret_effect s (content w1) (content w2) \<and> interfere w2 w'))
     \<and> (\<forall>s w e w'. k_update_secret c s w = (Inl e, w') \<longrightarrow> interfere w w')
     \<and> (\<forall>s w u w'. k_update_secret c s w = (Inr u, w') \<longrightarrow>
          (\<exists>w1 w2. interfere w w1 \<and> update_secret_effect s (content w1) (content w2) \<and> interfere w2 w'))"

lemma secret_occD:
  assumes "secret_occ c content past interfere"
  shows "interfere w w' \<Longrightarrow> past w sec \<Longrightarrow> past w' sec"
    and "past w sec \<Longrightarrow> find_secret (content w) (sec_Namespace sec) (sec_Name sec) = Some t \<Longrightarrow>
      sec_Version sec = sec_Version t \<Longrightarrow> sec_Data sec = sec_Data t"
    and "k_get_secret c ns n w = (r, w') \<Longrightarrow> interfere w w'"
    and "k_get_secret c ns n w = (Inr sec, w') \<Longrightarrow> past w' sec \<and> sec_Namespace sec = ns \<and> sec_Name sec = n"
    and "k_create_secret c sec w = (Inl e, w') \<Longrightarrow> interfere w w'"
    and "k_create_secret c sec w = (Inr u, w') \<Longrightarrow>
      \<exists>w1 w2. interfere w w1 \<and> create_secret_effect sec (content w1) (content w2) \<and> interfere w2 w'"
    and "k_update_secret c sec w = (Inl e, w') \<Longrightarrow> interfere w w'"
    and "k_update_secret c sec w = (Inr u, w') \<Longrightarrow>
      \<exists>w1 w2. interfere w w1 \<and> update_secret_effect sec (content w1) (content w2) \<and> interfere w2 w'"
proof -
  note d = assms [unfolded secret_occ_def, THEN conjunct1] 
    assms [unfolded secret_occ_def, THEN conjunct2]
  note d2 = d(2) [THEN conjunct1] d(2) [THEN conjunct2]
  note d3 = d2(2) [THEN conjunct1] d2(2) [THEN conjunct2]
  note d4 = d3(2) [THEN conjunct1] d3(2) [THEN conjunct2]
  note d5 = d4(2) [THEN conjunct1] d4(2) [THEN conjunct2]
  note d6 = d5(2) [THEN conjunct1] d5(2) [THEN conjunct2]
  show "interfere w w' \<Longrightarrow> past w sec \<Longrightarrow> past w' sec" using d(1) by simp
  show "past w sec \<Longrightarrow> find_secret (content w) (sec_Namespace sec) (sec_Name sec) = Some t \<Longrightarrow>
      sec_Version sec = sec_Version t \<Longrightarrow> sec_Data sec = sec_Data t" using d2(1) by simp
  show "k_get_secret c ns n w = (r, w') \<Longrightarrow> interfere w w'" using d3(1) by simp
  show "k_get_secret c ns n w = (Inr sec, w') \<Longrightarrow> past w' sec \<and> sec_Namespace sec = ns \<and> sec_Name sec = n"
    using d3(1) by simp
  show "k_create_secret c sec w = (Inl e, w') \<Longrightarrow> interfere w w'" using d4(1) by simp
  show "k_create_secret c sec w = (Inr u, w') \<Longrightarrow>
      \<exists>w1 w2. interfere w w1 \<and> create_secret_effect sec (content w1) (content w2) \<and> interfere w2 w'"
    using d5(1) by simp
  show "k_update_secret c sec w = (Inl e, w') \<Longrightarrow> interfere w w'" using d6(1) by simp
  show "k_update_secret c sec w = (Inr u, w') \<Longrightarrow>
      \<exists>w1 w2. interfere w w1 \<and> update_secret_effect sec (content w1) (content w2) \<and> interfere w2 w'"
    using d6(2) by simp
qed

text \<open>A client with fresh reads and no other actor is the special case.\<close>

lemma get_law_result:
  "get_law content look get \<Longrightarrow> get ns n w = (r, w') \<Longrightarrow>
   content w' = content w \<and> (\<forall>x. r = Inr x \<longrightarrow> look (content w) ns n = Some x)"
  unfolding get_law_def by (drule spec [of _ ns], drule spec [of _ n], drule spec [of _ w]) auto

lemma write_law_result:
  "write_law content eff op \<Longrightarrow> op w = (r, w') \<Longrightarrow>
   (\<forall>e. r = Inl e \<longrightarrow> content w' = content w) \<and> (\<forall>u. r = Inr u \<longrightarrow> eff (content w) (content w'))"
  unfolding write_law_def by (drule spec [of _ w]) auto

lemma kube_laws_occ:
  assumes "kube_laws c content"
  shows "secret_occ c content
    (\<lambda>w s. find_secret (content w) (sec_Namespace s) (sec_Name s) = Some s)
    (\<lambda>w w'. content w' = content w)"
  unfolding secret_occ_def
proof (intro conjI allI impI)
  fix ns n w r w' s
  assume h: "k_get_secret c ns n w = (r, w')"
  note g = get_law_result [OF kube_lawsD(3) [OF assms] h]
  then show "content w' = content w" by simp
  assume "r = Inr s"
  with g have f: "find_secret (content w) ns n = Some s" by simp
  with found_secret_key [OF assms f] g
  show "find_secret (content w') (sec_Namespace s) (sec_Name s) = Some s"
    "sec_Namespace s = ns" "sec_Name s = n" by simp_all
next
  fix s w u w' assume "k_create_secret c s w = (Inr u, w')"
  from write_law_result [OF kube_lawsD(4) [OF assms] this]
  show "\<exists>w1 w2. content w1 = content w \<and> create_secret_effect s (content w1) (content w2)
      \<and> content w' = content w2" by auto
next
  fix s w u w' assume "k_update_secret c s w = (Inr u, w')"
  from write_law_result [OF kube_lawsD(5) [OF assms] this]
  show "\<exists>w1 w2. content w1 = content w \<and> update_secret_effect s (content w1) (content w2)
      \<and> content w' = content w2" by auto
next
  fix s w e w' assume "k_create_secret c s w = (Inl e, w')"
  from write_law_result [OF kube_lawsD(4) [OF assms] this] show "content w' = content w" by auto
next
  fix s w e w' assume "k_update_secret c s w = (Inl e, w')"
  from write_law_result [OF kube_lawsD(5) [OF assms] this] show "content w' = content w" by auto
qed auto

lemma occ_update_keeps:
  assumes "secret_occ c content past interfere" and "past w1 sec"
    and "update_secret_effect (sec\<lparr>sec_Data := map_put key v (sec_Data sec)\<rparr>) (content w1) (content w2)"
    and "map_of (sec_Data sec) key = None"
    and "secret_entry (content w1) ns n k = Some x"
  shows "secret_entry (content w2) ns n k = Some x"
proof -
  obtain t where t: "find_secret (content w1) (sec_Namespace sec) (sec_Name sec) = Some t"
    "sec_Version t = sec_Version sec"
    and w2: "\<exists>u. content w2 = put_secret (sec\<lparr>sec_Data := map_put key v (sec_Data sec), sec_Version := u\<rparr>) (content w1)"
    using assms(3) by (auto simp: update_secret_effect_def)
  have d: "sec_Data sec = sec_Data t" using secret_occD(2) [OF assms(1,2) t(1)] t(2) by simp
  show ?thesis
  proof (cases "ns = sec_Namespace sec \<and> n = sec_Name sec")
    case True
    then have "map_of (sec_Data sec) k = Some x" using assms(5) t d by (simp add: secret_entry_def)
    moreover from this have "k \<noteq> key" using assms(4) by auto
    ultimately show ?thesis using True w2 by (auto simp: secret_entry_put)
  next
    case False
    then show ?thesis using w2 assms(5) by (auto simp: secret_entry_put)
  qed
qed

text \<open>One attempt of \<open>SetRaw\<close> keeps every recorded entry of every Secret.\<close>

lemma SetRaw_once_keeps:
  assumes occ: "secret_occ (sr_Client st) content past interfere"
    and rely: "\<forall>w w'. interfere w w' \<longrightarrow> secret_entry (content w) ns n k = Some x \<longrightarrow>
      secret_entry (content w') ns n k = Some x"
    and "secret_entry (content (st_api s)) ns n k = Some x"
  shows "secret_entry (content (st_api (snd (SetRaw_once st schedule key v s)))) ns n k = Some x"
proof -
  let ?c = "sr_Client st"
  obtain r w where g: "k_get_secret ?c (sr_Namespace st) (secretName schedule) (st_api s) = (r, w)"
    by fastforce
  note rely = rely [rule_format]
  have p: "past w sec" if "r = Inr sec" for sec
    using secret_occD(4) [OF occ] g that by blast
  have x: "secret_entry (content w) ns n k = Some x"
    using rely secret_occD(3) [OF occ g] assms(3) .
  have create: "secret_entry (content w') ns n k = Some x"
    if crt: "k_create_secret ?c (new_checkpoint_secret st schedule key v) w = (q, w')" for q w'
  proof (cases q)
    case (Inl e)
    then have "interfere w w'" using secret_occD(5) [OF occ] crt by blast
    then show ?thesis using rely x by blast
  next
    case (Inr u)
    then obtain w1 w2 where h: "interfere w w1" "interfere w2 w'"
      "create_secret_effect (new_checkpoint_secret st schedule key v) (content w1) (content w2)"
      using secret_occD(6) [OF occ] crt by blast
    have "secret_entry (content w2) ns n k = Some x"
      using created_entry [OF h(3)] rely [OF h(1) x] by (auto simp: entry_upd_def)
    then show ?thesis using rely h(2) by blast
  qed
  have update: "secret_entry (content w') ns n k = Some x"
    if upd: "k_update_secret ?c (sec\<lparr>sec_Data := map_put key v (sec_Data sec)\<rparr>) w = (q, w')"
      and h0: "r = Inr sec" "map_of (sec_Data sec) key = None" for q w' sec
  proof (cases q)
    case (Inl e)
    then have "interfere w w'" using secret_occD(7) [OF occ] upd by blast
    then show ?thesis using rely x by blast
  next
    case (Inr u)
    then obtain w1 w2 where h: "interfere w w1" "interfere w2 w'"
      "update_secret_effect (sec\<lparr>sec_Data := map_put key v (sec_Data sec)\<rparr>) (content w1) (content w2)"
      using secret_occD(8) [OF occ] upd by blast
    have "past w1 sec" using secret_occD(1) [OF occ h(1)] p [OF h0(1)] by blast
    from rely [OF h(2) occ_update_keeps [OF occ this h(3) h0(2) rely [OF h(1) x]]] show ?thesis .
  qed
  show ?thesis
    using g x create update
    by (cases r) (auto simp: SetRaw_once_def prog_simps split: prod.split sum.split)
qed

text \<open>
  C30: No recorded original is ever overwritten, even with stale reads and concurrent writers:
  provided the other actors leave an entry alone, a \<open>SetRaw\<close> on any key, for any schedule, with
  any outcome and any number of retries, leaves it alone too. (A stale read that shows no Secret
  or no key ends in a refused create or update.)
\<close>

theorem SetRaw_never_clobbers:
  fixes content :: "'w \<Rightarrow> cluster"
  assumes "secret_occ (sr_Client st) content past interfere" and "retry_law (sr_Client st)"
    and "\<forall>w w'. interfere w w' \<longrightarrow> secret_entry (content w) ns n k = Some x \<longrightarrow>
      secret_entry (content w') ns n k = Some x"
    and "secret_entry (content (st_api s)) ns n k = Some x"
  shows "secret_entry (content (st_api (snd (SetRaw st schedule key v s)))) ns n k = Some x"
proof -
  let ?I = "\<lambda>s :: 'w state. secret_entry (content (st_api s)) ns n k = Some x"
  have "wp (SetRaw st schedule key v) (\<lambda>r s'. ?I s') s"
    unfolding SetRaw_def
  proof (rule wp_retry [OF assms(2), where I = ?I])
    fix t assume "?I t"
    from SetRaw_once_keeps [OF assms(1,3) this, of schedule key v]
    show "wp (SetRaw_once st schedule key v)
        (\<lambda>r s'. case r of Inl e \<Rightarrow> ?I s' \<and> ?I s' | Inr u \<Rightarrow> ?I s') t"
      by (cases "SetRaw_once st schedule key v t") (simp add: wp_def split: sum.split)
  qed (rule assms(4))
  then show ?thesis by (auto simp: wp_def split: prod.splits)
qed

definition slept_mem :: mem where
  "slept_mem = empty_mem\<lparr>mm_secrets := [\<lparr>sec_Name = ''office-checkpoint'', sec_Namespace = ''nyx-system'',
     sec_Labels = [], sec_Data = [(''k'', ''3'')], sec_Version = 7\<rparr>], mm_version := 7\<rparr>"

theorem SetRaw_never_clobbers_witness:
  "secret_entry (mem_content (st_api (snd (SetRaw mem_store office_hours ''k'' ''0'' (mem_state slept_mem)))))
     ''nyx-system'' ''office-checkpoint'' ''k'' = Some ''3''"
proof (rule SetRaw_never_clobbers [OF kube_laws_occ [OF mem_store_laws] kube_lawsD(18) [OF mem_store_laws]])
  show "secret_entry (mem_content (st_api (mem_state slept_mem))) ''nyx-system'' ''office-checkpoint'' ''k''
      = Some ''3''" by code_simp
qed simp

section \<open>Clearing an entry\<close>

text \<open>
  C31: Clearing a checkpoint is exact: when \<open>Delete\<close> succeeds, the entry is gone, every other entry
  of every Secret and every workload, ConfigMap and schedule is as before, and if that was the
  last entry the Secret itself is gone; when it fails, nothing has changed.
\<close>

theorem Delete_entry_exact:
  assumes "kube_laws (sr_Client st) content" and "Delete_entry st schedule key s = (r, s')"
  shows "case r of
      Inl e \<Rightarrow> content (st_api s') = content (st_api s)
    | Inr u \<Rightarrow> entry_upd st schedule key None (content (st_api s)) (content (st_api s'))
        \<and> (entry st schedule key (content (st_api s)) \<noteq> None
           \<and> (\<forall>k. entry st schedule k (content (st_api s')) = None) \<longrightarrow>
           find_secret (content (st_api s')) (sr_Namespace st) (secretName schedule) = None)"
proof (cases r)
  case (Inl e)
  with same_viewD(1) [OF Delete_result(1) [OF assms Inl]] show ?thesis by simp
next
  case (Inr u)
  with Delete_result(2,3) [OF assms Inr] show ?thesis by auto
qed

theorem Delete_entry_exact_witness:
  "find_secret (mem_content (st_api (snd (Delete_entry mem_store office_hours ''k'' (mem_state slept_mem)))))
     ''nyx-system'' ''office-checkpoint'' = None"
proof -
  let ?p = "Delete_entry mem_store office_hours ''k'' (mem_state slept_mem)"
  have "fst ?p = Inr ()" by code_simp
  note p = result_split [OF this]
  have e: "entry mem_store office_hours ''k'' (mem_content (st_api (mem_state slept_mem))) = Some ''3''"
    by code_simp
  have n: "sr_Namespace mem_store = ''nyx-system''" "secretName office_hours = ''office-checkpoint''"
    by code_simp+
  have o: "secret_entry (mem_content (st_api (mem_state slept_mem))) ''nyx-system'' ''office-checkpoint'' k = None"
    if "k \<noteq> ''k''" for k
    using that by (simp add: slept_mem_def mem_state_def mem_content_def secret_entry_def
        find_secret_def secret_at_def)
  show ?thesis
    using Delete_entry_exact [OF mem_store_laws p] e o unfolding n
    by (simp add: entry_upd_def n)
qed

section \<open>Keys\<close>

lemma split_at_underscore:
  assumes "x @ CHR ''_'' # r = y @ CHR ''_'' # r'" and "CHR ''_'' \<notin> set x" and "CHR ''_'' \<notin> set y"
  shows "x = y \<and> r = r'"
proof -
  have t: "takeWhile (\<lambda>c. c \<noteq> CHR ''_'') (z @ CHR ''_'' # q) = z" if "CHR ''_'' \<notin> set z" for z q
    using that by (induction z) auto
  from t [OF assms(2), of r] t [OF assms(3), of r'] assms(1) have "x = y" by simp
  with assms(1) show ?thesis by simp
qed

lemma Key_parts:
  assumes "Key kind ns name uid = Key kind' ns' name' uid'"
    and "\<forall>x \<in> {kind, ns, name, kind', ns', name'}. CHR ''_'' \<notin> set x"
  shows "kind = kind'" and "ns = ns'" and "name = name'" and "uid = uid'"
proof -
  have k: "kind @ CHR ''_'' # (ns @ CHR ''_'' # (name @ CHR ''_'' # uid))
      = kind' @ CHR ''_'' # (ns' @ CHR ''_'' # (name' @ CHR ''_'' # uid'))"
    using assms(1) by (simp add: Key_def)
  from split_at_underscore [OF k] assms(2) have a: "kind = kind'"
    and n: "ns @ CHR ''_'' # (name @ CHR ''_'' # uid) = ns' @ CHR ''_'' # (name' @ CHR ''_'' # uid')"
    by auto
  from split_at_underscore [OF n] assms(2) have b: "ns = ns'"
    and m: "name @ CHR ''_'' # uid = name' @ CHR ''_'' # uid'" by auto
  from split_at_underscore [OF m] assms(2) have c: "name = name'" "uid = uid'" by auto
  show "kind = kind'" "ns = ns'" "name = name'" "uid = uid'" by (fact a b c)+
qed

text \<open>
  C32: Checkpoint keys identify workloads: Kubernetes kinds, namespaces and names have no
  underscore, so two workloads with the same key agree in kind, namespace, name and UID. A
  recreated workload (a new UID) never meets the checkpoint of its predecessor.
\<close>

theorem Key_injective:
  assumes "Key kind ns name uid = Key kind' ns' name' uid'"
    and "\<forall>x \<in> {kind, ns, name, kind', ns', name'}. CHR ''_'' \<notin> set x"
  shows "kind = kind' \<and> ns = ns' \<and> name = name' \<and> uid = uid'"
  using Key_parts [OF assms] by simp

theorem Key_injective_witness:
  "Key ''Deployment'' ''dev'' ''web'' ''u_1'' = ''apps_v1_Deployment_dev_web_u_1''
   \<and> (''Deployment'', ''dev'', ''web'', ''u_1'') = (''Deployment'', ''dev'', ''web'', ''u_1'')"
proof -
  have "Key ''Deployment'' ''dev'' ''web'' ''u_1'' = ''apps_v1_Deployment_dev_web_u_1''" by code_simp
  moreover have "\<forall>x \<in> {''Deployment'', ''dev'', ''web'', ''Deployment'', ''dev'', ''web''}.
      CHR ''_'' \<notin> set x" by simp
  from Key_injective [OF refl this] have "(''u_1'' :: string) = ''u_1''" by simp
  ultimately show ?thesis by simp
qed

section \<open>A healthy API\<close>

lemma retry_succeeds:
  assumes "retry_law c" and "fst (f s) = Inr ()"
  shows "k_retry c retriable f s = f s"
proof -
  obtain n where n: "k_retry c retriable f s = retry_times n retriable f s"
    using assms(1) unfolding retry_law_def by blast
  show ?thesis unfolding n using assms(2) by (cases n; cases "f s") auto
qed

lemma SetRaw_once_total:
  assumes laws: "kube_laws (sr_Client st) content" and h: "kube_healthy (sr_Client st) content"
  shows "fst (SetRaw_once st schedule key v s) = Inr ()"
proof -
  have "wp (SetRaw_once st schedule key v) (\<lambda>r s'. r = Inr ()) s"
    unfolding SetRaw_once_def wp_try
  proof (rule wp_call_get_total [OF kube_lawsD(3) [OF laws] kube_healthyD(3) [OF h]])
    fix s' assume v: "same_view content s s'"
      and none: "find_secret (content (st_api s)) (sr_Namespace st) (secretName schedule) = None"
    have "wp (call (k_create_secret (sr_Client st) (new_checkpoint_secret st schedule key v)))
        (\<lambda>r s'. r = Inr ()) s'"
      by (rule wp_call_write_total [OF kube_lawsD(4) [OF laws] kube_healthyD(4) [OF h]])
        (use none same_viewD(1) [OF v] in \<open>simp_all add: new_checkpoint_secret_def\<close>)
    then show "wp (case Inl (ApiError NotFound) of
         Inl e \<Rightarrow> if isNotFound e
           then call (k_create_secret (sr_Client st) (new_checkpoint_secret st schedule key v))
           else throw_p e
       | Inr sec \<Rightarrow>
           if map_of (sec_Data sec) key \<noteq> None then return_p ()
           else call (k_update_secret (sr_Client st) (sec\<lparr>sec_Data := map_put key v (sec_Data sec)\<rparr>)))
        (\<lambda>r s'. r = Inr ()) s'"
      by (simp add: isNotFound_def)
  next
    fix sec s' assume v: "same_view content s s'"
      and f: "find_secret (content (st_api s)) (sr_Namespace st) (secretName schedule) = Some sec"
    note k = found_secret_key [OF laws f]
    have "wp (call (k_update_secret (sr_Client st) (sec\<lparr>sec_Data := map_put key v (sec_Data sec)\<rparr>)))
        (\<lambda>r s'. r = Inr ()) s'"
      by (rule wp_call_write_total [OF kube_lawsD(5) [OF laws] kube_healthyD(5) [OF h]])
        (use f k same_viewD(1) [OF v] in simp_all)
    then show "wp (case Inr sec of
         Inl e \<Rightarrow> if isNotFound e
           then call (k_create_secret (sr_Client st) (new_checkpoint_secret st schedule key v))
           else throw_p e
       | Inr sec \<Rightarrow>
           if map_of (sec_Data sec) key \<noteq> None then return_p ()
           else call (k_update_secret (sr_Client st) (sec\<lparr>sec_Data := map_put key v (sec_Data sec)\<rparr>)))
        (\<lambda>r s'. r = Inr ()) s'"
      by (simp add: wp_simps)
  qed
  then show ?thesis by (cases "SetRaw_once st schedule key v s") (simp add: wp_def)
qed

lemma SetRaw_total:
  assumes "kube_laws (sr_Client st) content" and "kube_healthy (sr_Client st) content"
  obtains s' where "SetRaw st schedule key v s = (Inr (), s')"
proof -
  have "SetRaw st schedule key v s = SetRaw_once st schedule key v s"
    unfolding SetRaw_def
    by (rule retry_succeeds [OF kube_lawsD(18) [OF assms(1)] SetRaw_once_total [OF assms]])
  with SetRaw_once_total [OF assms] that show thesis
    by (cases "SetRaw_once st schedule key v s") (metis fst_conv)
qed

lemma GetRaw_total:
  assumes laws: "kube_laws (sr_Client st) content" and h: "kube_healthy (sr_Client st) content"
  obtains s' where "GetRaw st schedule key s = (Inr (entry st schedule key (content (st_api s))), s')"
proof -
  have "wp (GetRaw st schedule key)
      (\<lambda>r s'. r = Inr (entry st schedule key (content (st_api s)))) s"
    unfolding GetRaw_def wp_try
    by (rule wp_call_get_total [OF kube_lawsD(3) [OF laws] kube_healthyD(3) [OF h]])
      (auto simp: wp_simps isNotFound_def secret_entry_def)
  then show thesis using that by (cases "GetRaw st schedule key s") (simp add: wp_def)
qed

text \<open>
  C33: With an API that answers, the round trip completes: \<open>Set\<close> of any 32-bit count succeeds, and
  \<open>Get\<close> then succeeds and returns the count that was recorded first (this one if none was).
\<close>

theorem checkpoint_round_trip:
  assumes "kube_laws (sr_Client st) content" and "kube_healthy (sr_Client st) content"
    and "entry st schedule key (content (st_api s)) = map_option (\<lambda>m. FormatInt (sint m)) old"
  shows "\<exists>s1 s2. Set_replicas st schedule key n s = (Inr (), s1)
    \<and> Get st schedule key s1 = (Inr (Some (case old of None \<Rightarrow> n | Some m \<Rightarrow> m)), s2)"
proof -
  obtain s1 where s1: "SetRaw st schedule key (FormatInt (sint n)) s = (Inr (), s1)"
    using SetRaw_total [OF assms(1,2)] .
  obtain s2 where s2: "GetRaw st schedule key s1 = (Inr (entry st schedule key (content (st_api s1))), s2)"
    using GetRaw_total [OF assms(1,2)] .
  have "entry st schedule key (content (st_api s1)) =
      Some (FormatInt (sint (case old of None \<Rightarrow> n | Some m \<Rightarrow> m)))"
    using SetRaw_result(2) [OF assms(1) s1 refl] assms(3)
    by (auto simp: entry_upd_def split: option.splits)
  with s1 s2 show ?thesis by (simp add: Set_replicas_def Get_def prog_simps)
qed

theorem checkpoint_round_trip_witness:
  "\<exists>s1 s2. Set_replicas calm_store office_hours ''k'' (- 5) (mem_state empty_mem) = (Inr (), s1)
    \<and> Get calm_store office_hours ''k'' s1 = (Inr (Some (- 5)), s2)"
proof -
  have "entry calm_store office_hours ''k'' (mem_content (st_api (mem_state empty_mem))) = None"
    by code_simp
  then show ?thesis
    using checkpoint_round_trip [OF calm_store_laws, where old = None and n = "- 5"] by simp
qed

section \<open>What the store does not give\<close>

text \<open>
  The Secret is named after the schedule's name alone: two schedules of the same name in
  different namespaces share one Secret.
\<close>

lemma same_name_shares_secret:
  "secretName (office_hours\<lparr>ss_Namespace := ''team-b''\<rparr>) = secretName office_hours
   \<and> ss_Namespace (office_hours\<lparr>ss_Namespace := ''team-b''\<rparr>) \<noteq> ss_Namespace office_hours"
  by code_simp

text \<open>
  A client whose cached read still shows the Secret with one entry, while another entry has been
  written since: \<open>Delete\<close> of the one entry takes the branch for the last entry, and the
  unconditional delete of the Secret destroys the other original. An \<open>Update\<close> would have been
  refused with a conflict.
\<close>

definition stale_store :: "mem store" where
  "stale_store = calm_store\<lparr>sr_Client := calm_client\<lparr>k_get_secret := (\<lambda>ns n m.
     (Inr \<lparr>sec_Name = n, sec_Namespace = ns, sec_Labels = [], sec_Data = [(''a'', ''3'')],
           sec_Version = 1\<rparr>, m))\<rparr>\<rparr>"

definition two_entries :: mem where
  "two_entries = empty_mem\<lparr>mm_secrets := [\<lparr>sec_Name = ''office-checkpoint'', sec_Namespace = ''nyx-system'',
     sec_Labels = [], sec_Data = [(''a'', ''3''), (''b'', ''5'')], sec_Version = 2\<rparr>], mm_version := 2\<rparr>"

text \<open>
  C38: \<open>Delete\<close> through a stale read loses other originals: when the read of the first attempt shows an
  earlier version of the Secret, one with no entry but the one to be deleted, \<open>Delete\<close> reports success
  and the Secret is gone, with every entry that has been written since. That holds for any API that
  deletes what it is told to, whatever the Secret holds by now.
\<close>

theorem stale_delete_loses_entry:
  assumes "\<forall>sc. write_law content (delete_secret_effect sc) (k_delete_secret (sr_Client st) sc)"
    and "\<forall>sc. write_total content (\<lambda>cl. find_secret cl (sec_Namespace sc) (sec_Name sc) \<noteq> None)
      (k_delete_secret (sr_Client st) sc)"
    and "retry_law (sr_Client st)"
    and "k_get_secret (sr_Client st) (sr_Namespace st) (secretName schedule) (st_api s) = (Inr sec, w)"
    and "content w = content (st_api s)"
    and "sec_Namespace sec = sr_Namespace st" and "sec_Name sec = secretName schedule"
    and "map_of (sec_Data sec) key \<noteq> None" and "\<forall>k. k \<noteq> key \<longrightarrow> map_of (sec_Data sec) k = None"
    and "other \<noteq> key" and "entry st schedule other (content (st_api s)) = Some original"
  shows "\<exists>s'. Delete_entry st schedule key s = (Inr (), s')
    \<and> (\<forall>k. entry st schedule k (content (st_api s')) = None)"
proof -
  let ?sec = "sec\<lparr>sec_Data := map_del key (sec_Data sec)\<rparr>"
  have empty: "length (sec_Data ?sec) = 0" using assms(9) by (simp add: map_del_Nil_iff)
  have there: "find_secret (content w) (sec_Namespace ?sec) (sec_Name ?sec) \<noteq> None"
    using assms(5-7,11) by (auto simp: secret_entry_def split: option.splits)
  let ?Q = "\<lambda>r s'. r = Inr () \<and> (\<forall>k. entry st schedule k (content (st_api s')) = None)"
  have "wp (call (k_delete_secret (sr_Client st) ?sec)) ?Q (s\<lparr>st_api := w\<rparr>)"
    by (rule wp_call_write_total [OF assms(1) [rule_format] assms(2) [rule_format]])
      (use there assms(6,7) in \<open>auto simp: delete_secret_effect_def secret_entry_def find_secret_def\<close>)
  then have del: "wp (ignoreNotFound (call (k_delete_secret (sr_Client st) ?sec))) ?Q (s\<lparr>st_api := w\<rparr>)"
    unfolding wp_ignoreNotFound by (rule wp_mono) simp
  have read: "wp (call (k_get_secret (sr_Client st) (sr_Namespace st) (secretName schedule))) Q s
      = Q (Inr sec) (s\<lparr>st_api := w\<rparr>)" for Q
    by (simp add: wp_def call_def assms(4))
  have "wp (Delete_once st schedule key) ?Q s"
    unfolding Delete_once_def wp_try read sum.case Let_def if_not_P [OF assms(8)] if_P [OF empty] by (rule del)
  then obtain s' where "Delete_once st schedule key s = (Inr (), s')"
    "\<forall>k. entry st schedule k (content (st_api s')) = None" by (auto simp: wp_def split: prod.splits)
  with retry_succeeds [OF assms(3), of "Delete_once st schedule key" s isTransientWrite] show ?thesis
    unfolding Delete_entry_def by simp
qed

theorem stale_delete_loses_entry_witness:
  "entry stale_store office_hours ''b'' (mem_content two_entries) = Some ''5''
   \<and> (\<exists>s'. Delete_entry stale_store office_hours ''a'' (mem_state two_entries) = (Inr (), s')
        \<and> entry stale_store office_hours ''b'' (mem_content (st_api s')) = None)"
proof -
  let ?sec = "\<lparr>sec_Name = secretName office_hours, sec_Namespace = sr_Namespace stale_store, sec_Labels = [],
    sec_Data = [(''a'', ''3'')], sec_Version = 1\<rparr>"
  have del: "k_delete_secret (sr_Client stale_store) = k_delete_secret calm_client"
    "k_retry (sr_Client stale_store) = k_retry calm_client" by (simp_all add: stale_store_def)
  have laws: "\<forall>sc. write_law mem_content (delete_secret_effect sc) (k_delete_secret (sr_Client stale_store) sc)"
    "\<forall>sc. write_total mem_content (\<lambda>cl. find_secret cl (sec_Namespace sc) (sec_Name sc) \<noteq> None)
      (k_delete_secret (sr_Client stale_store) sc)"
    unfolding del using kube_lawsD(6) [OF calm_kube_laws] kube_healthyD(6) [OF calm_kube_healthy] by blast+
  have retry: "retry_law (sr_Client stale_store)"
    using kube_lawsD(18) [OF calm_kube_laws] unfolding retry_law_def del .
  have read: "k_get_secret (sr_Client stale_store) (sr_Namespace stale_store) (secretName office_hours)
      (st_api (mem_state two_entries)) = (Inr ?sec, st_api (mem_state two_entries))"
    by (simp add: stale_store_def)
  have b: "entry stale_store office_hours ''b'' (mem_content (st_api (mem_state two_entries))) = Some ''5''"
    by code_simp
  have "\<exists>s'. Delete_entry stale_store office_hours ''a'' (mem_state two_entries) = (Inr (), s')
      \<and> (\<forall>k. entry stale_store office_hours k (mem_content (st_api s')) = None)"
    by (rule stale_delete_loses_entry [OF laws retry read refl _ _ _ _ _ b]) simp_all
  with b show ?thesis by (auto simp: mem_state_def)
qed

end
