(* ===== verification/Audit_Metrics.thy ===== *)
theory Audit_Metrics
  imports Kube_Api Go_Duration Go_RFC3339
begin

text \<open>
  \<open>internal/audit\<close> and \<open>internal/metrics\<close>: the attribution that travels on the context, the audit
  line and Event of an action, and the gauges and the counter per schedule. A nil recorder is the
  flag \<open>False\<close>; the context is the attribution it carries, if any.
\<close>

section \<open>audit.go\<close>

definition DefaultActor :: string where "DefaultActor = ''k8s-nyx''"

record audit_info =
  ai_Who :: string
  ai_Why :: string

type_synonym ctx = "audit_info option"

definition NewContext :: "ctx \<Rightarrow> audit_info \<Rightarrow> ctx" where
  "NewContext ctx info = Some info"

definition FromContext :: "ctx \<Rightarrow> audit_info" where
  "FromContext ctx =
     (let info = (case ctx of Some i \<Rightarrow> i | None \<Rightarrow> \<lparr>ai_Who = '''', ai_Why = ''''\<rparr>)
      in if ai_Who info = '''' then info\<lparr>ai_Who := DefaultActor\<rparr> else info)"

definition schedule_key :: "sleep_schedule \<Rightarrow> string \<times> string \<times> string" where
  "schedule_key ss = (''SleepSchedule'', ss_Namespace ss, ss_Name ss)"

definition push_event :: "string \<times> string \<times> string \<Rightarrow> string \<Rightarrow> string \<Rightarrow> string \<Rightarrow> ('w, unit) prog" where
  "push_event obj ty reason message s =
     (Inr (), s\<lparr>st_events := st_events s @ [\<lparr>ev_Object = obj, ev_Type = ty, ev_Reason = reason,
        ev_Message = message\<rparr>]\<rparr>)"

definition push_audit :: "audit_line \<Rightarrow> ('w, unit) prog" where
  "push_audit l s = (Inr (), s\<lparr>st_audit := st_audit s @ [l]\<rparr>)"

definition now_of :: "'w kube \<Rightarrow> ('w, instant) prog" where
  "now_of c s = (Inr (k_now c (st_api s)), s)"

definition Record ::
  "'w kube \<Rightarrow> ctx \<Rightarrow> bool \<Rightarrow> sleep_schedule \<Rightarrow> string \<Rightarrow> string \<Rightarrow> string \<Rightarrow> string \<Rightarrow> string
   \<Rightarrow> ('w, unit) prog"
where
  "Record c ctx rec schedule refKind refNamespace refName action message =
     (let info = FromContext ctx;
          objectRef = (if refKind \<noteq> '''' then refKind @ ''/'' @ refNamespace @ ''/'' @ refName else '''')
      in bind_p (now_of c) (\<lambda>now.
         bind_p (push_audit \<lparr>al_Action = action, al_Who = ai_Who info, al_Why = ai_Why info,
             al_When = Format_RFC3339_UTC now, al_ObjectRef = objectRef,
             al_SleepSchedule = ss_Namespace schedule @ ''/'' @ ss_Name schedule\<rparr>) (\<lambda>_.
         when_p rec (push_event (schedule_key schedule) ''Normal'' action
           (if objectRef \<noteq> '''' then message @ '' ['' @ objectRef @ '']'' else message)))))"

section \<open>metrics.go\<close>

text \<open>The values are nonnegative \<open>float64\<close>s, as \<^theory_text>\<open>Go_Duration\<close> represents them.\<close>

definition float_of_nat :: "nat \<Rightarrow> nat \<times> nat" where
  "float_of_nat n = float_div n 1"

text \<open>A count below \<open>2 ^ 53\<close> is exact, and evaluates at once.\<close>

lemma bit_size_le: "n < 2 ^ k \<Longrightarrow> bit_size n \<le> k"
proof (induction n arbitrary: k rule: bit_size.induct)
  case (1 n)
  show ?case
  proof (cases "n = 0")
    case False
    with "1.prems" obtain k' where k: "k = Suc k'" by (cases k) auto
    have "bit_size (n div 2) \<le> k'" by (rule "1.IH" [OF False]) (use "1.prems" k in simp)
    then show ?thesis using False k by (subst bit_size.simps) simp
  qed (simp add: bit_size.simps)
qed

lemma float_div_exact:
  assumes "n < 2 ^ 53"
  shows "float_div n 1 = (n * 2 ^ 56, 56)"
proof -
  define j where "j = bit_size (n * 2 ^ 56) - 53"
  have "n * 2 ^ 56 < 2 ^ 53 * 2 ^ 56" using assms by (intro mult_strict_right_mono) simp_all
  then have "n * 2 ^ 56 < 2 ^ (53 + 56)" by (simp only: power_add)
  from bit_size_le [OF this] have "j \<le> 56" by (simp add: j_def)
  then have "(2 :: nat) ^ j dvd 2 ^ 56" by (rule le_imp_power_dvd)
  then obtain m where m: "n * 2 ^ 56 = 2 ^ j * m" by (metis dvd_mult dvdE)
  have "div_nearest (n * 2 ^ 56) (2 ^ j) * 2 ^ j = n * 2 ^ 56"
    unfolding m by (simp add: div_nearest_def)
  moreover have "bit_size 1 = 1" by (simp add: bit_size.simps)
  ultimately show ?thesis by (simp add: float_div_def j_def Let_def del: power_Suc)
qed

lemma float_of_nat_code [code]:
  "float_of_nat n = (if n < 2 ^ 53 then (n * 2 ^ 56, 56) else float_div n 1)"
  using float_div_exact by (simp add: float_of_nat_def)

definition float_add :: "nat \<times> nat \<Rightarrow> nat \<times> nat \<Rightarrow> nat \<times> nat" where
  "float_add x y = float_div (fst x * 2 ^ snd y + fst y * 2 ^ snd x) (2 ^ (snd x + snd y))"

text \<open>\<open>Duration.Seconds\<close> of a nonnegative duration.\<close>

definition Duration_Seconds :: "duration \<Rightarrow> nat \<times> nat" where
  "Duration_Seconds d =
     float_add (float_div (nat (d div d_Second)) 1) (float_div (nat (d mod d_Second)) 1000000000)"

definition series_set :: "string \<times> string \<Rightarrow> nat \<times> nat \<Rightarrow> series \<Rightarrow> series" where
  "series_set lv x se = AList.update lv x se"

definition series_delete :: "string \<times> string \<Rightarrow> series \<Rightarrow> series" where
  "series_delete lv se = AList.delete lv se"

text \<open>The label values are (schedule, namespace), in this order.\<close>

definition metrics_Set ::
  "string \<Rightarrow> string \<Rightarrow> bool \<Rightarrow> nat \<Rightarrow> nat \<Rightarrow> nat \<times> nat \<Rightarrow> metrics \<Rightarrow> metrics"
where
  "metrics_Set namespace name asleep targetCount activeWakeCount overrideSecondsLeft mt =
     (let lv = (name, namespace);
          mt1 = (if asleep then
                   mt\<lparr>mt_targetsAsleep := series_set lv (float_of_nat targetCount) (mt_targetsAsleep mt),
                      mt_targetsAwake := series_set lv (float_of_nat 0) (mt_targetsAwake mt)\<rparr>
                 else
                   mt\<lparr>mt_targetsAsleep := series_set lv (float_of_nat 0) (mt_targetsAsleep mt),
                      mt_targetsAwake := series_set lv (float_of_nat targetCount) (mt_targetsAwake mt)\<rparr>)
      in mt1\<lparr>mt_activeWakes := series_set lv (float_of_nat activeWakeCount) (mt_activeWakes mt1),
             mt_overrideSecondsRemaining :=
               series_set lv overrideSecondsLeft (mt_overrideSecondsRemaining mt1)\<rparr>)"

definition metrics_IncRestoreFailure :: "string \<Rightarrow> string \<Rightarrow> metrics \<Rightarrow> metrics" where
  "metrics_IncRestoreFailure namespace name mt =
     (let lv = (name, namespace);
          old = (case map_of (mt_restoreFailures mt) lv of None \<Rightarrow> float_of_nat 0 | Some x \<Rightarrow> x)
      in mt\<lparr>mt_restoreFailures := series_set lv (float_add old (float_of_nat 1)) (mt_restoreFailures mt)\<rparr>)"

definition metrics_Delete :: "string \<Rightarrow> string \<Rightarrow> metrics \<Rightarrow> metrics" where
  "metrics_Delete namespace name mt =
     (let lv = (name, namespace)
      in mt\<lparr>mt_targetsAsleep := series_delete lv (mt_targetsAsleep mt),
            mt_targetsAwake := series_delete lv (mt_targetsAwake mt),
            mt_activeWakes := series_delete lv (mt_activeWakes mt),
            mt_overrideSecondsRemaining := series_delete lv (mt_overrideSecondsRemaining mt)\<rparr>)"

definition with_metrics :: "(metrics \<Rightarrow> metrics) \<Rightarrow> ('w, unit) prog" where
  "with_metrics f s = (Inr (), s\<lparr>st_metrics := f (st_metrics s)\<rparr>)"

section \<open>Facts\<close>

lemma push_defs [prog_simps]:
  "push_event obj ty reason message s =
     (Inr (), s\<lparr>st_events := st_events s @ [\<lparr>ev_Object = obj, ev_Type = ty, ev_Reason = reason,
        ev_Message = message\<rparr>]\<rparr>)"
  "push_audit l s = (Inr (), s\<lparr>st_audit := st_audit s @ [l]\<rparr>)"
  "with_metrics f s = (Inr (), s\<lparr>st_metrics := f (st_metrics s)\<rparr>)"
  "now_of c s = (Inr (k_now c (st_api s)), s)"
  by (simp_all add: push_event_def push_audit_def with_metrics_def now_of_def)

definition object_ref :: "string \<Rightarrow> string \<Rightarrow> string \<Rightarrow> string" where
  "object_ref rk rns rn = (if rk = '''' then '''' else rk @ ''/'' @ rns @ ''/'' @ rn)"

lemma Record_eq:
  "Record c ctx rec schedule rk rns rn action message s =
     (Inr (), s\<lparr>st_audit := st_audit s @ [\<lparr>al_Action = action, al_Who = ai_Who (FromContext ctx),
          al_Why = ai_Why (FromContext ctx), al_When = Format_RFC3339_UTC (k_now c (st_api s)),
          al_ObjectRef = object_ref rk rns rn,
          al_SleepSchedule = ss_Namespace schedule @ ''/'' @ ss_Name schedule\<rparr>],
        st_events := st_events s @ (if rec then [\<lparr>ev_Object = schedule_key schedule,
          ev_Type = ''Normal'', ev_Reason = action,
          ev_Message = message @ (if rk = '''' then '''' else '' ['' @ object_ref rk rns rn @ '']'')\<rparr>] else [])\<rparr>)"
  by (simp add: Record_def object_ref_def Let_def prog_simps)

end
