(* ===== verification/Go_JSON.thy ===== *)
theory Go_JSON
  imports Kube_Api
begin

text \<open>
  What the handlers use of \<open>encoding/json\<close>: \<open>Marshal\<close> and \<open>Unmarshal\<close> at \<open>*bool\<close>,
  \<open>map[string]string\<close> and the struct \<open>hpaBounds\<close>. The decoder reads all of JSON (unknown members of
  a struct are skipped), with fuel for the nesting: every nested value starts at least one byte
  further on, so the length of the input is enough. Strings are UTF-8 bytes passed through as they
  are; that invalid UTF-8 becomes U+FFFD is not modelled (labels are ASCII).
\<close>

section \<open>Decoding\<close>

datatype json =
    JNull
  | JBool bool
  | JNum string
  | JStr string
  | JArr "json list"
  | JObj "(string \<times> json) list"

definition json_space :: "char \<Rightarrow> bool" where
  "json_space c \<longleftrightarrow> c = CHR '' '' \<or> c = CHR 0x09 \<or> c = CHR 0x0A \<or> c = CHR 0x0D"

definition skip_ws :: "string \<Rightarrow> string" where
  "skip_ws s = dropWhile json_space s"

definition hex_val :: "char \<Rightarrow> nat option" where
  "hex_val c =
     (let n = of_char c in
      if 48 \<le> n \<and> n \<le> 57 then Some (n - 48)
      else if 97 \<le> n \<and> n \<le> 102 then Some (n - 87)
      else if 65 \<le> n \<and> n \<le> 70 then Some (n - 55) else None)"

definition hex4 :: "char \<Rightarrow> char \<Rightarrow> char \<Rightarrow> char \<Rightarrow> nat option" where
  "hex4 a b c d =
     (case (hex_val a, hex_val b, hex_val c, hex_val d) of
        (Some w, Some x, Some y, Some z) \<Rightarrow> Some (((w * 16 + x) * 16 + y) * 16 + z)
      | _ \<Rightarrow> None)"

definition utf8_of :: "nat \<Rightarrow> string" where
  "utf8_of n =
     (if n < 128 then [char_of n]
      else if n < 2048 then [char_of (192 + n div 64), char_of (128 + n mod 64)]
      else if n < 65536 then
        [char_of (224 + n div 4096), char_of (128 + n div 64 mod 64), char_of (128 + n mod 64)]
      else
        [char_of (240 + n div 262144), char_of (128 + n div 4096 mod 64),
         char_of (128 + n div 64 mod 64), char_of (128 + n mod 64)])"

definition simple_escape :: "char \<Rightarrow> char option" where
  "simple_escape e =
     map_of [(CHR 0x22, CHR 0x22), (CHR 0x5C, CHR 0x5C), (CHR ''/'', CHR ''/''),
             (CHR ''b'', CHR 0x08), (CHR ''f'', CHR 0x0C), (CHR ''n'', CHR 0x0A),
             (CHR ''r'', CHR 0x0D), (CHR ''t'', CHR 0x09)] e"

text \<open>A \<open>\u\<close> escape: a surrogate pair is one rune, a lone surrogate is U+FFFD.\<close>

definition unicode_escape :: "string \<Rightarrow> (string \<times> string) option" where
  "unicode_escape s =
     (case s of
        a # b # c # d # r \<Rightarrow>
          (case hex4 a b c d of
             None \<Rightarrow> None
           | Some n \<Rightarrow>
               if 0xD800 \<le> n \<and> n < 0xE000 then
                 (case r of
                    x # y # a' # b' # c' # d' # r' \<Rightarrow>
                      (case (x = CHR 0x5C \<and> y = CHR ''u'', hex4 a' b' c' d') of
                         (True, Some m) \<Rightarrow>
                           if n < 0xDC00 \<and> 0xDC00 \<le> m \<and> m < 0xE000
                           then Some (utf8_of (0x10000 + (n - 0xD800) * 1024 + (m - 0xDC00)), r')
                           else Some (utf8_of 0xFFFD, r)
                       | _ \<Rightarrow> Some (utf8_of 0xFFFD, r))
                  | _ \<Rightarrow> Some (utf8_of 0xFFFD, r))
               else Some (utf8_of n, r))
      | _ \<Rightarrow> None)"

lemma unicode_escape_shorter: "unicode_escape s = Some (u, r) \<Longrightarrow> length r < length s"
  unfolding unicode_escape_def by (auto split: list.splits option.splits if_splits bool.splits)

text \<open>The rest of a string after its opening quote.\<close>

function json_str :: "string \<Rightarrow> (string \<times> string) option" where
  "json_str [] = None"
| "json_str (c # s) =
     (if c = CHR 0x22 then Some ([], s)
      else if of_char c < (32 :: nat) then None
      else if c \<noteq> CHR 0x5C then
        (case json_str s of None \<Rightarrow> None | Some (t, r) \<Rightarrow> Some (c # t, r))
      else (case s of
          [] \<Rightarrow> None
        | e # s1 \<Rightarrow>
            if e = CHR ''u'' then
              (case unicode_escape s1 of
                 None \<Rightarrow> None
               | Some (u, s2) \<Rightarrow>
                   (case json_str s2 of None \<Rightarrow> None | Some (t, r) \<Rightarrow> Some (u @ t, r)))
            else (case simple_escape e of
                None \<Rightarrow> None
              | Some x \<Rightarrow>
                  (case json_str s1 of None \<Rightarrow> None | Some (t, r) \<Rightarrow> Some (x # t, r)))))"
  by pat_completeness auto
termination
  by (relation "measure length") (auto dest: unicode_escape_shorter)

definition json_frac :: "string \<Rightarrow> (string \<times> string) option" where
  "json_frac s =
     (case s of
        c # r \<Rightarrow>
          if c = CHR ''.'' then
            (let ds = takeWhile is_digit r in
             if ds = [] then None else Some (CHR ''.'' # ds, dropWhile is_digit r))
          else Some ([], s)
      | [] \<Rightarrow> Some ([], s))"

definition json_exp :: "string \<Rightarrow> (string \<times> string) option" where
  "json_exp s =
     (case s of
        c # r \<Rightarrow>
          if c = CHR ''e'' \<or> c = CHR ''E'' then
            (let (sg, r1) = (case r of x # r1 \<Rightarrow>
                   if x = CHR ''+'' \<or> x = CHR ''-'' then ([x], r1) else ([], r) | [] \<Rightarrow> ([], r));
                 ds = takeWhile is_digit r1
             in if ds = [] then None else Some (c # sg @ ds, dropWhile is_digit r1))
          else Some ([], s)
      | [] \<Rightarrow> Some ([], s))"

definition json_num :: "string \<Rightarrow> (string \<times> string) option" where
  "json_num s0 =
     (let (sg, s) = (case s0 of c # r \<Rightarrow> if c = CHR ''-'' then (''-'', r) else ('''', s0)
                     | [] \<Rightarrow> ('''', s0));
          ds = takeWhile is_digit s; r = dropWhile is_digit s
      in if ds = [] \<or> (hd ds = CHR ''0'' \<and> length ds > 1) then None
         else (case json_frac r of
             None \<Rightarrow> None
           | Some (f, r1) \<Rightarrow>
               (case json_exp r1 of
                  None \<Rightarrow> None
                | Some (e, r2) \<Rightarrow> Some (sg @ ds @ f @ e, r2))))"

definition json_word :: "string \<Rightarrow> string \<Rightarrow> string option" where
  "json_word w s = (if take (length w) s = w then Some (drop (length w) s) else None)"

text \<open>
  A value, the members of an object after its brace, the elements of an array after its bracket;
  \<open>first\<close> says that nothing has been read yet, so that the closing brace may come at once.
\<close>

fun json_value :: "nat \<Rightarrow> string \<Rightarrow> (json \<times> string) option"
  and json_members :: "nat \<Rightarrow> bool \<Rightarrow> string \<Rightarrow> ((string \<times> json) list \<times> string) option"
  and json_elems :: "nat \<Rightarrow> bool \<Rightarrow> string \<Rightarrow> (json list \<times> string) option"
where
  "json_value 0 s = None"
| "json_value (Suc n) s =
     (case skip_ws s of
        [] \<Rightarrow> None
      | c # r \<Rightarrow>
          if c = CHR 0x22 then map_option (\<lambda>(t, q). (JStr t, q)) (json_str r)
          else if c = CHR 0x7B then map_option (\<lambda>(ms, q). (JObj ms, q)) (json_members n True r)
          else if c = CHR 0x5B then map_option (\<lambda>(vs, q). (JArr vs, q)) (json_elems n True r)
          else if c = CHR ''n'' then map_option (\<lambda>q. (JNull, q)) (json_word ''null'' (c # r))
          else if c = CHR ''t'' then map_option (\<lambda>q. (JBool True, q)) (json_word ''true'' (c # r))
          else if c = CHR ''f'' then map_option (\<lambda>q. (JBool False, q)) (json_word ''false'' (c # r))
          else map_option (\<lambda>(t, q). (JNum t, q)) (json_num (c # r)))"
| "json_members 0 first s = None"
| "json_members (Suc n) first s =
     (case skip_ws s of
        [] \<Rightarrow> None
      | c # r \<Rightarrow>
          if first \<and> c = CHR 0x7D then Some ([], r)
          else if c \<noteq> CHR 0x22 then None
          else (case json_str r of
              None \<Rightarrow> None
            | Some (k, r1) \<Rightarrow>
                (case skip_ws r1 of
                   [] \<Rightarrow> None
                 | d # r2 \<Rightarrow>
                     if d \<noteq> CHR '':'' then None
                     else (case json_value n r2 of
                         None \<Rightarrow> None
                       | Some (v, r3) \<Rightarrow>
                           (case skip_ws r3 of
                              [] \<Rightarrow> None
                            | e # r4 \<Rightarrow>
                                if e = CHR 0x7D then Some ([(k, v)], r4)
                                else if e = CHR '','' then
                                  map_option (\<lambda>(ms, q). ((k, v) # ms, q)) (json_members n False r4)
                                else None)))))"
| "json_elems 0 first s = None"
| "json_elems (Suc n) first s =
     (case skip_ws s of
        [] \<Rightarrow> None
      | c # r \<Rightarrow>
          if first \<and> c = CHR 0x5D then Some ([], r)
          else (case json_value n (c # r) of
              None \<Rightarrow> None
            | Some (v, r1) \<Rightarrow>
                (case skip_ws r1 of
                   [] \<Rightarrow> None
                 | e # r2 \<Rightarrow>
                     if e = CHR 0x5D then Some ([v], r2)
                     else if e = CHR '','' then
                       map_option (\<lambda>(vs, q). (v # vs, q)) (json_elems n False r2)
                     else None)))"

declare json_value.simps [simp del] json_members.simps [simp del] json_elems.simps [simp del]

definition json_decode :: "string \<Rightarrow> json option" where
  "json_decode s =
     (case json_value (Suc (length s)) s of
        Some (v, r) \<Rightarrow> if skip_ws r = [] then Some v else None
      | None \<Rightarrow> None)"

section \<open>Unmarshal\<close>

definition Unmarshal_bool :: "string \<Rightarrow> bool option option" where
  "Unmarshal_bool s =
     (case json_decode s of
        Some JNull \<Rightarrow> Some None
      | Some (JBool b) \<Rightarrow> Some (Some b)
      | _ \<Rightarrow> None)"

fun string_members :: "(string \<times> json) list \<Rightarrow> string gomap \<Rightarrow> string gomap option" where
  "string_members [] m = Some m"
| "string_members ((k, v) # ms) m =
     (case v of
        JStr s \<Rightarrow> string_members ms (map_put k s m)
      | JNull \<Rightarrow> string_members ms (map_put k [] m)
      | _ \<Rightarrow> None)"

definition Unmarshal_map :: "string \<Rightarrow> string gomap option option" where
  "Unmarshal_map s =
     (case json_decode s of
        Some JNull \<Rightarrow> Some None
      | Some (JObj ms) \<Rightarrow> map_option Some (string_members ms [])
      | _ \<Rightarrow> None)"

definition ascii_lower :: "string \<Rightarrow> string" where
  "ascii_lower s = map (\<lambda>c. if CHR ''A'' \<le> c \<and> c \<le> CHR ''Z'' then char_of (of_char c + 32 :: nat) else c) s"

text \<open>The fields \<open>min\<close> (a pointer) and \<open>max\<close>; names match without regard to case, others are skipped.\<close>

fun bounds_members ::
  "(string \<times> json) list \<Rightarrow> int32 option \<times> int32 \<Rightarrow> (int32 option \<times> int32) option"
where
  "bounds_members [] b = Some b"
| "bounds_members ((k, v) # ms) (mn, mx) =
     (if ascii_lower k = ''min'' then
        (case v of
           JNull \<Rightarrow> bounds_members ms (None, mx)
         | JNum t \<Rightarrow>
             (case ParseInt 32 t of
                None \<Rightarrow> None | Some i \<Rightarrow> bounds_members ms (Some (word_of_int i), mx))
         | _ \<Rightarrow> None)
      else if ascii_lower k = ''max'' then
        (case v of
           JNull \<Rightarrow> bounds_members ms (mn, mx)
         | JNum t \<Rightarrow>
             (case ParseInt 32 t of
                None \<Rightarrow> None | Some i \<Rightarrow> bounds_members ms (mn, word_of_int i))
         | _ \<Rightarrow> None)
      else bounds_members ms (mn, mx))"

definition Unmarshal_bounds :: "string \<Rightarrow> (int32 option \<times> int32) option" where
  "Unmarshal_bounds s =
     (case json_decode s of
        Some JNull \<Rightarrow> Some (None, 0)
      | Some (JObj ms) \<Rightarrow> bounds_members ms (None, 0)
      | _ \<Rightarrow> None)"

section \<open>Marshal\<close>

definition Marshal_bool :: "bool option \<Rightarrow> string" where
  "Marshal_bool b = (case b of None \<Rightarrow> ''null'' | Some True \<Rightarrow> ''true'' | Some False \<Rightarrow> ''false'')"

definition hex_digit :: "nat \<Rightarrow> char" where
  "hex_digit n = (if n < 10 then char_of (48 + n) else char_of (87 + n))"

text \<open>The escapes of \<open>appendString\<close>, HTML characters included.\<close>

definition json_escape :: "char \<Rightarrow> string" where
  "json_escape c =
     (if c = CHR 0x22 then [CHR 0x5C, CHR 0x22]
      else if c = CHR 0x5C then [CHR 0x5C, CHR 0x5C]
      else if c = CHR 0x08 then [CHR 0x5C, CHR ''b'']
      else if c = CHR 0x0C then [CHR 0x5C, CHR ''f'']
      else if c = CHR 0x0A then [CHR 0x5C, CHR ''n'']
      else if c = CHR 0x0D then [CHR 0x5C, CHR ''r'']
      else if c = CHR 0x09 then [CHR 0x5C, CHR ''t'']
      else if of_char c < (32 :: nat) \<or> c = CHR ''<'' \<or> c = CHR ''>'' \<or> c = CHR 0x26 then
        [CHR 0x5C, CHR ''u'', CHR ''0'', CHR ''0'', hex_digit (of_char c div 16), hex_digit (of_char c mod 16)]
      else [c])"

definition json_quote :: "string \<Rightarrow> string" where
  "json_quote s = CHR 0x22 # concat (map json_escape s) @ [CHR 0x22]"

fun join_members :: "string list \<Rightarrow> string" where
  "join_members [] = []"
| "join_members [m] = m"
| "join_members (m # ms) = m @ CHR '','' # join_members ms"

definition Marshal_map :: "string gomap option \<Rightarrow> string" where
  "Marshal_map m =
     (case m of
        None \<Rightarrow> ''null''
      | Some ps \<Rightarrow>
          CHR 0x7B # join_members (map (\<lambda>(k, v). json_quote k @ CHR '':'' # json_quote v) ps) @ [CHR 0x7D])"

definition Marshal_bounds :: "int32 option \<times> int32 \<Rightarrow> string" where
  "Marshal_bounds b =
     (case b of (mn, mx) \<Rightarrow>
        CHR 0x7B #
        (case mn of
           None \<Rightarrow> []
         | Some i \<Rightarrow> json_quote ''min'' @ CHR '':'' # FormatInt (sint i) @ '','')
        @ json_quote ''max'' @ CHR '':'' # FormatInt (sint mx) @ [CHR 0x7D])"

section \<open>Round trips\<close>

lemma Unmarshal_Marshal_bool [simp]: "Unmarshal_bool (Marshal_bool b) = Some b"
proof -
  have "Unmarshal_bool (Marshal_bool None) = Some None"
    "Unmarshal_bool (Marshal_bool (Some True)) = Some (Some True)"
    "Unmarshal_bool (Marshal_bool (Some False)) = Some (Some False)" by code_simp+
  then show ?thesis by (cases b) (auto, metis (full_types))
qed

lemma hex_val_digit: "n < 16 \<Longrightarrow> hex_val (hex_digit n) = Some n"
  by (auto simp: hex_val_def hex_digit_def Let_def)

lemma json_str_escape:
  "json_str (json_escape c @ s) = (case json_str s of None \<Rightarrow> None | Some (t, r) \<Rightarrow> Some (c # t, r))"
proof -
  consider "c \<in> set [CHR 0x22, CHR 0x5C, CHR 0x08, CHR 0x0C, CHR 0x0A, CHR 0x0D, CHR 0x09]"
    | "c \<notin> set [CHR 0x22, CHR 0x5C, CHR 0x08, CHR 0x0C, CHR 0x0A, CHR 0x0D, CHR 0x09]"
      "of_char c < (32 :: nat) \<or> c = CHR ''<'' \<or> c = CHR ''>'' \<or> c = CHR 0x26"
    | "c \<notin> set [CHR 0x22, CHR 0x5C, CHR 0x08, CHR 0x0C, CHR 0x0A, CHR 0x0D, CHR 0x09]"
      "\<not> (of_char c < (32 :: nat) \<or> c = CHR ''<'' \<or> c = CHR ''>'' \<or> c = CHR 0x26)"
    by blast
  then show ?thesis
  proof cases
    case 1
    then show ?thesis by (auto simp: json_escape_def simple_escape_def)
  next
    case 2
    let ?n = "of_char c :: nat"
    have lt: "?n < 128" using 2(2) by auto
    have e: "json_escape c =
        [CHR 0x5C, CHR ''u'', CHR ''0'', CHR ''0'', hex_digit (?n div 16), hex_digit (?n mod 16)]"
      using 2 unfolding json_escape_def by simp
    have "hex4 CHR ''0'' CHR ''0'' (hex_digit (?n div 16)) (hex_digit (?n mod 16)) = Some ?n"
    proof -
      have "hex_val CHR ''0'' = Some 0" by code_simp
      then show ?thesis using lt by (simp add: hex4_def hex_val_digit)
    qed
    then have "unicode_escape (CHR ''0'' # CHR ''0'' # hex_digit (?n div 16) # hex_digit (?n mod 16) # s)
        = Some ([c], s)"
      using lt by (simp add: unicode_escape_def utf8_of_def)
    then show ?thesis by (simp add: e split: option.split)
  next
    case 3
    then have "json_escape c = [c]" unfolding json_escape_def by simp
    with 3 show ?thesis by simp
  qed
qed

lemma json_str_quoted [simp]:
  "json_str (concat (map json_escape t) @ CHR 0x22 # r) = Some (t, r)"
  by (induction t) (simp_all add: json_str_escape)

lemma digits_of_no_zero: "hd (digits_of n) = CHR ''0'' \<Longrightarrow> length (digits_of n) = 1"
proof (induction n rule: digits_of.induct)
  case (1 n)
  show ?case
  proof (cases "n < 10")
    case False
    have ne: "digits_of (n div 10) \<noteq> []" using digits_of_digits by blast
    have h: "hd (digits_of (n div 10)) = CHR ''0''"
      using 1(2) False ne by (simp add: digits_of.simps [of n])
    then have l: "length (digits_of (n div 10)) = 1" using 1(1) False by blast
    then obtain c where c: "digits_of (n div 10) = [c]" by (cases "digits_of (n div 10)") auto
    with h have "digits_val (digits_of (n div 10)) = 0" by (simp add: digits_val_def digit_val_def)
    with False show ?thesis by (simp add: digits_val_digits_of)
  qed (simp add: digits_of.simps [of n])
qed

lemma takeWhile_digits_of:
  assumes "\<not> is_digit c"
  shows "takeWhile is_digit (digits_of n @ c # r) = digits_of n"
    and "dropWhile is_digit (digits_of n @ c # r) = c # r"
  using digits_of_digits [of n] assms by (auto simp: list_all_iff)

lemma json_num_FormatInt:
  assumes "\<not> is_digit c" and "c \<notin> {CHR ''.'', CHR ''e'', CHR ''E''}"
  shows "json_num (FormatInt i @ c # r) = Some (FormatInt i, c # r)"
proof -
  have d: "hd (digits_of n) = CHR ''0'' \<longrightarrow> \<not> Suc 0 < length (digits_of n)" "digits_of n \<noteq> []" for n
    using digits_of_no_zero digits_of_digits by auto
  obtain x xs where x: "digits_of (nat i) = x # xs" "is_digit x" using digits_of_hd by blast
  then have nx: "x \<noteq> CHR ''-''" using not_digit_sign by auto
  have f: "json_frac (c # r) = Some ([], c # r)" "json_exp (c # r) = Some ([], c # r)"
    using assms(2) by (simp_all add: json_frac_def json_exp_def)
  have body: "json_num (s1 @ digits_of n @ c # r) = Some (s1 @ digits_of n, c # r)"
    if "s1 = [] \<and> hd (digits_of n) \<noteq> CHR ''-'' \<or> s1 = ''-''" for s1 n
  proof -
    have split: "(case s1 @ digits_of n @ c # r of c' # r' \<Rightarrow> if c' = CHR ''-'' then (''-'', r')
        else ('''', s1 @ digits_of n @ c # r) | [] \<Rightarrow> ('''', s1 @ digits_of n @ c # r)) = (s1, digits_of n @ c # r)"
      using that d(2) [of n] by (cases "digits_of n") auto
    show ?thesis
      unfolding json_num_def split Let_def prod.case takeWhile_digits_of [OF assms(1)] f option.case
      using d [of n] by simp
  qed
  show ?thesis
    using body [of "''-''" "nat (- i)"] body [of "[]" "nat i"] x nx by (auto simp: FormatInt_def)
qed

lemma FormatInt_hd:
  obtains x xs where "FormatInt i = x # xs" and "is_digit x \<or> x = CHR ''-''"
  using digits_of_hd [of "nat i"] that by (cases "i < 0") (auto simp: FormatInt_def)

lemma not_space_digit: "is_digit x \<or> x = CHR ''-'' \<Longrightarrow> \<not> json_space x"
  by (auto simp: json_space_def is_digit_iff)

lemma json_value_num:
  assumes "\<not> is_digit c" and "c \<notin> {CHR ''.'', CHR ''e'', CHR ''E''}"
  shows "json_value (Suc n) (FormatInt i @ c # r) = Some (JNum (FormatInt i), c # r)"
proof -
  obtain x xs where x: "FormatInt i = x # xs" "is_digit x \<or> x = CHR ''-''" by (rule FormatInt_hd)
  then have "x \<noteq> CHR 0x22" "x \<noteq> CHR 0x7B" "x \<noteq> CHR 0x5B" "x \<noteq> CHR ''n''" "x \<noteq> CHR ''t''" "x \<noteq> CHR ''f''"
    by (auto simp: is_digit_iff)
  then show ?thesis
    using x json_num_FormatInt [OF assms, of i r] not_space_digit [OF x(2)]
    by (simp add: skip_ws_def json_value.simps)
qed

lemma quote_not_space [simp]: "\<not> json_space CHR 0x22" "\<not> json_space CHR '':''" "\<not> json_space CHR '',''"
  "\<not> json_space CHR 0x7D" "\<not> json_space CHR 0x7B"
  by (simp_all add: json_space_def)

lemma json_value_str: "json_value (Suc n) (json_quote t @ r) = Some (JStr t, r)"
  by (simp add: json_quote_def skip_ws_def json_value.simps)

text \<open>One member followed by a comma or the closing brace.\<close>

lemma json_members_step:
  assumes "json_value n (vs @ e # r) = Some (v, e # r)" and "e = CHR '','' \<or> e = CHR 0x7D"
  shows "json_members (Suc n) first (json_quote k @ CHR '':'' # vs @ e # r) =
    (if e = CHR 0x7D then Some ([(k, v)], r)
     else map_option (\<lambda>(ms, q). ((k, v) # ms, q)) (json_members n False r))"
  using assms by (auto simp: json_quote_def skip_ws_def json_members.simps)

lemma json_decode_object:
  assumes "json_members (length s + 2) True (s @ [CHR 0x7D]) = Some (ms, [])"
  shows "json_decode (CHR 0x7B # s @ [CHR 0x7D]) = Some (JObj ms)"
  using assms by (simp add: json_decode_def skip_ws_def json_value.simps)

lemma word_of_sint [simp]: "(word_of_int (sint w) :: int32) = w"
  by simp

lemma Unmarshal_Marshal_bounds [simp]: "Unmarshal_bounds (Marshal_bounds b) = Some b"
proof -
  obtain mn mx where b: "b = (mn, mx)" by (cases b)
  have pi: "ParseInt 32 (FormatInt (sint (w :: int32))) = Some (sint w)" for w
    by (rule ParseInt_FormatInt) (use sint_ge [of w] sint_lt [of w] in simp_all)
  have last: "json_members (Suc (Suc n)) first (json_quote ''max'' @ CHR '':'' # FormatInt (sint mx) @ [CHR 0x7D])
      = Some ([(''max'', JNum (FormatInt (sint mx)))], [])" for n first
    using json_members_step [where vs = "FormatInt (sint mx)" and e = "CHR 0x7D" and r = "[]" and n = "Suc n"]
      json_value_num [of "CHR 0x7D" n "sint mx" "[]"] by (simp add: is_digit_iff)
  have low: "ascii_lower ''min'' = ''min''" "ascii_lower ''max'' = ''max''" by code_simp+
  show ?thesis
  proof (cases mn)
    case None
    have "json_decode (Marshal_bounds b) = Some (JObj [(''max'', JNum (FormatInt (sint mx)))])"
      unfolding b None Marshal_bounds_def prod.case option.case append_Nil
      using json_decode_object [of "json_quote ''max'' @ CHR '':'' # FormatInt (sint mx)"] last by simp
    then show ?thesis by (simp add: Unmarshal_bounds_def pi low b None)
  next
    case (Some i)
    let ?t = "json_quote ''min'' @ CHR '':'' # FormatInt (sint i) @ CHR '','' #
        json_quote ''max'' @ CHR '':'' # FormatInt (sint mx)"
    have "json_members (Suc (Suc (Suc n))) True (?t @ [CHR 0x7D])
        = Some ([(''min'', JNum (FormatInt (sint i))), (''max'', JNum (FormatInt (sint mx)))], [])" for n
      using json_members_step [where vs = "FormatInt (sint i)" and e = "CHR '',''" and n = "Suc (Suc n)"]
        json_value_num [of "CHR '',''" "Suc n" "sint i"] last [of n] by (simp add: is_digit_iff)
    from this [of "length ?t - 1"] have "json_members (length ?t + 2) True (?t @ [CHR 0x7D])
        = Some ([(''min'', JNum (FormatInt (sint i))), (''max'', JNum (FormatInt (sint mx)))], [])"
      by simp
    then have "json_decode (Marshal_bounds b) =
        Some (JObj [(''min'', JNum (FormatInt (sint i))), (''max'', JNum (FormatInt (sint mx)))])"
      unfolding b Some Marshal_bounds_def prod.case option.case
      using json_decode_object [of ?t] by simp
    then show ?thesis by (simp add: Unmarshal_bounds_def pi low b Some)
  qed
qed

definition member_text :: "string \<times> string \<Rightarrow> string" where
  "member_text p = json_quote (fst p) @ CHR '':'' # json_quote (snd p)"

lemma json_members_text:
  "json_members (Suc (Suc (length ps + n))) first (join_members (map member_text (p # ps)) @ [CHR 0x7D]) =
    Some (map (\<lambda>p. (fst p, JStr (snd p))) (p # ps), [])"
proof (induction ps arbitrary: p first)
  case Nil
  show ?case
    using json_members_step [where vs = "json_quote (snd p)" and e = "CHR 0x7D" and n = "Suc n" and r = "[]"]
      json_value_str by (simp add: member_text_def)
next
  case (Cons q ps)
  show ?case
    using json_members_step [where vs = "json_quote (snd p)" and e = "CHR '',''" and k = "fst p"
        and n = "Suc (Suc (length ps + n))" and first = first and v = "JStr (snd p)"
        and r = "join_members (map member_text (q # ps)) @ [CHR 0x7D]"]
      json_value_str Cons.IH [of False q] by (simp add: member_text_def [of p])
qed

lemma map_put_last: "\<forall>j \<in> fst ` set m. j < k \<Longrightarrow> map_put k v m = m @ [(k, v)]"
  by (induction k v m rule: map_put.induct) auto

lemma string_members_sorted:
  "map_wf (m @ ps) \<Longrightarrow> string_members (map (\<lambda>p. (fst p, JStr (snd p))) ps) m = Some (m @ ps)"
proof (induction ps arbitrary: m)
  case (Cons p ps)
  have "\<forall>j \<in> fst ` set m. j < fst p" using Cons.prems by (auto simp: map_wf_def sorted_wrt_append)
  then show ?case using Cons by (simp add: map_put_last)
qed simp

lemma Unmarshal_Marshal_map:
  assumes "\<forall>ps. m = Some ps \<longrightarrow> map_wf ps"
  shows "Unmarshal_map (Marshal_map m) = Some m"
proof (cases m)
  case None
  have "Unmarshal_map (Marshal_map None) = Some None" by code_simp
  then show ?thesis by (simp add: None)
next
  case (Some ps)
  have mt: "map (\<lambda>(k, v). json_quote k @ CHR '':'' # json_quote v) ps = map member_text ps"
    by (auto simp: member_text_def)
  let ?t = "join_members (map member_text ps)"
  have dec: "json_decode (Marshal_map m) = Some (JObj (map (\<lambda>p. (fst p, JStr (snd p))) ps))"
    unfolding Some Marshal_map_def option.case mt
  proof (rule json_decode_object)
    show "json_members (length ?t + 2) True (?t @ [CHR 0x7D]) = Some (map (\<lambda>p. (fst p, JStr (snd p))) ps, [])"
    proof (cases ps)
      case Nil
      then show ?thesis by (simp add: skip_ws_def numeral_2_eq_2 json_members.simps)
    next
      case (Cons p qs)
      have "length qs \<le> length (join_members (map member_text (p # qs)))" for p
      proof (induction qs arbitrary: p)
        case (Cons q qs)
        show ?case using Cons [of q] by simp
      qed simp
      then obtain n where "length ?t = length qs + n" using Cons le_Suc_ex by metis
      then show ?thesis using json_members_text [of qs n True p] Cons by simp
    qed
  qed
  have "string_members (map (\<lambda>p. (fst p, JStr (snd p))) ps) [] = Some ps"
    using string_members_sorted [of "[]" ps] assms Some by simp
  then show ?thesis unfolding Unmarshal_map_def dec by (simp add: Some)
qed

end
