(* ===== verification/Workload_Handlers.thy ===== *)
theory Workload_Handlers
  imports Checkpoint_Correct Audit_Metrics Go_JSON
begin

text \<open>
  \<open>internal/workload\<close>: the per-kind handlers. Deployments and StatefulSets scale their replicas
  (\<open>replica.go\<close>), CronJobs and Jobs toggle \<open>spec.suspend\<close> (\<open>suspend.go\<close>), DaemonSets get a node
  selector that no node satisfies, HPAs have their bounds pinned. The closures \<open>setReplicas\<close> and
  \<open>setSuspend\<close> are functions from the new value to the changed object. The dry-run log lines are
  the only effect that is left out.
\<close>

section \<open>ref.go and handler.go\<close>

definition KindDeployment :: string where "KindDeployment = ''Deployment''"
definition KindStatefulSet :: string where "KindStatefulSet = ''StatefulSet''"
definition KindDaemonSet :: string where "KindDaemonSet = ''DaemonSet''"
definition KindCronJob :: string where "KindCronJob = ''CronJob''"
definition KindJob :: string where "KindJob = ''Job''"
definition KindHPA :: string where "KindHPA = ''HorizontalPodAutoscaler''"

lemmas kind_defs = KindDeployment_def KindStatefulSet_def KindDaemonSet_def KindCronJob_def
  KindJob_def KindHPA_def

record wref =
  wr_Kind :: string
  wr_Namespace :: string
  wr_Name :: string

type_synonym 'w action =
  "'w kube \<Rightarrow> ctx \<Rightarrow> bool \<Rightarrow> 'w store \<Rightarrow> sleep_schedule \<Rightarrow> wref \<Rightarrow> ('w, unit) prog"

record 'w handler =
  h_Kind :: string
  h_List :: "'w kube \<Rightarrow> list_opt \<Rightarrow> ('w, wref list) prog"
  h_Sleep :: "'w action"
  h_Restore :: "'w action"

text \<open>The six \<open>List\<close> methods differ in the list type and the kind only.\<close>

definition list_refs :: "string \<Rightarrow> 'w kube \<Rightarrow> list_opt \<Rightarrow> ('w, wref list) prog" where
  "list_refs kind c opt =
     bind_p (call (k_list c kind opt)) (\<lambda>items.
       return_p (map (\<lambda>m. \<lparr>wr_Kind = kind, wr_Namespace = om_Namespace m, wr_Name = om_Name m\<rparr>) items))"

text \<open>A typed \<open>Get\<close> whose \<open>NotFound\<close> is "vanished".\<close>

definition load_or_nil :: "('w, 'o) prog \<Rightarrow> ('w, 'o option) prog" where
  "load_or_nil m = try_p m (\<lambda>r. case r of
     Inl e \<Rightarrow> if isNotFound e then return_p None else throw_p e | Inr x \<Rightarrow> return_p (Some x))"

section \<open>Events\<close>

definition emit :: "bool \<Rightarrow> kobj \<Rightarrow> string \<Rightarrow> string \<Rightarrow> ('w, unit) prog" where
  "emit rec obj reason message = when_p rec (push_event (key_of obj) ''Normal'' reason message)"

definition warn :: "bool \<Rightarrow> kobj \<Rightarrow> string \<Rightarrow> string \<Rightarrow> ('w, unit) prog" where
  "warn rec obj reason message = when_p rec (push_event (key_of obj) ''Warning'' reason message)"

section \<open>replica.go\<close>

record replica_obj =
  ro_obj :: kobj
  ro_uid :: string
  ro_replicas :: int32
  ro_setReplicas :: "int32 \<Rightarrow> kobj"

type_synonym 'w load_func = "'w kube \<Rightarrow> wref \<Rightarrow> ('w, replica_obj option) prog"

definition replicasOf :: "int32 option \<Rightarrow> int32" where
  "replicasOf p = (case p of None \<Rightarrow> 1 | Some n \<Rightarrow> n)"

definition patchReplicas ::
  "'w kube \<Rightarrow> ctx \<Rightarrow> bool \<Rightarrow> sleep_schedule \<Rightarrow> wref \<Rightarrow> replica_obj \<Rightarrow> int32 \<Rightarrow> bool \<Rightarrow> string
   \<Rightarrow> ('w, unit) prog"
where
  "patchReplicas c ctx rec schedule ref w want dryRun reason =
     (if ro_replicas w = want then return_p ()
      else if dryRun then
        emit rec (ro_obj w) (''DryRun'' @ reason)
          (''dry-run: would scale to '' @ FormatInt (sint want) @ '' replicas'')
      else
        bind_p (call (k_patch c (ro_obj w) (ro_setReplicas w want))) (\<lambda>_.
          let msg = ''scaled to '' @ FormatInt (sint want) @ '' replicas''
          in bind_p (emit rec (ro_setReplicas w want) reason msg) (\<lambda>_.
             Record c ctx rec schedule (wr_Kind ref) (wr_Namespace ref) (wr_Name ref) reason msg)))"

definition sleepReplica :: "'w load_func \<Rightarrow> 'w action" where
  "sleepReplica load c ctx rec store schedule ref =
     bind_p (load c ref) (\<lambda>ow.
       case ow of
         None \<Rightarrow> return_p ()
       | Some w \<Rightarrow>
           let key = Key (wr_Kind ref) (wr_Namespace ref) (wr_Name ref) (ro_uid w);
               spec = ss_Spec schedule
           in bind_p (Get store schedule key) (\<lambda>found.
              bind_p (if found = None \<and> \<not> sp_DryRun spec
                      then Set_replicas store schedule key (ro_replicas w) else return_p ()) (\<lambda>_.
              patchReplicas c ctx rec schedule ref w (sp_SleepReplicas spec) (sp_DryRun spec) ''Slept'')))"

definition restoreReplica :: "'w load_func \<Rightarrow> 'w action" where
  "restoreReplica load c ctx rec store schedule ref =
     bind_p (load c ref) (\<lambda>ow.
       case ow of
         None \<Rightarrow> return_p ()
       | Some w \<Rightarrow>
           let key = Key (wr_Kind ref) (wr_Namespace ref) (wr_Name ref) (ro_uid w);
               spec = ss_Spec schedule
           in bind_p (Get store schedule key) (\<lambda>found.
              case found of
                None \<Rightarrow> return_p ()
              | Some orig \<Rightarrow>
                  bind_p (patchReplicas c ctx rec schedule ref w orig (sp_DryRun spec) ''Woke'') (\<lambda>_.
                    if sp_DryRun spec then return_p () else Delete_entry store schedule key)))"

section \<open>deployment.go\<close>

definition deployment_replica_obj :: "deployment \<Rightarrow> replica_obj" where
  "deployment_replica_obj d =
     \<lparr>ro_obj = KDeployment d, ro_uid = om_UID (dp_Meta d), ro_replicas = replicasOf (dp_Replicas d),
      ro_setReplicas = (\<lambda>v. KDeployment (d\<lparr>dp_Replicas := Some v\<rparr>))\<rparr>"

definition loadDeployment :: "'w load_func" where
  "loadDeployment c ref =
     bind_p (load_or_nil (call (k_get_deployment c (wr_Namespace ref) (wr_Name ref)))) (\<lambda>od.
       return_p (map_option deployment_replica_obj od))"

definition deployment_List :: "'w kube \<Rightarrow> list_opt \<Rightarrow> ('w, wref list) prog" where
  "deployment_List = list_refs KindDeployment"

definition deploymentHandler :: "'w handler" where
  "deploymentHandler = \<lparr>h_Kind = KindDeployment, h_List = deployment_List,
     h_Sleep = sleepReplica loadDeployment, h_Restore = restoreReplica loadDeployment\<rparr>"

section \<open>statefulset.go\<close>

definition AnnotationAllowPVCDeletion :: string where
  "AnnotationAllowPVCDeletion = ''nyx.dev/allow-pvc-deletion''"

definition annotationTrue :: string where "annotationTrue = ''true''"

definition stateful_set_replica_obj :: "stateful_set \<Rightarrow> replica_obj" where
  "stateful_set_replica_obj s =
     \<lparr>ro_obj = KStatefulSet s, ro_uid = om_UID (sts_Meta s), ro_replicas = replicasOf (sts_Replicas s),
      ro_setReplicas = (\<lambda>v. KStatefulSet (s\<lparr>sts_Replicas := Some v\<rparr>))\<rparr>"

definition loadStatefulSet :: "'w load_func" where
  "loadStatefulSet c ref =
     bind_p (load_or_nil (call (k_get_stateful_set c (wr_Namespace ref) (wr_Name ref)))) (\<lambda>os.
       return_p (map_option stateful_set_replica_obj os))"

definition pvcDeletionRisk :: "stateful_set \<Rightarrow> bool" where
  "pvcDeletionRisk s \<longleftrightarrow> sts_PVCWhenScaled s = Some ''Delete''"

definition allowsPVCDeletion :: "stateful_set \<Rightarrow> sleep_schedule \<Rightarrow> bool" where
  "allowsPVCDeletion s schedule \<longleftrightarrow>
     map_of (om_Annotations (sts_Meta s)) AnnotationAllowPVCDeletion = Some annotationTrue
     \<or> map_of (ss_Annotations schedule) AnnotationAllowPVCDeletion = Some annotationTrue"

definition statefulSet_Sleep :: "'w action" where
  "statefulSet_Sleep c ctx rec store schedule ref =
     bind_p (load_or_nil (call (k_get_stateful_set c (wr_Namespace ref) (wr_Name ref)))) (\<lambda>os.
       case os of
         None \<Rightarrow> return_p ()
       | Some s \<Rightarrow>
           if pvcDeletionRisk s \<and> \<not> allowsPVCDeletion s schedule then
             warn rec (KStatefulSet s) ''PVCDeletionRisk''
               (''not slept: persistentVolumeClaimRetentionPolicy.whenScaled is Delete; scaling to 0 would delete the PVCs (data loss). ''
                @ ''Set annotation '' @ AnnotationAllowPVCDeletion @ ''=\"true\" to allow.'')
           else sleepReplica loadStatefulSet c ctx rec store schedule ref)"

definition statefulSet_List :: "'w kube \<Rightarrow> list_opt \<Rightarrow> ('w, wref list) prog" where
  "statefulSet_List = list_refs KindStatefulSet"

definition statefulSetHandler :: "'w handler" where
  "statefulSetHandler = \<lparr>h_Kind = KindStatefulSet, h_List = statefulSet_List,
     h_Sleep = statefulSet_Sleep, h_Restore = restoreReplica loadStatefulSet\<rparr>"

section \<open>suspend.go\<close>

record suspend_obj =
  so_obj :: kobj
  so_uid :: string
  so_suspend :: "bool option"
  so_setSuspend :: "bool option \<Rightarrow> kobj"

definition sleepSuspend ::
  "'w kube \<Rightarrow> ctx \<Rightarrow> bool \<Rightarrow> 'w store \<Rightarrow> sleep_schedule \<Rightarrow> wref \<Rightarrow> suspend_obj \<Rightarrow> ('w, unit) prog"
where
  "sleepSuspend c ctx rec store schedule ref w =
     (let key = Key (wr_Kind ref) (wr_Namespace ref) (wr_Name ref) (so_uid w)
      in bind_p (GetRaw store schedule key) (\<lambda>found.
         if found \<noteq> None then return_p ()
         else if sp_DryRun (ss_Spec schedule) then
           emit rec (so_obj w) ''DryRunSlept'' ''dry-run: would set spec.suspend=true''
         else
           bind_p (SetRaw store schedule key (Marshal_bool (so_suspend w))) (\<lambda>_.
           bind_p (call (k_patch c (so_obj w) (so_setSuspend w (Some True)))) (\<lambda>_.
           bind_p (emit rec (so_setSuspend w (Some True)) ''Slept'' ''set spec.suspend=true'') (\<lambda>_.
           Record c ctx rec schedule (wr_Kind ref) (wr_Namespace ref) (wr_Name ref)
             ''Slept'' ''set spec.suspend=true'')))))"

definition restoreSuspend ::
  "'w kube \<Rightarrow> ctx \<Rightarrow> bool \<Rightarrow> 'w store \<Rightarrow> sleep_schedule \<Rightarrow> wref \<Rightarrow> suspend_obj \<Rightarrow> ('w, unit) prog"
where
  "restoreSuspend c ctx rec store schedule ref w =
     (let key = Key (wr_Kind ref) (wr_Namespace ref) (wr_Name ref) (so_uid w)
      in bind_p (GetRaw store schedule key) (\<lambda>found.
         case found of
           None \<Rightarrow> return_p ()
         | Some raw \<Rightarrow>
             (case Unmarshal_bool raw of
                None \<Rightarrow> throw_p (CorruptSuspend key)
              | Some prior \<Rightarrow>
                  if sp_DryRun (ss_Spec schedule) then
                    emit rec (so_obj w) ''DryRunWoke'' ''dry-run: would restore spec.suspend''
                  else
                    bind_p (call (k_patch c (so_obj w) (so_setSuspend w prior))) (\<lambda>_.
                    bind_p (emit rec (so_setSuspend w prior) ''Woke'' ''restored spec.suspend'') (\<lambda>_.
                    bind_p (Record c ctx rec schedule (wr_Kind ref) (wr_Namespace ref) (wr_Name ref)
                      ''Woke'' ''restored spec.suspend'') (\<lambda>_.
                    Delete_entry store schedule key))))))"

section \<open>cronjob.go\<close>

definition loadCronJob :: "'w kube \<Rightarrow> wref \<Rightarrow> ('w, cron_job option) prog" where
  "loadCronJob c ref = load_or_nil (call (k_get_cron_job c (wr_Namespace ref) (wr_Name ref)))"

definition cronJobSuspendObj :: "cron_job \<Rightarrow> suspend_obj" where
  "cronJobSuspendObj cj = \<lparr>so_obj = KCronJob cj, so_uid = om_UID (cj_Meta cj),
     so_suspend = cj_Suspend cj, so_setSuspend = (\<lambda>v. KCronJob (cj\<lparr>cj_Suspend := v\<rparr>))\<rparr>"

definition cronJob_Sleep :: "'w action" where
  "cronJob_Sleep c ctx rec store schedule ref =
     bind_p (loadCronJob c ref) (\<lambda>ocj. case ocj of None \<Rightarrow> return_p ()
       | Some cj \<Rightarrow> sleepSuspend c ctx rec store schedule ref (cronJobSuspendObj cj))"

definition cronJob_Restore :: "'w action" where
  "cronJob_Restore c ctx rec store schedule ref =
     bind_p (loadCronJob c ref) (\<lambda>ocj. case ocj of None \<Rightarrow> return_p ()
       | Some cj \<Rightarrow> restoreSuspend c ctx rec store schedule ref (cronJobSuspendObj cj))"

definition cronJob_List :: "'w kube \<Rightarrow> list_opt \<Rightarrow> ('w, wref list) prog" where
  "cronJob_List = list_refs KindCronJob"

definition cronJobHandler :: "'w handler" where
  "cronJobHandler = \<lparr>h_Kind = KindCronJob, h_List = cronJob_List,
     h_Sleep = cronJob_Sleep, h_Restore = cronJob_Restore\<rparr>"

section \<open>job.go\<close>

definition loadJob :: "'w kube \<Rightarrow> wref \<Rightarrow> ('w, job option) prog" where
  "loadJob c ref = load_or_nil (call (k_get_job c (wr_Namespace ref) (wr_Name ref)))"

definition jobSuspendObj :: "job \<Rightarrow> suspend_obj" where
  "jobSuspendObj j = \<lparr>so_obj = KJob j, so_uid = om_UID (jb_Meta j),
     so_suspend = jb_Suspend j, so_setSuspend = (\<lambda>v. KJob (j\<lparr>jb_Suspend := v\<rparr>))\<rparr>"

definition job_Sleep :: "'w action" where
  "job_Sleep c ctx rec store schedule ref =
     bind_p (loadJob c ref) (\<lambda>oj. case oj of None \<Rightarrow> return_p ()
       | Some j \<Rightarrow>
           if 0 < sint (jb_Active j) then
             warn rec (KJob j) ''SkippedActiveJob''
               ''not suspended: Job has active pods (would be deleted); skipped by default policy''
           else sleepSuspend c ctx rec store schedule ref (jobSuspendObj j))"

definition job_Restore :: "'w action" where
  "job_Restore c ctx rec store schedule ref =
     bind_p (loadJob c ref) (\<lambda>oj. case oj of None \<Rightarrow> return_p ()
       | Some j \<Rightarrow> restoreSuspend c ctx rec store schedule ref (jobSuspendObj j))"

definition job_List :: "'w kube \<Rightarrow> list_opt \<Rightarrow> ('w, wref list) prog" where
  "job_List = list_refs KindJob"

definition jobHandler :: "'w handler" where
  "jobHandler = \<lparr>h_Kind = KindJob, h_List = job_List,
     h_Sleep = job_Sleep, h_Restore = job_Restore\<rparr>"

section \<open>daemonset.go\<close>

definition sentinelKey :: string where "sentinelKey = ''nyx.dev/asleep''"
definition sentinelValue :: string where "sentinelValue = ''true''"

definition getDaemonSet :: "'w kube \<Rightarrow> wref \<Rightarrow> ('w, daemon_set option) prog" where
  "getDaemonSet c ref = load_or_nil (call (k_get_daemon_set c (wr_Namespace ref) (wr_Name ref)))"

text \<open>The entries of a node selector; a nil map has none.\<close>

definition selector_entries :: "string gomap option \<Rightarrow> string gomap" where
  "selector_entries m = (case m of None \<Rightarrow> [] | Some ps \<Rightarrow> ps)"

definition sentinel_selector :: "string gomap option \<Rightarrow> string gomap" where
  "sentinel_selector m =
     foldl (\<lambda>sel (k, v). map_put k v sel) [(sentinelKey, sentinelValue)] (selector_entries m)"

definition daemonSet_Sleep :: "'w action" where
  "daemonSet_Sleep c ctx rec store schedule ref =
     bind_p (getDaemonSet c ref) (\<lambda>ods. case ods of None \<Rightarrow> return_p ()
       | Some ds \<Rightarrow>
           if map_of (selector_entries (ds_NodeSelector ds)) sentinelKey \<noteq> None then return_p ()
           else
             (let key = Key (wr_Kind ref) (wr_Namespace ref) (wr_Name ref) (om_UID (ds_Meta ds));
                  new = KDaemonSet (ds\<lparr>ds_NodeSelector := Some (sentinel_selector (ds_NodeSelector ds))\<rparr>)
              in if sp_DryRun (ss_Spec schedule) then
                   emit rec (KDaemonSet ds) ''DryRunSlept'' ''dry-run: would inject sentinel nodeSelector''
                 else
                   bind_p (GetRaw store schedule key) (\<lambda>found.
                   bind_p (if found = None
                           then SetRaw store schedule key (Marshal_map (ds_NodeSelector ds))
                           else return_p ()) (\<lambda>_.
                   bind_p (call (k_patch c (KDaemonSet ds) new)) (\<lambda>_.
                   bind_p (emit rec new ''Slept'' ''injected sentinel nodeSelector (0 pods scheduled)'') (\<lambda>_.
                   Record c ctx rec schedule (wr_Kind ref) (wr_Namespace ref) (wr_Name ref)
                     ''Slept'' ''injected sentinel nodeSelector''))))))"

definition daemonSet_Restore :: "'w action" where
  "daemonSet_Restore c ctx rec store schedule ref =
     bind_p (getDaemonSet c ref) (\<lambda>ods. case ods of None \<Rightarrow> return_p ()
       | Some ds \<Rightarrow>
           (let key = Key (wr_Kind ref) (wr_Namespace ref) (wr_Name ref) (om_UID (ds_Meta ds))
            in bind_p (GetRaw store schedule key) (\<lambda>found.
               case found of
                 None \<Rightarrow> return_p ()
               | Some raw \<Rightarrow>
                   (case Unmarshal_map raw of
                      None \<Rightarrow> throw_p (CorruptNodeSelector key)
                    | Some original \<Rightarrow>
                        if sp_DryRun (ss_Spec schedule) then
                          emit rec (KDaemonSet ds) ''DryRunWoke''
                            ''dry-run: would restore original nodeSelector''
                        else
                          (let new = KDaemonSet (ds\<lparr>ds_NodeSelector := original\<rparr>)
                           in bind_p (call (k_patch c (KDaemonSet ds) new)) (\<lambda>_.
                              bind_p (emit rec new ''Woke'' ''restored original nodeSelector'') (\<lambda>_.
                              bind_p (Record c ctx rec schedule (wr_Kind ref) (wr_Namespace ref) (wr_Name ref)
                                ''Woke'' ''restored original nodeSelector'') (\<lambda>_.
                              Delete_entry store schedule key))))))))"

definition daemonSet_List :: "'w kube \<Rightarrow> list_opt \<Rightarrow> ('w, wref list) prog" where
  "daemonSet_List = list_refs KindDaemonSet"

definition daemonSetHandler :: "'w handler" where
  "daemonSetHandler = \<lparr>h_Kind = KindDaemonSet, h_List = daemonSet_List,
     h_Sleep = daemonSet_Sleep, h_Restore = daemonSet_Restore\<rparr>"

section \<open>hpa.go\<close>

definition loadHPA :: "'w kube \<Rightarrow> wref \<Rightarrow> ('w, hpa option) prog" where
  "loadHPA c ref = load_or_nil (call (k_get_hpa c (wr_Namespace ref) (wr_Name ref)))"

definition neutralized :: "int32 \<Rightarrow> int32" where
  "neutralized flr = (if sint flr < 1 then 1 else flr)"

definition hpa_Sleep :: "'w action" where
  "hpa_Sleep c ctx rec store schedule ref =
     bind_p (loadHPA c ref) (\<lambda>oh. case oh of None \<Rightarrow> return_p ()
       | Some h \<Rightarrow>
           (let key = Key (wr_Kind ref) (wr_Namespace ref) (wr_Name ref) (om_UID (hp_Meta h));
                flr = sp_SleepReplicas (ss_Spec schedule); n = neutralized flr;
                new = KHPA (h\<lparr>hp_MinReplicas := Some n, hp_MaxReplicas := n\<rparr>);
                msg = ''neutralized HPA min/max to '' @ FormatInt (sint n)
            in bind_p (GetRaw store schedule key) (\<lambda>found.
               if found \<noteq> None then return_p ()
               else
                 bind_p (when_p (flr = 0) (warn rec (KHPA h) ''HPAScaleToZeroUnavailable''
                   ''minReplicas clamped to 1: scaling an HPA to 0 needs the HPAScaleToZero feature gate'')) (\<lambda>_.
                 if sp_DryRun (ss_Spec schedule) then
                   emit rec (KHPA h) ''DryRunSlept'' (''dry-run: would pin HPA min/max to '' @ FormatInt (sint n))
                 else
                   bind_p (SetRaw store schedule key
                     (Marshal_bounds (hp_MinReplicas h, hp_MaxReplicas h))) (\<lambda>_.
                   bind_p (call (k_patch c (KHPA h) new)) (\<lambda>_.
                   bind_p (emit rec new ''Slept'' msg) (\<lambda>_.
                   Record c ctx rec schedule (wr_Kind ref) (wr_Namespace ref) (wr_Name ref) ''Slept'' msg)))))))"

definition hpa_Restore :: "'w action" where
  "hpa_Restore c ctx rec store schedule ref =
     bind_p (loadHPA c ref) (\<lambda>oh. case oh of None \<Rightarrow> return_p ()
       | Some h \<Rightarrow>
           (let key = Key (wr_Kind ref) (wr_Namespace ref) (wr_Name ref) (om_UID (hp_Meta h))
            in bind_p (GetRaw store schedule key) (\<lambda>found.
               case found of
                 None \<Rightarrow> return_p ()
               | Some raw \<Rightarrow>
                   (case Unmarshal_bounds raw of
                      None \<Rightarrow> throw_p (CorruptHPA key)
                    | Some (mn, mx) \<Rightarrow>
                        if sp_DryRun (ss_Spec schedule) then
                          emit rec (KHPA h) ''DryRunWoke'' ''dry-run: would restore HPA min/max''
                        else
                          (let new = KHPA (h\<lparr>hp_MinReplicas := mn, hp_MaxReplicas := mx\<rparr>)
                           in bind_p (call (k_patch c (KHPA h) new)) (\<lambda>_.
                              bind_p (emit rec new ''Woke'' ''restored HPA min/max'') (\<lambda>_.
                              bind_p (Record c ctx rec schedule (wr_Kind ref) (wr_Namespace ref) (wr_Name ref)
                                ''Woke'' ''restored HPA min/max'') (\<lambda>_.
                              Delete_entry store schedule key))))))))"

definition hpa_List :: "'w kube \<Rightarrow> list_opt \<Rightarrow> ('w, wref list) prog" where
  "hpa_List = list_refs KindHPA"

definition hpaHandler :: "'w handler" where
  "hpaHandler = \<lparr>h_Kind = KindHPA, h_List = hpa_List,
     h_Sleep = hpa_Sleep, h_Restore = hpa_Restore\<rparr>"

end
