(* ===== verification/Workload_Dispatch.thy ===== *)
theory Workload_Dispatch
  imports Workload_Handlers
begin

text \<open>
  \<open>registry.go\<close>, \<open>resolve.go\<close> and \<open>apply.go\<close>: which handler acts on a kind, which workloads a
  schedule is about, and the pass over them. A Go map used as a set is an association list to
  \<open>()\<close>. \<open>sort.Slice\<close> with the code's comparison is the library sort on the order of refs by
  kind, namespace and name; the order is total, so every sorting algorithm gives this list.
\<close>

section \<open>registry.go\<close>

record 'w registry =
  rg_byKind :: "'w handler gomap"
  rg_order :: "string list"

definition register :: "'w registry \<Rightarrow> 'w handler \<Rightarrow> 'w registry" where
  "register r h =
     (let r' = (if map_of (rg_byKind r) (h_Kind h) = None
                then r\<lparr>rg_order := rg_order r @ [h_Kind h]\<rparr> else r)
      in r'\<lparr>rg_byKind := map_put (h_Kind h) h (rg_byKind r')\<rparr>)"

definition NewRegistry :: "'w handler list \<Rightarrow> 'w registry" where
  "NewRegistry hs = foldl register \<lparr>rg_byKind = [], rg_order = []\<rparr> hs"

definition Default_registry :: "'w registry" where
  "Default_registry = NewRegistry
     [deploymentHandler, statefulSetHandler, daemonSetHandler, cronJobHandler, jobHandler, hpaHandler]"

definition registry_Get :: "'w registry \<Rightarrow> string \<Rightarrow> 'w handler option" where
  "registry_Get r kind = map_of (rg_byKind r) kind"

definition registry_Has :: "'w registry \<Rightarrow> string \<Rightarrow> bool" where
  "registry_Has r kind \<longleftrightarrow> map_of (rg_byKind r) kind \<noteq> None"

definition Kinds :: "'w registry \<Rightarrow> string list" where
  "Kinds r = rg_order r"

section \<open>The order of refs\<close>

text \<open>The comparison that \<open>Resolve\<close> passes to \<open>sort.Slice\<close>; refs are ordered by it.\<close>

definition ref_less :: "'a wref_scheme \<Rightarrow> 'a wref_scheme \<Rightarrow> bool" where
  "ref_less a b \<longleftrightarrow>
     (if wr_Kind a \<noteq> wr_Kind b then wr_Kind a < wr_Kind b
      else if wr_Namespace a \<noteq> wr_Namespace b then wr_Namespace a < wr_Namespace b
      else wr_Name a < wr_Name b)"

instantiation wref_ext :: (linorder) linorder
begin

definition less_eq_wref_ext :: "'a wref_scheme \<Rightarrow> 'a wref_scheme \<Rightarrow> bool" where
  "a \<le> b \<longleftrightarrow> ref_less a b
     \<or> wr_Kind a = wr_Kind b \<and> wr_Namespace a = wr_Namespace b \<and> wr_Name a = wr_Name b
       \<and> wref.more a \<le> wref.more b"

definition less_wref_ext :: "'a wref_scheme \<Rightarrow> 'a wref_scheme \<Rightarrow> bool" where
  "(a :: 'a wref_scheme) < b \<longleftrightarrow> a \<le> b \<and> \<not> b \<le> a"

instance
  by standard
    (auto simp: ref_less_def less_eq_wref_ext_def less_wref_ext_def split: if_splits
      intro!: wref.equality)

end

text \<open>On refs the order of the class is the comparison of the code.\<close>

lemma less_wref_iff: "(a :: wref) < b \<longleftrightarrow> ref_less a b"
  by (auto simp: ref_less_def less_eq_wref_ext_def less_wref_ext_def split: if_splits)

section \<open>resolve.go\<close>

record 'w resolver =
  rv_Client :: "'w kube"
  rv_Registry :: "'w registry option"

definition resolver_registry :: "'w resolver \<Rightarrow> 'w registry" where
  "resolver_registry r = (case rv_Registry r of Some reg \<Rightarrow> reg | None \<Rightarrow> Default_registry)"

definition exKey :: "string \<Rightarrow> string \<Rightarrow> string \<Rightarrow> string" where
  "exKey kind namespace name = kind @ ''/'' @ namespace @ ''/'' @ name"

definition excludeSet :: "resource_ref list \<Rightarrow> unit gomap" where
  "excludeSet refs =
     foldl (\<lambda>s r. map_put (exKey (rr_Kind r) (rr_Namespace r) (rr_Name r)) () s) [] refs"

definition isExcluded :: "unit gomap \<Rightarrow> wref \<Rightarrow> bool" where
  "isExcluded excluded ref \<longleftrightarrow>
     map_of excluded (exKey (wr_Kind ref) '''' (wr_Name ref)) \<noteq> None
     \<or> map_of excluded (exKey (wr_Kind ref) (wr_Namespace ref) (wr_Name ref)) \<noteq> None"

fun dedup_kinds :: "unit gomap \<Rightarrow> string list \<Rightarrow> string list" where
  "dedup_kinds seen [] = []"
| "dedup_kinds seen (k # ks) =
     (if map_of seen k = None then k # dedup_kinds (map_put k () seen) ks else dedup_kinds seen ks)"

definition requestedKinds :: "string list \<Rightarrow> 'w registry \<Rightarrow> string list" where
  "requestedKinds requested reg = (if requested = [] then Kinds reg else dedup_kinds [] requested)"

fun list_namespaces :: "'w kube \<Rightarrow> 'w handler \<Rightarrow> wref list \<Rightarrow> string list \<Rightarrow> ('w, wref list) prog" where
  "list_namespaces c h refs [] = return_p refs"
| "list_namespaces c h refs (ns # nss) =
     bind_p (h_List h c (InNamespace ns)) (\<lambda>part. list_namespaces c h (refs @ part) nss)"

definition listKind :: "'w kube \<Rightarrow> 'w handler \<Rightarrow> target \<Rightarrow> ('w, wref list) prog" where
  "listKind c h tgt =
     (if tg_Mode tgt = TargetModeNamespaces then list_namespaces c h [] (tg_Namespaces tgt)
      else if tg_Mode tgt = TargetModeLabels then
        (case k_as_selector c (tg_Selector tgt) of
           Inl err \<Rightarrow> throw_p (InvalidSelector err)
         | Inr sel \<Rightarrow> h_List h c (MatchingLabelsSelector sel))
      else throw_p (UnknownTargetMode (tg_Mode tgt)))"

fun resolve_kinds ::
  "'w kube \<Rightarrow> 'w registry \<Rightarrow> unit gomap \<Rightarrow> target \<Rightarrow> wref list \<Rightarrow> string list \<Rightarrow> string list
   \<Rightarrow> ('w, wref list \<times> string list) prog"
where
  "resolve_kinds c reg excluded tgt refs unhandled [] = return_p (refs, unhandled)"
| "resolve_kinds c reg excluded tgt refs unhandled (kind # kinds) =
     (case registry_Get reg kind of
        None \<Rightarrow> resolve_kinds c reg excluded tgt refs (unhandled @ [kind]) kinds
      | Some h \<Rightarrow>
          bind_p (listKind c h tgt) (\<lambda>found.
            resolve_kinds c reg excluded tgt
              (refs @ filter (\<lambda>ref. \<not> isExcluded excluded ref) found) unhandled kinds))"

definition Resolve :: "'w resolver \<Rightarrow> sleep_schedule_spec \<Rightarrow> ('w, wref list \<times> string list) prog" where
  "Resolve r spec =
     (let reg = resolver_registry r; excluded = excludeSet (sp_ExcludeRefs spec)
      in bind_p (resolve_kinds (rv_Client r) reg excluded (sp_Target spec) [] []
                   (requestedKinds (sp_Kinds spec) reg)) (\<lambda>(refs, unhandled).
           return_p (sort refs, unhandled)))"

section \<open>apply.go\<close>

record 'w sleeper =
  sl_Client :: "'w kube"
  sl_Store :: "'w store"
  sl_Recorder :: bool
  sl_Registry :: "'w registry option"
  sl_Who :: string
  sl_Why :: string

definition sleeper_registry :: "'w sleeper \<Rightarrow> 'w registry" where
  "sleeper_registry s = (case sl_Registry s of Some reg \<Rightarrow> reg | None \<Rightarrow> Default_registry)"

fun apply_refs ::
  "'w sleeper \<Rightarrow> 'w registry \<Rightarrow> ctx \<Rightarrow> sleep_schedule \<Rightarrow> bool \<Rightarrow> wref list \<Rightarrow> ('w, unit) prog"
where
  "apply_refs s reg ctx schedule asleep [] = return_p ()"
| "apply_refs s reg ctx schedule asleep (ref # refs) =
     (case registry_Get reg (wr_Kind ref) of
        None \<Rightarrow> throw_p (UnsupportedKind (wr_Kind ref))
      | Some h \<Rightarrow>
          bind_p ((if asleep then h_Sleep h else h_Restore h)
                    (sl_Client s) ctx (sl_Recorder s) (sl_Store s) schedule ref) (\<lambda>_.
            apply_refs s reg ctx schedule asleep refs))"

definition Apply :: "'w sleeper \<Rightarrow> ctx \<Rightarrow> sleep_schedule \<Rightarrow> bool \<Rightarrow> wref list \<Rightarrow> ('w, unit) prog" where
  "Apply s ctx schedule asleep refs =
     apply_refs s (sleeper_registry s)
       (NewContext ctx \<lparr>ai_Who = sl_Who s, ai_Why = sl_Why s\<rparr>) schedule asleep refs"


section \<open>What a registry holds\<close>

lemma register_simps [simp]:
  "map_of (rg_byKind (register r h)) = (map_of (rg_byKind r))(h_Kind h \<mapsto> h)"
  "rg_order (register r h) =
     (if map_of (rg_byKind r) (h_Kind h) = None then rg_order r @ [h_Kind h] else rg_order r)"
  by (simp_all add: register_def Let_def)

lemma registry_snoc: "NewRegistry (hs @ [h]) = register (NewRegistry hs) h"
  by (simp add: NewRegistry_def)

lemma registry_byKind: "map_of (rg_byKind (NewRegistry hs)) k = List.find (\<lambda>h. h_Kind h = k) (rev hs)"
  by (induction hs rule: rev_induct) (simp add: NewRegistry_def, simp add: registry_snoc)

lemma registry_find_None: "List.find (\<lambda>h. h_Kind h = k) (rev hs) = None \<longleftrightarrow> k \<notin> h_Kind ` set hs"
  by (auto simp: find_None_iff)

lemma registry_order:
  "rg_order (NewRegistry hs) = rev (remdups (rev (map h_Kind hs)))"
proof (induction hs rule: rev_induct)
  case Nil then show ?case by (simp add: NewRegistry_def)
next
  case (snoc h hs)
  then show ?case
    by (simp add: registry_snoc registry_byKind registry_find_None)
qed

end
