(* ===== verification/Reconciler.thy ===== *)
theory Reconciler
  imports Workload_Dispatch Wake_Override Schedule_Eval
begin

text \<open>
  \<open>internal/controller/sleepschedule_controller.go\<close>: one reconcile pass. A pass is a function of
  the state whose value is \<open>None\<close> where \<open>Evaluate\<close> does not return. The operational log is left out;
  Events, the audit trail, the metrics and every API call are in. \<open>rc_ErrorText\<close> is how \<open>fmt\<close> prints
  an error; it only reaches the text of two warnings.
\<close>

section \<open>The reconciler\<close>

record 'w reconciler =
  rc_Client :: "'w kube"
  rc_OperatorNamespace :: string
  rc_Recorder :: bool
  rc_Now :: "('w \<Rightarrow> instant) option"
  rc_ErrorText :: "go_error \<Rightarrow> string"

record ctrl_result =
  cr_Requeue :: bool
  cr_RequeueAfter :: duration

definition no_requeue :: ctrl_result where
  "no_requeue = \<lparr>cr_Requeue = False, cr_RequeueAfter = 0\<rparr>"

definition reconciler_now :: "'w reconciler \<Rightarrow> ('w, instant) prog" where
  "reconciler_now r s =
     (Inr (case rc_Now r of Some f \<Rightarrow> f (st_api s) | None \<Rightarrow> k_now (rc_Client r) (st_api s)), s)"

text \<open>\<open>%q\<close>, for the printable text that Kubernetes stores: quotes, backslashes and control
  characters are escaped, the bytes of other UTF-8 runes are kept.\<close>

definition hex2 :: "nat \<Rightarrow> string" where
  "hex2 n = [''0123456789abcdef'' ! (n div 16), ''0123456789abcdef'' ! (n mod 16)]"

definition quote_char :: "char \<Rightarrow> string" where
  "quote_char c =
     (let n = of_char c :: nat in
      if n = 34 then [CHR 0x5C, CHR 0x22] else if n = 92 then [CHR 0x5C, CHR 0x5C]
      else if n = 7 then [CHR 0x5C, CHR ''a''] else if n = 8 then [CHR 0x5C, CHR ''b'']
      else if n = 12 then [CHR 0x5C, CHR ''f''] else if n = 10 then [CHR 0x5C, CHR ''n'']
      else if n = 13 then [CHR 0x5C, CHR ''r''] else if n = 9 then [CHR 0x5C, CHR ''t'']
      else if n = 11 then [CHR 0x5C, CHR ''v'']
      else if n < 32 \<or> n = 127 then [CHR 0x5C, CHR ''x''] @ hex2 n
      else [c])"

definition go_quote :: "string \<Rightarrow> string" where
  "go_quote s = [CHR 0x22] @ concat (map quote_char s) @ [CHR 0x22]"

text \<open>\<open>if r.Recorder != nil { r.Recorder.Eventf(ss, \<dots>) }\<close>\<close>

definition schedule_event :: "'w reconciler \<Rightarrow> sleep_schedule \<Rightarrow> string \<Rightarrow> string \<Rightarrow> string \<Rightarrow> ('w, unit) prog" where
  "schedule_event r ss ty reason message =
     when_p (rc_Recorder r) (push_event (schedule_key ss) ty reason message)"

section \<open>Helpers\<close>

definition requeue_consider :: "instant \<Rightarrow> duration \<Rightarrow> instant \<Rightarrow> duration" where
  "requeue_consider now best t =
     (if time_IsZero t then best
      else (let d0 = time_Sub t now; d = (if d0 < d_Second then d_Second else d0)
            in if best = 0 \<or> d < best then d else best))"

definition requeueDelay :: "instant \<Rightarrow> instant \<Rightarrow> instant \<Rightarrow> duration" where
  "requeueDelay now nextTransition earliestExpiry =
     requeue_consider now (requeue_consider now 0 nextTransition) earliestExpiry"

definition auditReason :: "bool \<Rightarrow> bool \<Rightarrow> string" where
  "auditReason asleep forcedAwake =
     (if asleep then ''asleep window'' else if forcedAwake then ''active wake override''
      else ''awake window'')"

definition WakeConfigMapName :: "string \<Rightarrow> string" where
  "WakeConfigMapName scheduleName = scheduleName @ ''-wake''"

definition WakeKey :: string where "WakeKey = ''wake''"

definition temporaryWakeBounds :: "sleep_schedule \<Rightarrow> duration \<times> duration" where
  "temporaryWakeBounds ss =
     (case sp_TemporaryWake (ss_Spec ss) of
        Some tw \<Rightarrow> (tw_DefaultDuration tw, tw_MaxDuration tw)
      | None \<Rightarrow> (0, 0))"

definition statusChanged :: "sleep_schedule_status \<Rightarrow> string \<Rightarrow> instant option \<Rightarrow> int32 \<Rightarrow> bool" where
  "statusChanged cur phase next activeWakes =
     (if ss_Phase cur \<noteq> phase \<or> ss_ActiveWakes cur \<noteq> activeWakes then True
      else (case (ss_NextTransition cur, next) of
              (None, None) \<Rightarrow> False
            | (Some t, Some u) \<Rightarrow> t \<noteq> u
            | _ \<Rightarrow> True))"

section \<open>The wake ConfigMap\<close>

definition new_wake_config_map :: "sleep_schedule \<Rightarrow> config_map" where
  "new_wake_config_map ss =
     \<lparr>cm_Name = WakeConfigMapName (ss_Name ss), cm_Namespace = ss_Namespace ss,
      cm_Labels = map_put ''app.kubernetes.io/managed-by'' ''k8s-nyx''
        (map_put ''nyx.dev/schedule'' (ss_Name ss) []),
      cm_Owner = None, cm_Data = [], cm_Version = 0\<rparr>"

definition ensureWakeConfigMap :: "'w reconciler \<Rightarrow> sleep_schedule \<Rightarrow> ('w, unit) prog" where
  "ensureWakeConfigMap r ss =
     (let c = rc_Client r
      in try_p (call (k_get_cm c (ss_Namespace ss) (WakeConfigMapName (ss_Name ss)))) (\<lambda>got.
         case got of
           Inr cm \<Rightarrow> return_p ()
         | Inl e \<Rightarrow>
             if \<not> isNotFound e then throw_p e
             else (case k_set_controller_reference c ss (new_wake_config_map ss) of
                     Inl err \<Rightarrow> throw_p err
                   | Inr cm \<Rightarrow>
                       try_p (call (k_create_cm c cm)) (\<lambda>created.
                         case created of
                           Inr u \<Rightarrow> return_p ()
                         | Inl err \<Rightarrow>
                             if err = ApiError NamespaceTerminating then return_p () else throw_p err))))"

record wake_state =
  ws_ActiveCount :: nat
  ws_Earliest :: instant

definition no_wake :: wake_state where
  "no_wake = \<lparr>ws_ActiveCount = 0, ws_Earliest = zero_time\<rparr>"

text \<open>The value once it has resolved: clean up an expired one, stamp and report an active one.\<close>

definition applyWake ::
  "'w reconciler \<Rightarrow> ctx \<Rightarrow> sleep_schedule \<Rightarrow> instant \<Rightarrow> config_map \<Rightarrow> resolution \<Rightarrow> ('w, wake_state) prog"
where
  "applyWake r ctx ss now cm res =
     (let c = rc_Client r
      in bind_p (when_p (rs_Clamped res)
           (schedule_event r ss ''Normal'' ''WakeClamped''
             (''wake override clamped to maxDuration (expiry '' @ Format_RFC3339_UTC (rs_Expiry res) @ '')''))) (\<lambda>_.
         if \<not> time_After (rs_Expiry res) now then
           bind_p (call (k_update_cm c (cm\<lparr>cm_Data := map_del WakeKey (cm_Data cm)\<rparr>))) (\<lambda>_.
           bind_p (schedule_event r ss ''Normal'' ''WakeExpired'' ''wake override expired and was removed'') (\<lambda>_.
           bind_p (Record c (NewContext ctx \<lparr>ai_Who = DefaultActor, ai_Why = ''wake override expired''\<rparr>)
             False ss '''' '''' '''' ''WakeExpired'' ''wake override expired'') (\<lambda>_.
           return_p no_wake)))
         else
           bind_p (when_p (rs_Changed res)
             (call (k_update_cm c (cm\<lparr>cm_Data := map_put WakeKey (FormatExpiry (rs_Expiry res)) (cm_Data cm)\<rparr>)))) (\<lambda>_.
           bind_p (schedule_event r ss ''Normal'' ''WakeEntryAccepted''
             (''wake override active until '' @ Format_RFC3339_UTC (rs_Expiry res))) (\<lambda>_.
           bind_p (Record c (NewContext ctx \<lparr>ai_Who = DefaultActor, ai_Why = ''active wake override''\<rparr>)
             False ss '''' '''' '''' ''WakeOverride''
             (''wake override active until '' @ Format_RFC3339_UTC (rs_Expiry res))) (\<lambda>_.
           return_p \<lparr>ws_ActiveCount = 1, ws_Earliest = rs_Expiry res\<rparr>)))))"

definition processWakeEntries ::
  "'w reconciler \<Rightarrow> ctx \<Rightarrow> sleep_schedule \<Rightarrow> instant \<Rightarrow> ('w, wake_state) prog"
where
  "processWakeEntries r ctx ss now =
     try_p (call (k_get_cm (rc_Client r) (ss_Namespace ss) (WakeConfigMapName (ss_Name ss)))) (\<lambda>got.
       case got of
         Inl e \<Rightarrow> if isNotFound e then return_p no_wake else throw_p e
       | Inr cm \<Rightarrow>
           (case map_of (cm_Data cm) WakeKey of
              None \<Rightarrow> return_p no_wake
            | Some raw \<Rightarrow>
                (case ParseEntry raw of
                   Inl perr \<Rightarrow>
                     bind_p (schedule_event r ss ''Warning'' ''MalformedWakeEntry''
                       (''ignored malformed wake value '' @ go_quote raw @ '': '' @ rc_ErrorText r perr)) (\<lambda>_.
                     return_p no_wake)
                 | Inr e \<Rightarrow>
                     (case temporaryWakeBounds ss of (def, maxd) \<Rightarrow>
                       (case Resolve_wake e now def maxd of
                          Inl rerr \<Rightarrow>
                            bind_p (schedule_event r ss ''Warning'' ''UnresolvableWakeEntry''
                              (''ignored wake value '' @ go_quote raw @ '': '' @ rc_ErrorText r rerr)) (\<lambda>_.
                            return_p no_wake)
                        | Inr res \<Rightarrow> applyWake r ctx ss now cm res)))))"

section \<open>Reconcile\<close>

definition reconcile_store :: "'w reconciler \<Rightarrow> 'w store" where
  "reconcile_store r = \<lparr>sr_Client = rc_Client r, sr_Namespace = rc_OperatorNamespace r\<rparr>"

definition reconcile_sleeper :: "'w reconciler \<Rightarrow> bool \<Rightarrow> bool \<Rightarrow> 'w sleeper" where
  "reconcile_sleeper r asleep forcedAwake =
     \<lparr>sl_Client = rc_Client r, sl_Store = reconcile_store r, sl_Recorder = rc_Recorder r,
      sl_Registry = Some Default_registry, sl_Who = DefaultActor, sl_Why = auditReason asleep forcedAwake\<rparr>"

text \<open>Up to the evaluation: the schedule, the clock and the wake state; \<open>None\<close> for a schedule that is gone.\<close>

definition reconcile_read ::
  "'w reconciler \<Rightarrow> ctx \<Rightarrow> string \<Rightarrow> string \<Rightarrow> ('w, (sleep_schedule \<times> instant \<times> wake_state) option) prog"
where
  "reconcile_read r ctx namespace name =
     try_p (call (k_get_schedule (rc_Client r) namespace name)) (\<lambda>got.
       case got of
         Inl e \<Rightarrow>
           if isNotFound e then bind_p (with_metrics (metrics_Delete namespace name)) (\<lambda>_. return_p None)
           else throw_p e
       | Inr ss \<Rightarrow>
           bind_p (ensureWakeConfigMap r ss) (\<lambda>_.
           bind_p (reconciler_now r) (\<lambda>now.
           bind_p (processWakeEntries r ctx ss now) (\<lambda>ws.
           return_p (Some (ss, now, ws))))))"

fun report_unhandled :: "'w reconciler \<Rightarrow> sleep_schedule \<Rightarrow> string list \<Rightarrow> ('w, unit) prog" where
  "report_unhandled r ss [] = return_p ()"
| "report_unhandled r ss (kind # kinds) =
     bind_p (schedule_event r ss ''Warning'' ''UnhandledKind''
       (''spec.kinds includes '' @ go_quote kind @ '' but no handler is registered for it; it is ignored'')) (\<lambda>_.
     report_unhandled r ss kinds)"

definition override_seconds :: "wake_state \<Rightarrow> instant \<Rightarrow> nat \<times> nat" where
  "override_seconds ws now =
     (if 0 < ws_ActiveCount ws \<and> \<not> time_IsZero (ws_Earliest ws) \<and> 0 < time_Sub (ws_Earliest ws) now
      then Duration_Seconds (time_Sub (ws_Earliest ws) now) else float_of_nat 0)"

text \<open>The status write; a conflict asks for another pass.\<close>

definition write_status ::
  "'w reconciler \<Rightarrow> sleep_schedule \<Rightarrow> string \<Rightarrow> instant option \<Rightarrow> int32 \<Rightarrow> ctrl_result \<Rightarrow> ('w, ctrl_result) prog"
where
  "write_status r ss phase nextStatus activeWakes result =
     (if statusChanged (ss_Status ss) phase nextStatus activeWakes then
        try_p (call (k_update_status (rc_Client r)
            (ss\<lparr>ss_Status := (ss_Status ss)\<lparr>ss_Phase := phase, ss_NextTransition := nextStatus,
                                           ss_ActiveWakes := activeWakes\<rparr>\<rparr>))) (\<lambda>wrote.
          case wrote of
            Inr u \<Rightarrow> return_p result
          | Inl e \<Rightarrow> if isConflict e then return_p \<lparr>cr_Requeue = True, cr_RequeueAfter = 0\<rparr> else throw_p e)
      else return_p result)"

definition effective_phase :: "eval_result \<Rightarrow> bool \<Rightarrow> string" where
  "effective_phase res forcedAwake =
     (if \<not> er_Awake res \<and> forcedAwake then PhaseWokenByOverride else er_Phase res)"

definition next_status :: "eval_result \<Rightarrow> instant option" where
  "next_status res = (if time_IsZero (er_NextTransition res) then None else Some (er_NextTransition res))"

definition reconcile_apply ::
  "'w reconciler \<Rightarrow> ctx \<Rightarrow> sleep_schedule \<Rightarrow> instant \<Rightarrow> wake_state \<Rightarrow> eval_result \<Rightarrow> ('w, ctrl_result) prog"
where
  "reconcile_apply r ctx ss now ws res =
     (let forcedAwake = 0 < ws_ActiveCount ws;
          effectiveAsleep = (\<not> er_Awake res \<and> \<not> forcedAwake)
      in bind_p (Resolve \<lparr>rv_Client = rc_Client r, rv_Registry = Some Default_registry\<rparr> (ss_Spec ss))
           (\<lambda>(targets, unhandled).
         bind_p (report_unhandled r ss unhandled) (\<lambda>_.
         bind_p (try_p (Apply (reconcile_sleeper r effectiveAsleep forcedAwake) ctx ss effectiveAsleep targets) (\<lambda>applied.
             case applied of
               Inr u \<Rightarrow> return_p ()
             | Inl e \<Rightarrow> bind_p (when_p (\<not> effectiveAsleep)
                   (with_metrics (metrics_IncRestoreFailure (ss_Namespace ss) (ss_Name ss)))) (\<lambda>_. throw_p e))) (\<lambda>_.
         bind_p (with_metrics (metrics_Set (ss_Namespace ss) (ss_Name ss) effectiveAsleep (length targets)
             (ws_ActiveCount ws) (override_seconds ws now))) (\<lambda>_.
         write_status r ss (effective_phase res forcedAwake) (next_status res) (of_nat (ws_ActiveCount ws))
           \<lparr>cr_Requeue = False,
            cr_RequeueAfter = requeueDelay now (er_NextTransition res) (ws_Earliest ws)\<rparr>)))))"

definition Reconcile ::
  "'w reconciler \<Rightarrow> ctx \<Rightarrow> string \<Rightarrow> string \<Rightarrow> 'w state \<Rightarrow> ((go_error + ctrl_result) \<times> 'w state) option"
where
  "Reconcile r ctx namespace name s =
     (case reconcile_read r ctx namespace name s of
        (Inl e, s1) \<Rightarrow> Some (Inl e, s1)
      | (Inr None, s1) \<Rightarrow> Some (Inr no_requeue, s1)
      | (Inr (Some (ss, now, ws)), s1) \<Rightarrow>
          (case Evaluate (k_LoadLocation (rc_Client r)) (ss_Spec ss) now of
             None \<Rightarrow> None
           | Some (Inl e) \<Rightarrow> Some (Inl e, s1)
           | Some (Inr res) \<Rightarrow> Some (reconcile_apply r ctx ss now ws res s1)))"

text \<open>For evaluation: the two halves of a pass are computed only once what they act on is known.\<close>

definition evaluate_known :: "(string \<Rightarrow> location option) \<Rightarrow> sleep_schedule_spec \<Rightarrow> instant \<Rightarrow> (go_error + eval_result) option" where
  "evaluate_known = Evaluate"

lemma Evaluate_code [code]:
  "Evaluate L spec now = (if 0 \<le> now then evaluate_known L spec now else evaluate_known L spec now)"
  by (simp add: evaluate_known_def)

lemmas evaluate_known_code [code] = evaluate_known_def [unfolded fun_eq_iff Evaluate_def, rule_format]

definition apply_known ::
  "'w reconciler \<Rightarrow> ctx \<Rightarrow> sleep_schedule \<Rightarrow> instant \<Rightarrow> wake_state \<Rightarrow> eval_result \<Rightarrow> ('w, ctrl_result) prog"
where
  "apply_known = reconcile_apply"

lemma reconcile_apply_code [code]:
  "reconcile_apply r ctx ss now ws res s =
     (if er_Awake res then apply_known r ctx ss now ws res s else apply_known r ctx ss now ws res s)"
  by (simp add: apply_known_def)

lemmas apply_known_code [code] = apply_known_def [unfolded fun_eq_iff reconcile_apply_def, rule_format]

end
