(* ===== verification/Cluster_Spec.thy ===== *)
theory Cluster_Spec
  imports Workload_Handlers
begin

text \<open>
  What a program does to the cluster, whatever the world behind it: \<^theory_text>\<open>csp content m cl P\<close> says that
  \<open>m\<close>, run where the cluster is \<open>cl\<close>, ends with a result and a cluster that satisfy \<open>P\<close>. One rule
  per construct and per call of the handlers; the proofs about the handlers chain them.
\<close>

definition csp ::
  "('w \<Rightarrow> cluster) \<Rightarrow> ('w, 'a) prog \<Rightarrow> cluster \<Rightarrow> (go_error + 'a \<Rightarrow> cluster \<Rightarrow> bool) \<Rightarrow> bool"
where
  "csp content m cl P \<longleftrightarrow>
     (\<forall>s. content (st_api s) = cl \<longrightarrow> wp m (\<lambda>r s'. P r (content (st_api s'))) s)"

named_theorems csp_rules \<open>one rule per program construct\<close>

lemma cspI: "(\<And>s. content (st_api s) = cl \<Longrightarrow> wp m (\<lambda>r s'. P r (content (st_api s'))) s) \<Longrightarrow> csp content m cl P"
  by (simp add: csp_def)

lemma cspD:
  assumes "csp content m (content (st_api s)) P" and "m s = (r, s')"
  shows "P r (content (st_api s'))"
  using assms by (auto simp: csp_def wp_def)

lemma csp_return [csp_rules]: "P (Inr x) cl \<Longrightarrow> csp content (return_p x) cl P"
  by (simp add: csp_def wp_simps)

lemma csp_throw [csp_rules]: "P (Inl e) cl \<Longrightarrow> csp content (throw_p e) cl P"
  by (simp add: csp_def wp_simps)

lemma csp_bind [csp_rules]:
  "csp content m cl (\<lambda>r cl'. case r of Inl e \<Rightarrow> P (Inl e) cl' | Inr x \<Rightarrow> csp content (f x) cl' P) \<Longrightarrow>
   csp content (bind_p m f) cl P"
  unfolding csp_def wp_bind
  by (auto elim!: wp_mono split: sum.splits)

lemma csp_if [csp_rules]:
  "(b \<Longrightarrow> csp content m cl P) \<Longrightarrow> (\<not> b \<Longrightarrow> csp content n cl P) \<Longrightarrow>
   csp content (if b then m else n) cl P"
  by simp

lemma csp_when [csp_rules]:
  "(b \<Longrightarrow> csp content m cl P) \<Longrightarrow> (\<not> b \<Longrightarrow> P (Inr ()) cl) \<Longrightarrow> csp content (when_p b m) cl P"
  by (simp add: csp_def wp_simps)

lemma csp_mono: "csp content m cl P \<Longrightarrow> (\<And>r cl'. P r cl' \<Longrightarrow> Q r cl') \<Longrightarrow> csp content m cl Q"
  unfolding csp_def by (blast intro: wp_mono)

lemma csp_conj:
  "csp content m cl P \<Longrightarrow> csp content m cl Q \<Longrightarrow> csp content m cl (\<lambda>r cl'. P r cl' \<and> Q r cl')"
  by (auto simp: csp_def wp_def split: prod.splits)

lemma csp_all:
  "(\<And>a. a \<in> A \<Longrightarrow> csp content m cl (P a)) \<Longrightarrow> csp content m cl (\<lambda>r cl'. \<forall>a \<in> A. P a r cl')"
  unfolding csp_def wp_def case_prod_beta by blast

lemma csp_load:
  assumes "get_law content look get"
    and "look cl ns n = None \<Longrightarrow> P (Inr None) cl" and "\<And>e. P (Inl e) cl"
    and "\<And>x. look cl ns n = Some x \<Longrightarrow> P (Inr (Some x)) cl"
  shows "csp content (load_or_nil (call (get ns n))) cl P"
  unfolding load_or_nil_def
  by (rule cspI, unfold wp_try, rule wp_call_get [OF assms(1)])
    (use assms(2-4) in \<open>auto simp: wp_simps isNotFound_def same_view_def\<close>)

lemma csp_push [csp_rules]:
  "P (Inr ()) cl \<Longrightarrow> csp content (push_event obj ty reason message) cl P"
  "P (Inr ()) cl \<Longrightarrow> csp content (with_metrics f) cl P"
  by (simp_all add: csp_def wp_def prog_simps)

lemma csp_emit [csp_rules]: "P (Inr ()) cl \<Longrightarrow> csp content (emit rec obj reason message) cl P"
  unfolding emit_def by (intro csp_rules)

lemma csp_warn [csp_rules]: "P (Inr ()) cl \<Longrightarrow> csp content (warn rec obj reason message) cl P"
  unfolding warn_def by (intro csp_rules)

lemma csp_Record [csp_rules]:
  "P (Inr ()) cl \<Longrightarrow> csp content (Record c ctx rec schedule rk rns rn action message) cl P"
  by (simp add: csp_def wp_def Record_eq)

lemma csp_GetRaw:
  assumes "kube_laws (sr_Client st) content" and "\<And>e. P (Inl e) cl"
    and "P (Inr (entry st schedule key cl)) cl"
  shows "csp content (GetRaw st schedule key) cl P"
  by (rule cspI, rule wp_GetRaw [OF assms(1)]) (use assms(2,3) in \<open>auto simp: same_view_def\<close>)

lemma csp_SetRaw:
  assumes "kube_laws (sr_Client st) content" and "\<And>e. P (Inl e) cl"
    and "\<And>cl'. entry_upd st schedule key
        (case entry st schedule key cl of None \<Rightarrow> Some v | Some u \<Rightarrow> Some u) cl cl' \<Longrightarrow> P (Inr ()) cl'"
  shows "csp content (SetRaw st schedule key v) cl P"
  by (rule cspI, rule wp_SetRaw [OF assms(1)]) (use assms(2,3) in \<open>auto simp: same_view_def\<close>)

lemma csp_Delete:
  assumes "kube_laws (sr_Client st) content" and "\<And>e. P (Inl e) cl"
    and "\<And>cl'. entry_upd st schedule key None cl cl' \<Longrightarrow> P (Inr ()) cl'"
  shows "csp content (Delete_entry st schedule key) cl P"
  by (rule cspI, rule wp_Delete_entry [OF assms(1)]) (use assms(2,3) in \<open>auto simp: same_view_def\<close>)

lemma csp_Get:
  assumes "kube_laws (sr_Client st) content" and "\<And>e. P (Inl e) cl"
    and "entry st schedule key cl = None \<Longrightarrow> P (Inr None) cl"
    and "\<And>raw n. entry st schedule key cl = Some raw \<Longrightarrow> ParseInt 32 raw = Some n \<Longrightarrow>
      P (Inr (Some (word_of_int n))) cl"
  shows "csp content (Get st schedule key) cl P"
  by (rule cspI, rule wp_Get [OF assms(1)]) (use assms(2-4) in \<open>auto simp: same_view_def\<close>)

lemma csp_patch:
  assumes "kube_laws c content" and "cl_obj cl (key_of orig) = Some orig"
    and "\<And>e. P (Inl e) cl" and "P (Inr ()) (put_obj (stored new) cl)"
  shows "csp content (call (k_patch c orig new)) cl P"
  by (rule cspI, rule wp_patch [OF assms(1)])
    (use assms(2-4) in \<open>auto simp: same_view_def patch_effect_def\<close>)

text \<open>Where an object that a typed read returned is stored.\<close>

lemma found_obj:
  assumes "cluster_wf cl"
  shows "find_deployment cl ns n = Some d \<Longrightarrow>
      cl_obj cl (''Deployment'', ns, n) = Some (KDeployment d) \<and> key_of (KDeployment d) = (''Deployment'', ns, n)"
    and "find_stateful_set cl ns n = Some s \<Longrightarrow>
      cl_obj cl (''StatefulSet'', ns, n) = Some (KStatefulSet s) \<and> key_of (KStatefulSet s) = (''StatefulSet'', ns, n)"
    and "find_daemon_set cl ns n = Some ds \<Longrightarrow>
      cl_obj cl (''DaemonSet'', ns, n) = Some (KDaemonSet ds) \<and> key_of (KDaemonSet ds) = (''DaemonSet'', ns, n)"
    and "find_cron_job cl ns n = Some cj \<Longrightarrow>
      cl_obj cl (''CronJob'', ns, n) = Some (KCronJob cj) \<and> key_of (KCronJob cj) = (''CronJob'', ns, n)"
    and "find_job cl ns n = Some j \<Longrightarrow>
      cl_obj cl (''Job'', ns, n) = Some (KJob j) \<and> key_of (KJob j) = (''Job'', ns, n)"
    and "find_hpa cl ns n = Some h \<Longrightarrow>
      cl_obj cl (''HorizontalPodAutoscaler'', ns, n) = Some (KHPA h)
      \<and> key_of (KHPA h) = (''HorizontalPodAutoscaler'', ns, n)"
  using assms
  by (auto simp: cluster_wf_def find_deployment_def find_stateful_set_def find_daemon_set_def
      find_cron_job_def find_job_def find_hpa_def split: option.splits kobj.splits)

lemma put_obj_frame [simp]:
  "cl_secret (put_obj x cl) = cl_secret cl" "cl_cm (put_obj x cl) = cl_cm cl"
  "cl_schedule (put_obj x cl) = cl_schedule cl"
  "secret_entry (put_obj x cl) ns n k = secret_entry cl ns n k"
  by (simp_all add: put_obj_def secret_entry_def find_secret_def)

lemma put_obj_at: "cl_obj (put_obj x cl) = (cl_obj cl)(key_of x \<mapsto> x)"
  by (simp add: put_obj_def)

lemma entry_updD:
  assumes "entry_upd st schedule key v cl cl'"
  shows "cl_obj cl' = cl_obj cl" and "entry st schedule key cl' = v"
  using assms by (simp_all add: entry_upd_def)

end
