(* ===== verification/Workload_Correct.thy ===== *)
theory Workload_Correct
  imports Cluster_Spec
begin

text \<open>
  What every handler promises, whatever fails in between: the original of a workload can always be
  restored. The contract is the locale \<^theory_text>\<open>recoverable_workload\<close>; the six handlers are an
  interpretation of it.
\<close>

section \<open>Original, asleep and checkpointed forms\<close>

definition ref_of :: "kobj \<Rightarrow> wref" where
  "ref_of x = \<lparr>wr_Kind = kind_of x, wr_Namespace = om_Namespace (meta_of x), wr_Name = om_Name (meta_of x)\<rparr>"

definition key_for :: "kobj \<Rightarrow> string" where
  "key_for x = Key (kind_of x) (om_Namespace (meta_of x)) (om_Name (meta_of x)) (om_UID (meta_of x))"

text \<open>Unset replicas mean one replica; restoring writes the one.\<close>

fun norm_obj :: "kobj \<Rightarrow> kobj" where
  "norm_obj (KDeployment d) = KDeployment (d\<lparr>dp_Replicas := Some (replicasOf (dp_Replicas d))\<rparr>)"
| "norm_obj (KStatefulSet s) = KStatefulSet (s\<lparr>sts_Replicas := Some (replicasOf (sts_Replicas s))\<rparr>)"
| "norm_obj x = x"

fun doze :: "sleep_schedule \<Rightarrow> kobj \<Rightarrow> kobj" where
  "doze sch (KDeployment d) = KDeployment (d\<lparr>dp_Replicas := Some (sp_SleepReplicas (ss_Spec sch))\<rparr>)"
| "doze sch (KStatefulSet s) = KStatefulSet (s\<lparr>sts_Replicas := Some (sp_SleepReplicas (ss_Spec sch))\<rparr>)"
| "doze sch (KDaemonSet d) =
     KDaemonSet (d\<lparr>ds_NodeSelector := Some (sentinel_selector (ds_NodeSelector d))\<rparr>)"
| "doze sch (KCronJob c) = KCronJob (c\<lparr>cj_Suspend := Some True\<rparr>)"
| "doze sch (KJob j) = KJob (j\<lparr>jb_Suspend := Some True\<rparr>)"
| "doze sch (KHPA h) =
     KHPA (h\<lparr>hp_MinReplicas := Some (neutralized (sp_SleepReplicas (ss_Spec sch))),
            hp_MaxReplicas := neutralized (sp_SleepReplicas (ss_Spec sch))\<rparr>)"

fun enc :: "kobj \<Rightarrow> string" where
  "enc (KDeployment d) = FormatInt (sint (replicasOf (dp_Replicas d)))"
| "enc (KStatefulSet s) = FormatInt (sint (replicasOf (sts_Replicas s)))"
| "enc (KDaemonSet d) = Marshal_map (ds_NodeSelector d)"
| "enc (KCronJob c) = Marshal_bool (cj_Suspend c)"
| "enc (KJob j) = Marshal_bool (jb_Suspend j)"
| "enc (KHPA h) = Marshal_bounds (hp_MinReplicas h, hp_MaxReplicas h)"

text \<open>An object as the API server keeps it: node selectors are nonempty maps or absent.\<close>

fun obj_wf :: "kobj \<Rightarrow> bool" where
  "obj_wf (KDaemonSet d) =
     (case ds_NodeSelector d of None \<Rightarrow> True | Some ps \<Rightarrow> ps \<noteq> [] \<and> map_wf ps)"
| "obj_wf x = True"

definition safe_cl :: "'w store \<Rightarrow> sleep_schedule \<Rightarrow> kobj \<Rightarrow> cluster \<Rightarrow> bool" where
  "safe_cl st sch x cl \<longleftrightarrow>
     (\<exists>y. cl_obj cl (key_of x) = Some y
        \<and> (norm_obj y = norm_obj x \<and> entry st sch (key_for x) cl \<in> {None, Some (enc x)}
           \<or> norm_obj y = norm_obj (doze sch x) \<and> entry st sch (key_for x) cl = Some (enc x)))"

definition restored_cl :: "'w store \<Rightarrow> sleep_schedule \<Rightarrow> kobj \<Rightarrow> cluster \<Rightarrow> bool" where
  "restored_cl st sch x cl \<longleftrightarrow>
     (\<exists>y. cl_obj cl (key_of x) = Some y \<and> norm_obj y = norm_obj x \<and> entry st sch (key_for x) cl = None)"

lemma key_of_norm [simp]: "key_of (norm_obj x) = key_of x" "key_for (norm_obj x) = key_for x"
  by (cases x; simp add: key_of_def key_for_def)+

lemma key_of_doze [simp]: "key_of (doze sch x) = key_of x" "key_for (doze sch x) = key_for x"
  by (cases x; simp add: key_of_def key_for_def)+

lemma norm_eq_keys: "norm_obj y = norm_obj x \<Longrightarrow> key_of y = key_of x \<and> key_for y = key_for x"
  by (metis key_of_norm)

section \<open>Replicas\<close>

fun replica_count :: "kobj \<Rightarrow> int32" where
  "replica_count (KDeployment d) = replicasOf (dp_Replicas d)"
| "replica_count (KStatefulSet s) = replicasOf (sts_Replicas s)"
| "replica_count x = 0"

fun with_replicas :: "kobj \<Rightarrow> int32 \<Rightarrow> kobj" where
  "with_replicas (KDeployment d) n = KDeployment (d\<lparr>dp_Replicas := Some n\<rparr>)"
| "with_replicas (KStatefulSet s) n = KStatefulSet (s\<lparr>sts_Replicas := Some n\<rparr>)"
| "with_replicas x n = x"

fun replica_kind :: "kobj \<Rightarrow> bool" where
  "replica_kind (KDeployment d) = True"
| "replica_kind (KStatefulSet s) = True"
| "replica_kind x = False"

fun replica_obj_of :: "kobj \<Rightarrow> replica_obj" where
  "replica_obj_of (KDeployment d) = deployment_replica_obj d"
| "replica_obj_of (KStatefulSet s) = stateful_set_replica_obj s"
| "replica_obj_of x = \<lparr>ro_obj = x, ro_uid = om_UID (meta_of x), ro_replicas = 0, ro_setReplicas = \<lambda>_. x\<rparr>"

lemma replica_facts:
  assumes "replica_kind x"
  shows "norm_obj x = with_replicas x (replica_count x)" and "doze sch x = with_replicas x (sp_SleepReplicas (ss_Spec sch))"
    and "enc x = FormatInt (sint (replica_count x))" and "norm_obj (with_replicas x n) = with_replicas x n"
    and "key_of (with_replicas x n) = key_of x" and "key_for (with_replicas x n) = key_for x"
    and "stored (with_replicas x n) = with_replicas x n"
    and "ro_obj (replica_obj_of x) = x" and "ro_uid (replica_obj_of x) = om_UID (meta_of x)"
    and "ro_replicas (replica_obj_of x) = replica_count x"
    and "ro_setReplicas (replica_obj_of x) n = with_replicas x n"
    and "replica_count (with_replicas x n) = n"
    and "with_replicas (with_replicas x m) n = with_replicas x n"
  using assms
  by (cases x; simp add: replicasOf_def key_of_def key_for_def deployment_replica_obj_def
      stateful_set_replica_obj_def)+

lemma replica_kind_norm: "norm_obj y = norm_obj x \<Longrightarrow> replica_kind y = replica_kind x"
  by (cases x; cases y) auto

text \<open>An object with the same normal form is the original with some count.\<close>

lemma same_norm_replicas:
  assumes "replica_kind x" and "norm_obj y = with_replicas x n"
  shows "replica_kind y" and "replica_count y = n" and "with_replicas y m = with_replicas x m"
    and "key_of y = key_of x" and "key_for y = key_for x" and "kind_of y = kind_of x"
    and "meta_of y = meta_of x"
proof -
  have ny: "norm_obj y = norm_obj (with_replicas x n)" using assms by (simp add: replica_facts)
  show k: "replica_kind y" using replica_kind_norm [OF ny] assms(1) by (cases x) auto
  have e: "with_replicas y (replica_count y) = with_replicas x n"
    using assms(2) replica_facts(1) [OF k] by simp
  show "replica_count y = n" "with_replicas y m = with_replicas x m"
    using e replica_facts(12,13) [OF k] replica_facts(12,13) [OF assms(1)] by metis+
  have "kind_of (norm_obj z) = kind_of z" "meta_of (norm_obj z) = meta_of z"
    "kind_of (with_replicas z n) = kind_of z" "meta_of (with_replicas z n) = meta_of z" for z
    by (cases z; simp)+
  then show km: "kind_of y = kind_of x" "meta_of y = meta_of x" using assms(2) by metis+
  show "key_of y = key_of x" "key_for y = key_for x" by (simp_all add: key_of_def key_for_def km)
qed

lemma safe_replica:
  assumes "replica_kind x"
  shows "safe_cl st sch x cl \<longleftrightarrow>
    (\<exists>y n. cl_obj cl (key_of x) = Some y \<and> norm_obj y = with_replicas x n
      \<and> (n = replica_count x \<and> entry st sch (key_for x) cl \<in> {None, Some (enc x)}
         \<or> n = sp_SleepReplicas (ss_Spec sch) \<and> entry st sch (key_for x) cl = Some (enc x)))"
  unfolding safe_cl_def using replica_facts(1,2,4) [OF assms] by metis

lemma restored_replica:
  assumes "replica_kind x"
  shows "restored_cl st sch x cl \<longleftrightarrow>
    (\<exists>y. cl_obj cl (key_of x) = Some y \<and> norm_obj y = with_replicas x (replica_count x)
      \<and> entry st sch (key_for x) cl = None)"
  unfolding restored_cl_def using replica_facts(1) [OF assms] by metis

lemma csp_patchReplicas:
  assumes laws: "kube_laws c content" and "replica_kind y" and "cl_obj cl (key_of y) = Some y"
    and "\<And>e. P (Inl e) cl" and "replica_count y = want \<Longrightarrow> P (Inr ()) cl"
    and "replica_count y \<noteq> want \<Longrightarrow> P (Inr ()) (put_obj (with_replicas y want) cl)"
  shows "csp content (patchReplicas c ctx rec sch ref (replica_obj_of y) want False reason) cl P"
  unfolding patchReplicas_def Let_def replica_facts(8,10,11) [OF assms(2)]
  by (intro csp_rules csp_patch [OF laws])
    (use assms(3-6) replica_facts(7) [OF assms(2)] in \<open>auto intro!: csp_rules\<close>)

text \<open>What the loaders of the two replica kinds do where the object is \<open>y\<close>.\<close>

definition loads :: "('w \<Rightarrow> cluster) \<Rightarrow> 'w kube \<Rightarrow> 'w load_func \<Rightarrow> kobj \<Rightarrow> bool" where
  "loads content c load x \<longleftrightarrow>
     (\<forall>cl y P. cluster_wf cl \<longrightarrow> cl_obj cl (key_of x) = Some y \<longrightarrow> kind_of y = kind_of x \<longrightarrow>
        (\<forall>e. P (Inl e) cl) \<longrightarrow> P (Inr (Some (replica_obj_of y))) cl \<longrightarrow>
        csp content (load c (ref_of x)) cl P)"

lemma loads_deployment:
  assumes "kube_laws c content"
  shows "loads content c loadDeployment (KDeployment d)"
  unfolding loads_def
proof (intro allI impI)
  fix cl y and P :: "go_error + replica_obj option \<Rightarrow> cluster \<Rightarrow> bool"
  assume h: "cluster_wf cl" "cl_obj cl (key_of (KDeployment d)) = Some y"
    "kind_of y = kind_of (KDeployment d)" "\<forall>e. P (Inl e) cl" "P (Inr (Some (replica_obj_of y))) cl"
  from h(3) obtain d' where y: "y = KDeployment d'" by (cases y) auto
  show "csp content (loadDeployment c (ref_of (KDeployment d))) cl P"
    unfolding loadDeployment_def ref_of_def wref.simps
    by (intro csp_rules csp_load [OF kube_lawsD(10) [OF assms]])
      (use h y in \<open>auto simp: find_deployment_def key_of_def intro!: csp_rules\<close>)
qed

lemma loads_stateful_set:
  assumes "kube_laws c content"
  shows "loads content c loadStatefulSet (KStatefulSet s)"
  unfolding loads_def
proof (intro allI impI)
  fix cl y and P :: "go_error + replica_obj option \<Rightarrow> cluster \<Rightarrow> bool"
  assume h: "cluster_wf cl" "cl_obj cl (key_of (KStatefulSet s)) = Some y"
    "kind_of y = kind_of (KStatefulSet s)" "\<forall>e. P (Inl e) cl" "P (Inr (Some (replica_obj_of y))) cl"
  from h(3) obtain s' where y: "y = KStatefulSet s'" by (cases y) auto
  show "csp content (loadStatefulSet c (ref_of (KStatefulSet s))) cl P"
    unfolding loadStatefulSet_def ref_of_def wref.simps
    by (intro csp_rules csp_load [OF kube_lawsD(11) [OF assms]])
      (use h y in \<open>auto simp: find_stateful_set_def key_of_def intro!: csp_rules\<close>)
qed

lemma sleepReplica_safe:
  assumes laws: "kube_laws (sr_Client st) content" and x: "replica_kind x"
    and load: "loads content (sr_Client st) load x" and dry: "\<not> sp_DryRun (ss_Spec sch)"
    and wf: "cluster_wf cl" and safe: "safe_cl st sch x cl"
  shows "csp content (sleepReplica load (sr_Client st) ctx rec st sch (ref_of x)) cl
    (\<lambda>r cl'. safe_cl st sch x cl' \<and> (\<forall>u. r = Inr u \<longrightarrow>
      (\<exists>y. cl_obj cl' (key_of x) = Some y \<and> norm_obj y = doze sch x)))"
proof -
  let ?z = "sp_SleepReplicas (ss_Spec sch)"
  let ?P = "\<lambda>r cl'. safe_cl st sch x cl' \<and> (\<forall>u. r = Inr u \<longrightarrow>
      (\<exists>y. cl_obj cl' (key_of x) = Some y \<and> norm_obj y = doze sch x))"
  obtain y n where y: "cl_obj cl (key_of x) = Some y" "norm_obj y = with_replicas x n"
    and n: "n = replica_count x \<and> entry st sch (key_for x) cl \<in> {None, Some (enc x)}
      \<or> n = ?z \<and> entry st sch (key_for x) cl = Some (enc x)"
    using safe unfolding safe_replica [OF x] by blast
  note yf = same_norm_replicas [OF x y(2)]
  note rf = replica_facts [OF yf(1)]
  have key: "Key (kind_of x) (om_Namespace (meta_of x)) (om_Name (meta_of x)) (om_UID (meta_of y)) = key_for x"
    by (simp add: key_for_def yf(7))
  have patch: "csp content (patchReplicas (sr_Client st) ctx rec sch (ref_of x) (replica_obj_of y) ?z False ''Slept'') cl' ?P"
    if h: "cl_obj cl' = cl_obj cl" "entry st sch (key_for x) cl' = Some (enc x)" for cl'
  proof (rule csp_patchReplicas [OF laws yf(1)])
    have s: "safe_cl st sch x cl'" unfolding safe_replica [OF x] using y n h by auto
    show "cl_obj cl' (key_of y) = Some y" using y h yf by simp
    show "?P (Inl e) cl'" for e using s by simp
    show "?P (Inr ()) cl'" if "replica_count y = ?z"
      using s that y h yf(2) replica_facts(2) [OF x] by auto
    show "?P (Inr ()) (put_obj (with_replicas y ?z) cl')"
      unfolding safe_replica [OF x]
      using h yf replica_facts(2,4,5) [OF x] by (auto simp: put_obj_at)
  qed
  show ?thesis
    unfolding sleepReplica_def ref_of_def wref.simps Let_def
  proof (intro csp_bind load [unfolded loads_def ref_of_def, rule_format, OF wf y(1) yf(6)], goal_cases)
    case (1 e) then show ?case using safe by simp
  next
    case 2
    show ?case unfolding sum.case option.case rf(9,10) key
    proof (intro csp_bind csp_Get [OF laws], goal_cases)
      case (1 e) then show ?case using safe by simp
    next
      case 2
      then have nx: "n = replica_count x" using n by auto
      have fresh: "FormatInt (sint (replica_count y)) = enc x"
        using yf(2) nx by (simp add: replica_facts(3) [OF x])
      have c: "None = None \<and> \<not> sp_DryRun (ss_Spec sch)" using dry by simp
      show ?case unfolding sum.case Set_replicas_def if_P [OF c] fresh
      proof (intro csp_bind csp_SetRaw [OF laws], goal_cases)
        case (1 e) then show ?case using safe by simp
      next
        case (2 cl')
        then show ?case
          using patch [of cl'] entry_updD [OF 2] \<open>entry st sch (key_for x) cl = None\<close> dry
          by (simp add: ref_of_def)
      qed
    next
      case (3 raw m)
      have "entry st sch (key_for x) cl = Some (enc x)" using 3(1) n by auto
      then show ?case using patch [of cl] dry by (auto intro!: csp_rules simp: ref_of_def)
    qed
  qed
qed


lemma ParseInt_enc: "ParseInt 32 (FormatInt (sint (n :: int32))) = Some m \<Longrightarrow> word_of_int m = n"
  by auto

lemma restoreReplica_safe:
  assumes laws: "kube_laws (sr_Client st) content" and x: "replica_kind x"
    and load: "loads content (sr_Client st) load x" and dry: "\<not> sp_DryRun (ss_Spec sch)"
    and wf: "cluster_wf cl" and safe: "safe_cl st sch x cl"
  shows "csp content (restoreReplica load (sr_Client st) ctx rec st sch (ref_of x)) cl
    (\<lambda>r cl'. safe_cl st sch x cl' \<and> (\<forall>u. r = Inr u \<longrightarrow> restored_cl st sch x cl'))"
proof -
  let ?P = "\<lambda>r cl'. safe_cl st sch x cl' \<and> (\<forall>u. r = Inr u \<longrightarrow> restored_cl st sch x cl')"
  let ?o = "replica_count x"
  obtain y n where y: "cl_obj cl (key_of x) = Some y" "norm_obj y = with_replicas x n"
    and n: "n = ?o \<and> entry st sch (key_for x) cl \<in> {None, Some (enc x)}
      \<or> n = sp_SleepReplicas (ss_Spec sch) \<and> entry st sch (key_for x) cl = Some (enc x)"
    using safe unfolding safe_replica [OF x] by blast
  note yf = same_norm_replicas [OF x y(2)]
  note rf = replica_facts [OF yf(1)]
  have key: "Key (kind_of x) (om_Namespace (meta_of x)) (om_Name (meta_of x)) (om_UID (meta_of y)) = key_for x"
    by (simp add: key_for_def yf(7))
  have del: "csp content (Delete_entry st sch (key_for x)) cl' ?P"
    if h: "cl_obj cl' (key_of x) = Some z" "norm_obj z = with_replicas x ?o"
      "entry st sch (key_for x) cl' = Some (enc x)" for cl' z
    by (rule csp_Delete [OF laws])
      (use h in \<open>auto simp: safe_replica [OF x] restored_replica [OF x] entry_updD\<close>)
  show ?thesis
    unfolding restoreReplica_def ref_of_def wref.simps Let_def
  proof (intro csp_bind load [unfolded loads_def ref_of_def, rule_format, OF wf y(1) yf(6)], goal_cases)
    case (1 e) then show ?case using safe by simp
  next
    case 2
    show ?case unfolding sum.case option.case rf(9,10) key
    proof (intro csp_bind csp_Get [OF laws], goal_cases)
      case (1 e) then show ?case using safe by simp
    next
      case 2
      then have "n = ?o" using n by auto
      then show ?case using 2 y safe by (auto intro!: csp_rules simp: restored_replica [OF x])
    next
      case (3 raw m)
      then have e: "entry st sch (key_for x) cl = Some (enc x)" using n by auto
      with 3 have m: "word_of_int m = ?o"
        by (simp add: replica_facts(3) [OF x] ParseInt_enc)
      show ?case unfolding sum.case option.case m
      proof (intro csp_bind, simp only: dry, rule csp_patchReplicas [OF laws yf(1)], goal_cases)
        case 1 then show ?case using y yf by simp
      next
        case (2 u) then show ?case using safe by simp
      next
        case 3
        with yf(2) y have "norm_obj y = with_replicas x ?o" by simp
        with del [OF y(1) _ e] show ?case by simp
      next
        case 4
        have "cl_obj (put_obj (with_replicas y ?o) cl) (key_of x) = Some (with_replicas x ?o)"
          using yf(3,4) replica_facts(5) [OF x] by (simp add: put_obj_at)
        with del [of "put_obj (with_replicas y ?o) cl"] e replica_facts(4) [OF x] show ?case by simp
      qed
    qed
  qed
qed

end
