(* ===== verification/Workload_Kinds.thy ===== *)
theory Workload_Kinds
  imports Workload_Correct
begin

text \<open>
  The kinds that checkpoint JSON: CronJobs and Jobs (\<open>spec.suspend\<close>), DaemonSets (the node
  selector) and HPAs (the bounds). Each stays recoverable through every attempt, successful or not.
\<close>

section \<open>The common tails\<close>

lemma plain_norm: "\<not> replica_kind x \<Longrightarrow> norm_obj y = x \<longleftrightarrow> y = x"
  by (cases x; cases y) auto

lemma plain_forms:
  assumes "\<not> replica_kind x"
  shows "norm_obj x = x" and "norm_obj (doze sch x) = doze sch x" and "\<not> replica_kind (doze sch x)"
    and "meta_of (doze sch x) = meta_of x"
  using assms by (cases x; simp)+

lemma safe_plain:
  assumes "\<not> replica_kind x"
  shows "safe_cl st sch x cl \<longleftrightarrow>
    cl_obj cl (key_of x) = Some x \<and> entry st sch (key_for x) cl \<in> {None, Some (enc x)}
    \<or> cl_obj cl (key_of x) = Some (doze sch x) \<and> entry st sch (key_for x) cl = Some (enc x)"
  unfolding safe_cl_def plain_forms [OF assms] plain_norm [OF assms] plain_norm [OF plain_forms(3) [OF assms]]
  by auto

lemma restored_plain:
  assumes "\<not> replica_kind x"
  shows "restored_cl st sch x cl \<longleftrightarrow> cl_obj cl (key_of x) = Some x \<and> entry st sch (key_for x) cl = None"
  unfolding restored_cl_def plain_forms(1) [OF assms] plain_norm [OF assms] by auto

text \<open>Patch back, report, clear the entry.\<close>

lemma csp_restore_tail:
  assumes laws: "kube_laws (sr_Client st) content" and x: "\<not> replica_kind x" "stored x = x"
    and y: "cl_obj cl (key_of x) = Some y" "y \<in> {x, doze sch x}"
    and e: "entry st sch (key_for x) cl = Some (enc x)"
  shows "csp content (bind_p (call (k_patch (sr_Client st) y x)) (\<lambda>_.
      bind_p (emit rec x reason msg) (\<lambda>_.
      bind_p (Record (sr_Client st) ctx rec sch rk rns rn action text) (\<lambda>_.
      Delete_entry st sch (key_for x))))) cl
    (\<lambda>r cl'. safe_cl st sch x cl' \<and> (\<forall>u. r = Inr u \<longrightarrow> restored_cl st sch x cl'))"
proof (intro csp_rules csp_patch [OF laws], goal_cases)
  case 1 then show ?case using y by auto
next
  case (2 u) then show ?case using y e by (auto simp: safe_plain [OF x(1)])
next
  case 3
  show ?case unfolding sum.case
    by (intro csp_rules, unfold sum.case, intro csp_rules, unfold sum.case, rule csp_Delete [OF laws])
      (use x e in \<open>auto simp: safe_plain restored_plain put_obj_at entry_updD\<close>)
qed

text \<open>
  The shape of every restore: nothing without an entry, else decode it, patch back and clear it.
\<close>

lemma csp_restore_entry:
  assumes laws: "kube_laws (sr_Client st) content" and x: "\<not> replica_kind x" "stored x = x"
    and safe: "safe_cl st sch x cl" and y: "cl_obj cl (key_of x) = Some y"
    and none: "F None = return_p ()"
    and some: "F (Some (enc x)) = bind_p (call (k_patch (sr_Client st) y x)) (\<lambda>_.
      bind_p (emit rec x reason msg) (\<lambda>_.
      bind_p (Record (sr_Client st) ctx rec sch rk rns rn action text) (\<lambda>_.
      Delete_entry st sch (key_for x))))"
  shows "csp content (bind_p (GetRaw st sch (key_for x)) F) cl
    (\<lambda>r cl'. safe_cl st sch x cl' \<and> (\<forall>u. r = Inr u \<longrightarrow> restored_cl st sch x cl'))"
proof (rule csp_bind, rule csp_GetRaw [OF laws], goal_cases)
  case (1 e) then show ?case using safe by simp
next
  case 2
  from safe y consider (none) "entry st sch (key_for x) cl = None" "y = x"
    | (some) "entry st sch (key_for x) cl = Some (enc x)" "y \<in> {x, doze sch x}"
    by (auto simp: safe_plain [OF x(1)])
  then show ?case
  proof cases
    case none
    with safe y show ?thesis
      by (auto intro!: csp_rules simp: assms(6) restored_plain [OF x(1)])
  next
    case some
    show ?thesis unfolding some(1) sum.case assms(7)
      by (rule csp_restore_tail [OF laws x y some(2,1)])
  qed
qed

text \<open>Patch to the sleeping form and report, the original being recorded.\<close>

lemma csp_sleep_tail:
  assumes laws: "kube_laws (sr_Client st) content"
    and x: "\<not> replica_kind x" "stored (doze sch x) = doze sch x"
    and y: "cl_obj cl (key_of x) = Some y" "y \<in> {x, doze sch x}"
    and e: "entry st sch (key_for x) cl = Some (enc x)"
  shows "csp content (bind_p (call (k_patch (sr_Client st) y (doze sch x))) (\<lambda>_.
      bind_p (emit rec (doze sch x) reason msg) (\<lambda>_.
      Record (sr_Client st) ctx rec sch rk rns rn action text))) cl
    (\<lambda>r cl'. safe_cl st sch x cl' \<and> (\<forall>u. r = Inr u \<longrightarrow> cl_obj cl' (key_of x) = Some (doze sch x)))"
proof (intro csp_rules csp_patch [OF laws], goal_cases)
  case 1 then show ?case using y by auto
next
  case (2 u) then show ?case using y e by (auto simp: safe_plain [OF x(1)])
next
  case 3
  show ?case unfolding sum.case
    by (intro csp_rules, unfold sum.case, intro csp_rules)
      (use x e in \<open>auto simp: safe_plain put_obj_at\<close>)
qed

section \<open>Suspension\<close>

text \<open>\<open>w\<close> wraps the object \<open>y\<close>, which is the original \<open>x\<close> or its suspended form.\<close>

definition wraps :: "suspend_obj \<Rightarrow> sleep_schedule \<Rightarrow> kobj \<Rightarrow> kobj \<Rightarrow> bool" where
  "wraps w sch x y \<longleftrightarrow> so_obj w = y \<and> so_uid w = om_UID (meta_of x)
     \<and> so_setSuspend w (Some True) = doze sch x
     \<and> (\<exists>b. enc x = Marshal_bool b \<and> so_setSuspend w b = x \<and> (y = x \<longrightarrow> so_suspend w = b))
     \<and> \<not> replica_kind x \<and> stored x = x \<and> stored (doze sch x) = doze sch x"

lemma wraps_cron_job:
  assumes "KCronJob c' \<in> {KCronJob c, doze sch (KCronJob c)}"
  shows "wraps (cronJobSuspendObj c') sch (KCronJob c) (KCronJob c')"
  using assms by (auto simp: wraps_def cronJobSuspendObj_def)

lemma wraps_job:
  assumes "KJob j' \<in> {KJob j, doze sch (KJob j)}"
  shows "wraps (jobSuspendObj j') sch (KJob j) (KJob j')"
  using assms by (auto simp: wraps_def jobSuspendObj_def)

lemma sleepSuspend_safe:
  assumes laws: "kube_laws (sr_Client st) content" and w: "wraps w sch x y"
    and dry: "\<not> sp_DryRun (ss_Spec sch)" and safe: "safe_cl st sch x cl"
    and y: "cl_obj cl (key_of x) = Some y"
  shows "csp content (sleepSuspend (sr_Client st) ctx rec st sch (ref_of x) w) cl
    (\<lambda>r cl'. safe_cl st sch x cl' \<and> (\<forall>u. r = Inr u \<longrightarrow> entry st sch (key_for x) cl = None \<longrightarrow>
      cl_obj cl' (key_of x) = Some (doze sch x)))"
proof -
  from w have x: "\<not> replica_kind x" "stored (doze sch x) = doze sch x"
    and wf: "so_obj w = y" "so_setSuspend w (Some True) = doze sch x"
    by (simp_all add: wraps_def)
  have key: "Key (kind_of x) (om_Namespace (meta_of x)) (om_Name (meta_of x)) (so_uid w) = key_for x"
    using w by (simp add: wraps_def key_for_def)
  show ?thesis
    unfolding sleepSuspend_def ref_of_def wref.simps Let_def key
  proof (intro csp_bind csp_GetRaw [OF laws], goal_cases)
    case (1 e) then show ?case using safe by simp
  next
    case 2
    show ?case unfolding sum.case
    proof (intro csp_if, goal_cases)
      case 1 then show ?case using safe by (auto intro!: csp_rules)
    next
      case 2 then show ?case using dry by simp
    next
      case 3
      then have none: "entry st sch (key_for x) cl = None" by simp
      then have yx: "y = x" using safe y by (auto simp: safe_plain [OF x(1)])
      with w have "Marshal_bool (so_suspend w) = enc x" by (auto simp: wraps_def)
      then show ?case unfolding wf
      proof (intro csp_bind [of _ "SetRaw _ _ _ _"] csp_SetRaw [OF laws], goal_cases)
        case (1 e) then show ?case using safe by simp
      next
        case (2 cl')
        note upd = entry_updD [OF 2(2)]
        show ?case unfolding sum.case
          by (rule csp_mono [OF csp_sleep_tail [OF laws x]])
            (use upd y none yx 2(1) in auto)
      qed
    qed
  qed
qed

lemma restoreSuspend_safe:
  assumes laws: "kube_laws (sr_Client st) content" and w: "wraps w sch x y"
    and dry: "\<not> sp_DryRun (ss_Spec sch)" and safe: "safe_cl st sch x cl"
    and y: "cl_obj cl (key_of x) = Some y"
  shows "csp content (restoreSuspend (sr_Client st) ctx rec st sch (ref_of x) w) cl
    (\<lambda>r cl'. safe_cl st sch x cl' \<and> (\<forall>u. r = Inr u \<longrightarrow> restored_cl st sch x cl'))"
proof -
  from w obtain b where x: "\<not> replica_kind x" "stored x = x" and wf: "so_obj w = y"
    and b: "enc x = Marshal_bool b" "so_setSuspend w b = x"
    by (auto simp: wraps_def)
  have key: "Key (kind_of x) (om_Namespace (meta_of x)) (om_Name (meta_of x)) (so_uid w) = key_for x"
    using w by (simp add: wraps_def key_for_def)
  show ?thesis
    unfolding restoreSuspend_def ref_of_def wref.simps Let_def key wf
    by (rule csp_restore_entry [OF laws x safe y], simp, use b dry in simp)
qed

section \<open>Loading\<close>

text \<open>The typed read of an object whose current form is known.\<close>

lemma csp_loads:
  assumes laws: "kube_laws (sr_Client st) content"
  shows "cl_obj cl (key_of (KCronJob a)) = Some (KCronJob a') \<Longrightarrow> (\<And>e. P (Inl e) cl) \<Longrightarrow> P (Inr (Some a')) cl \<Longrightarrow>
      csp content (loadCronJob (sr_Client st) (ref_of (KCronJob a))) cl P"
    and "cl_obj cl (key_of (KJob b)) = Some (KJob b') \<Longrightarrow> (\<And>e. Q (Inl e) cl) \<Longrightarrow> Q (Inr (Some b')) cl \<Longrightarrow>
      csp content (loadJob (sr_Client st) (ref_of (KJob b))) cl Q"
    and "cl_obj cl (key_of (KDaemonSet d)) = Some (KDaemonSet d') \<Longrightarrow> (\<And>e. R (Inl e) cl) \<Longrightarrow> R (Inr (Some d')) cl \<Longrightarrow>
      csp content (getDaemonSet (sr_Client st) (ref_of (KDaemonSet d))) cl R"
    and "cl_obj cl (key_of (KHPA h)) = Some (KHPA h') \<Longrightarrow> (\<And>e. S (Inl e) cl) \<Longrightarrow> S (Inr (Some h')) cl \<Longrightarrow>
      csp content (loadHPA (sr_Client st) (ref_of (KHPA h))) cl S"
  unfolding loadCronJob_def loadJob_def getDaemonSet_def loadHPA_def
  by (intro csp_load [OF kube_lawsD(13) [OF laws]] csp_load [OF kube_lawsD(14) [OF laws]]
        csp_load [OF kube_lawsD(12) [OF laws]] csp_load [OF kube_lawsD(15) [OF laws]];
      auto simp: find_cron_job_def find_job_def find_daemon_set_def find_hpa_def
        ref_of_def key_of_def)+

lemma safe_kindD:
  assumes "safe_cl st sch x cl" and "\<not> replica_kind x"
  obtains y where "cl_obj cl (key_of x) = Some y" and "y \<in> {x, doze sch x}"
  using assms by (auto simp: safe_plain)

section \<open>CronJobs and Jobs\<close>

lemma cronJob_safe:
  assumes laws: "kube_laws (sr_Client st) content" and dry: "\<not> sp_DryRun (ss_Spec sch)"
    and safe: "safe_cl st sch (KCronJob a) cl"
  shows "csp content (cronJob_Sleep (sr_Client st) ctx rec st sch (ref_of (KCronJob a))) cl
      (\<lambda>r cl'. safe_cl st sch (KCronJob a) cl' \<and> (\<forall>u. r = Inr u \<longrightarrow>
        entry st sch (key_for (KCronJob a)) cl = None \<longrightarrow>
        cl_obj cl' (key_of (KCronJob a)) = Some (doze sch (KCronJob a))))"
    and "csp content (cronJob_Restore (sr_Client st) ctx rec st sch (ref_of (KCronJob a))) cl
      (\<lambda>r cl'. safe_cl st sch (KCronJob a) cl' \<and> (\<forall>u. r = Inr u \<longrightarrow> restored_cl st sch (KCronJob a) cl'))"
proof -
  obtain a' where y: "cl_obj cl (key_of (KCronJob a)) = Some (KCronJob a')"
    and m: "KCronJob a' \<in> {KCronJob a, doze sch (KCronJob a)}"
    using safe_kindD [OF safe] by auto
  note w = wraps_cron_job [OF m]
  note load = csp_loads(1) [OF laws y]
  show "csp content (cronJob_Sleep (sr_Client st) ctx rec st sch (ref_of (KCronJob a))) cl
      (\<lambda>r cl'. safe_cl st sch (KCronJob a) cl' \<and> (\<forall>u. r = Inr u \<longrightarrow>
        entry st sch (key_for (KCronJob a)) cl = None \<longrightarrow>
        cl_obj cl' (key_of (KCronJob a)) = Some (doze sch (KCronJob a))))"
    unfolding cronJob_Sleep_def
    by (rule csp_bind, rule load) (use safe sleepSuspend_safe [OF laws w dry safe y] in simp_all)
  show "csp content (cronJob_Restore (sr_Client st) ctx rec st sch (ref_of (KCronJob a))) cl
      (\<lambda>r cl'. safe_cl st sch (KCronJob a) cl' \<and> (\<forall>u. r = Inr u \<longrightarrow> restored_cl st sch (KCronJob a) cl'))"
    unfolding cronJob_Restore_def
    by (rule csp_bind, rule load) (use safe restoreSuspend_safe [OF laws w dry safe y] in simp_all)
qed


lemma job_safe:
  assumes laws: "kube_laws (sr_Client st) content" and dry: "\<not> sp_DryRun (ss_Spec sch)"
    and safe: "safe_cl st sch (KJob a) cl"
  shows "csp content (job_Sleep (sr_Client st) ctx rec st sch (ref_of (KJob a))) cl
      (\<lambda>r cl'. safe_cl st sch (KJob a) cl' \<and> (0 < sint (jb_Active a) \<longrightarrow> cl' = cl))"
    and "csp content (job_Restore (sr_Client st) ctx rec st sch (ref_of (KJob a))) cl
      (\<lambda>r cl'. safe_cl st sch (KJob a) cl' \<and> (\<forall>u. r = Inr u \<longrightarrow> restored_cl st sch (KJob a) cl'))"
proof -
  obtain a' where y: "cl_obj cl (key_of (KJob a)) = Some (KJob a')"
    and m: "KJob a' \<in> {KJob a, doze sch (KJob a)}"
    using safe_kindD [OF safe] by auto
  then have act: "jb_Active a' = jb_Active a" by auto
  note w = wraps_job [OF m]
  note load = csp_loads(2) [OF laws y]
  show "csp content (job_Sleep (sr_Client st) ctx rec st sch (ref_of (KJob a))) cl
      (\<lambda>r cl'. safe_cl st sch (KJob a) cl' \<and> (0 < sint (jb_Active a) \<longrightarrow> cl' = cl))"
    unfolding job_Sleep_def
  proof (rule csp_bind, rule load, goal_cases)
    case (1 e) then show ?case using safe by simp
  next
    case 2
    show ?case unfolding sum.case option.case act
      by (rule csp_if, rule csp_warn)
        (use safe in \<open>auto intro: csp_mono [OF sleepSuspend_safe [OF laws w dry safe y]]\<close>)
  qed
  show "csp content (job_Restore (sr_Client st) ctx rec st sch (ref_of (KJob a))) cl
      (\<lambda>r cl'. safe_cl st sch (KJob a) cl' \<and> (\<forall>u. r = Inr u \<longrightarrow> restored_cl st sch (KJob a) cl'))"
    unfolding job_Restore_def
    by (rule csp_bind, rule load) (use safe restoreSuspend_safe [OF laws w dry safe y] in simp_all)
qed

section \<open>DaemonSets\<close>

text \<open>The original keys never remove the sentinel.\<close>

lemma sentinel_present: "map_of (sentinel_selector m) sentinelKey \<noteq> None"
proof -
  have "map_of sel sentinelKey \<noteq> None \<Longrightarrow>
      map_of (foldl (\<lambda>sel (k, v). map_put k v sel) sel ps) sentinelKey \<noteq> None" for sel ps
    by (induction ps arbitrary: sel) (auto simp: split: prod.splits)
  from this [of "[(sentinelKey, sentinelValue)]" "selector_entries m"] show ?thesis
    by (simp add: sentinel_selector_def)
qed

lemma stored_daemon_set:
  assumes "obj_wf (KDaemonSet a)"
  shows "stored (KDaemonSet a) = KDaemonSet a"
    and "stored (doze sch (KDaemonSet a)) = doze sch (KDaemonSet a)"
    and "Unmarshal_map (enc (KDaemonSet a)) = Some (ds_NodeSelector a)"
proof -
  show "stored (KDaemonSet a) = KDaemonSet a" using assms by auto
  have "sentinel_selector (ds_NodeSelector a) \<noteq> []" using sentinel_present [of "ds_NodeSelector a"] by auto
  then show "stored (doze sch (KDaemonSet a)) = doze sch (KDaemonSet a)" by simp
  show "Unmarshal_map (enc (KDaemonSet a)) = Some (ds_NodeSelector a)"
    using assms by (auto intro!: Unmarshal_Marshal_map split: option.splits)
qed

lemma daemonSet_Sleep_safe:
  assumes laws: "kube_laws (sr_Client st) content" and dry: "\<not> sp_DryRun (ss_Spec sch)"
    and wf: "obj_wf (KDaemonSet a)" and safe: "safe_cl st sch (KDaemonSet a) cl"
  shows "csp content (daemonSet_Sleep (sr_Client st) ctx rec st sch (ref_of (KDaemonSet a))) cl
      (\<lambda>r cl'. safe_cl st sch (KDaemonSet a) cl')"
proof -
  let ?x = "KDaemonSet a"
  have x: "\<not> replica_kind ?x" by simp
  note ds = stored_daemon_set [OF wf]
  obtain a' where y: "cl_obj cl (key_of ?x) = Some (KDaemonSet a')"
    and m: "KDaemonSet a' \<in> {?x, doze sch ?x}"
    using safe_kindD [OF safe] by auto
  have key: "Key (kind_of ?x) (om_Namespace (meta_of ?x)) (om_Name (meta_of ?x)) (om_UID (ds_Meta a')) = key_for ?x"
    using m by (auto simp: key_for_def)
  note load = csp_loads(3) [OF laws y]
  show "csp content (daemonSet_Sleep (sr_Client st) ctx rec st sch (ref_of ?x)) cl
      (\<lambda>r cl'. safe_cl st sch ?x cl')"
    unfolding daemonSet_Sleep_def
  proof (rule csp_bind, rule load, goal_cases)
    case (1 e) then show ?case using safe by simp
  next
    case 2
    show ?case unfolding sum.case option.case
    proof (rule csp_if, goal_cases)
      case 1 then show ?case using safe by (auto intro!: csp_rules)
    next
      case 2
      then have a': "a' = a" using m sentinel_present [of "ds_NodeSelector a"]
        by (auto simp: selector_entries_def)
      have new: "KDaemonSet (a\<lparr>ds_NodeSelector := Some (sentinel_selector (ds_NodeSelector a))\<rparr>) = doze sch ?x"
        "Marshal_map (ds_NodeSelector a) = enc ?x"
        by simp_all
      show ?case
        using 2 unfolding Let_def if_not_P [OF dry] ref_of_def wref.simps key
        unfolding a' new
      proof (intro csp_bind [of _ "GetRaw _ _ _"] csp_GetRaw [OF laws], goal_cases)
        case (1 e) then show ?case using safe by simp
      next
        case 2
        have tail: "csp content (bind_p (call (k_patch (sr_Client st) ?x (doze sch ?x))) (\<lambda>_.
            bind_p (emit rec (doze sch ?x) r1 m1) (\<lambda>_.
            Record (sr_Client st) ctx rec sch k1 n1 n2 a1 t1))) cl' (\<lambda>r cl'. safe_cl st sch ?x cl')"
          if "cl_obj cl' = cl_obj cl" "entry st sch (key_for ?x) cl' = Some (enc ?x)"
          for cl' r1 m1 k1 n1 n2 a1 t1
          by (rule csp_mono [OF csp_sleep_tail [OF laws x ds(2)]]) (use that y a' in auto)
        show ?case unfolding sum.case
        proof (rule csp_bind, rule csp_if, goal_cases)
          case 1
          show ?case
          proof (rule csp_SetRaw [OF laws], goal_cases)
            case (1 e) then show ?case using safe by simp
          next
            case (2 cl')
            with \<open>entry st sch (key_for ?x) cl = None\<close> show ?case
              unfolding sum.case by (intro tail) (auto simp: entry_updD)
          qed
        next
          case 2
          then have "entry st sch (key_for ?x) cl = Some (enc ?x)"
            using safe by (auto simp: safe_plain [OF x])
          then show ?case by (intro csp_rules, unfold sum.case, intro tail) auto
        qed
      qed
    qed
  qed
qed

lemma daemonSet_Restore_safe:
  assumes laws: "kube_laws (sr_Client st) content" and dry: "\<not> sp_DryRun (ss_Spec sch)"
    and wf: "obj_wf (KDaemonSet a)" and safe: "safe_cl st sch (KDaemonSet a) cl"
  shows "csp content (daemonSet_Restore (sr_Client st) ctx rec st sch (ref_of (KDaemonSet a))) cl
      (\<lambda>r cl'. safe_cl st sch (KDaemonSet a) cl' \<and> (\<forall>u. r = Inr u \<longrightarrow> restored_cl st sch (KDaemonSet a) cl'))"
proof -
  let ?x = "KDaemonSet a"
  have x: "\<not> replica_kind ?x" by simp
  note ds = stored_daemon_set [OF wf]
  obtain a' where y: "cl_obj cl (key_of ?x) = Some (KDaemonSet a')"
    and m: "KDaemonSet a' \<in> {?x, doze sch ?x}"
    using safe_kindD [OF safe] by auto
  have key: "Key (kind_of ?x) (om_Namespace (meta_of ?x)) (om_Name (meta_of ?x)) (om_UID (ds_Meta a')) = key_for ?x"
    using m by (auto simp: key_for_def)
  note load = csp_loads(3) [OF laws y]
  have new: "KDaemonSet (a'\<lparr>ds_NodeSelector := ds_NodeSelector a\<rparr>) = ?x" using m by auto
  show ?thesis unfolding daemonSet_Restore_def
  proof (rule csp_bind, rule load, goal_cases)
    case (1 e) then show ?case using safe by simp
  next
    case 2
    show ?case unfolding sum.case option.case Let_def ref_of_def wref.simps key
      by (rule csp_restore_entry [OF laws x ds(1) safe y], simp, use ds(3) dry new in simp)
  qed
qed

section \<open>HorizontalPodAutoscalers\<close>

lemma hpa_Sleep_safe:
  assumes laws: "kube_laws (sr_Client st) content" and dry: "\<not> sp_DryRun (ss_Spec sch)"
    and safe: "safe_cl st sch (KHPA a) cl"
  shows "csp content (hpa_Sleep (sr_Client st) ctx rec st sch (ref_of (KHPA a))) cl
      (\<lambda>r cl'. safe_cl st sch (KHPA a) cl' \<and> (\<forall>u. r = Inr u \<longrightarrow> entry st sch (key_for (KHPA a)) cl = None \<longrightarrow>
        cl_obj cl' (key_of (KHPA a)) = Some (doze sch (KHPA a))))"
proof -
  let ?x = "KHPA a"
  have x: "\<not> replica_kind ?x" "stored ?x = ?x" "stored (doze sch ?x) = doze sch ?x" by simp_all
  obtain a' where y: "cl_obj cl (key_of ?x) = Some (KHPA a')" and m: "KHPA a' \<in> {?x, doze sch ?x}"
    using safe_kindD [OF safe] by auto
  have key: "Key (kind_of ?x) (om_Namespace (meta_of ?x)) (om_Name (meta_of ?x)) (om_UID (hp_Meta a')) = key_for ?x"
    using m by (auto simp: key_for_def)
  note load = csp_loads(4) [OF laws y]
  have new: "KHPA (a'\<lparr>hp_MinReplicas := Some (neutralized (sp_SleepReplicas (ss_Spec sch))),
      hp_MaxReplicas := neutralized (sp_SleepReplicas (ss_Spec sch))\<rparr>) = doze sch ?x"
    "KHPA (a'\<lparr>hp_MinReplicas := hp_MinReplicas a, hp_MaxReplicas := hp_MaxReplicas a\<rparr>) = ?x"
    using m by auto
  show "csp content (hpa_Sleep (sr_Client st) ctx rec st sch (ref_of ?x)) cl
      (\<lambda>r cl'. safe_cl st sch ?x cl' \<and> (\<forall>u. r = Inr u \<longrightarrow> entry st sch (key_for ?x) cl = None \<longrightarrow>
        cl_obj cl' (key_of ?x) = Some (doze sch ?x)))"
    unfolding hpa_Sleep_def
  proof (rule csp_bind, rule load, goal_cases)
    case (1 e) then show ?case using safe by simp
  next
    case 2
    show ?case unfolding sum.case option.case Let_def ref_of_def wref.simps key new
    proof (rule csp_bind, rule csp_GetRaw [OF laws], goal_cases)
      case (1 e) then show ?case using safe by simp
    next
      case 2
      show ?case unfolding sum.case
      proof (rule csp_if, goal_cases)
        case 1 then show ?case using safe by (auto intro!: csp_rules)
      next
        case 2
        then have none: "entry st sch (key_for ?x) cl = None" by simp
        with safe y have "KHPA a' = ?x" by (auto simp: safe_plain [OF x(1)])
        then have enc: "Marshal_bounds (hp_MinReplicas a', hp_MaxReplicas a') = enc ?x" by simp
        have set: "csp content (bind_p (SetRaw st sch (key_for ?x) (enc ?x)) (\<lambda>_.
            bind_p (call (k_patch (sr_Client st) (KHPA a') (doze sch ?x))) (\<lambda>_.
            bind_p (emit rec (doze sch ?x) r1 m1) (\<lambda>_.
            Record (sr_Client st) ctx rec sch k1 n1 n2 a1 t1)))) cl
            (\<lambda>r cl'. safe_cl st sch ?x cl' \<and> (\<forall>u. r = Inr u \<longrightarrow> entry st sch (key_for ?x) cl = None \<longrightarrow>
              cl_obj cl' (key_of ?x) = Some (doze sch ?x)))" for r1 m1 k1 n1 n2 a1 t1
        proof (intro csp_bind [of _ "SetRaw _ _ _ _"] csp_SetRaw [OF laws], goal_cases)
          case (1 e) then show ?case using safe by simp
        next
          case (2 cl')
          show ?case unfolding sum.case
            by (rule csp_mono [OF csp_sleep_tail [OF laws x(1,3) _ m]])
              (use 2 y none in \<open>auto simp: entry_updD\<close>)
        qed
        show ?case unfolding enc if_not_P [OF dry]
          by (rule csp_bind, rule csp_when, rule csp_warn; unfold sum.case, rule set)
      qed
    qed
  qed
qed

lemma hpa_Restore_safe:
  assumes laws: "kube_laws (sr_Client st) content" and dry: "\<not> sp_DryRun (ss_Spec sch)"
    and safe: "safe_cl st sch (KHPA a) cl"
  shows "csp content (hpa_Restore (sr_Client st) ctx rec st sch (ref_of (KHPA a))) cl
      (\<lambda>r cl'. safe_cl st sch (KHPA a) cl' \<and> (\<forall>u. r = Inr u \<longrightarrow> restored_cl st sch (KHPA a) cl'))"
proof -
  let ?x = "KHPA a"
  have x: "\<not> replica_kind ?x" "stored ?x = ?x" "stored (doze sch ?x) = doze sch ?x" by simp_all
  obtain a' where y: "cl_obj cl (key_of ?x) = Some (KHPA a')" and m: "KHPA a' \<in> {?x, doze sch ?x}"
    using safe_kindD [OF safe] by auto
  have key: "Key (kind_of ?x) (om_Namespace (meta_of ?x)) (om_Name (meta_of ?x)) (om_UID (hp_Meta a')) = key_for ?x"
    using m by (auto simp: key_for_def)
  note load = csp_loads(4) [OF laws y]
  have new: "KHPA (a'\<lparr>hp_MinReplicas := Some (neutralized (sp_SleepReplicas (ss_Spec sch))),
      hp_MaxReplicas := neutralized (sp_SleepReplicas (ss_Spec sch))\<rparr>) = doze sch ?x"
    "KHPA (a'\<lparr>hp_MinReplicas := hp_MinReplicas a, hp_MaxReplicas := hp_MaxReplicas a\<rparr>) = ?x"
    using m by auto
  have u: "Unmarshal_bounds (enc ?x) = Some (hp_MinReplicas a, hp_MaxReplicas a)" by simp
  show ?thesis unfolding hpa_Restore_def
  proof (rule csp_bind, rule load, goal_cases)
    case (1 e) then show ?case using safe by simp
  next
    case 2
    show ?case unfolding sum.case option.case Let_def ref_of_def wref.simps key
      by (rule csp_restore_entry [OF laws x(1,2) safe y], simp,
          unfold option.case u prod.case if_not_P [OF dry] new, rule refl)
  qed
qed

end
