(* ===== verification/Workload_Frame.thy ===== *)
theory Workload_Frame
  imports Workload_Kinds
begin

text \<open>
  What the handlers leave alone: one attempt on a workload writes that workload and checkpoint
  entries under its keys, nothing else; a dry run writes nothing at all.
\<close>

definition ref_key :: "wref \<Rightarrow> obj_key" where
  "ref_key ref = (wr_Kind ref, wr_Namespace ref, wr_Name ref)"

text \<open>\<open>Q\<close> speaks about neither the workload nor its checkpoint entries (or nothing is written).\<close>

definition frame :: "'w store \<Rightarrow> sleep_schedule \<Rightarrow> wref \<Rightarrow> (cluster \<Rightarrow> bool) \<Rightarrow> bool" where
  "frame st sch ref Q \<longleftrightarrow> (\<not> sp_DryRun (ss_Spec sch) \<longrightarrow>
     (\<forall>cl y. Q cl \<longrightarrow> key_of y = ref_key ref \<longrightarrow> Q (put_obj y cl))
     \<and> (\<forall>cl cl' uid v. Q cl \<longrightarrow>
          entry_upd st sch (Key (wr_Kind ref) (wr_Namespace ref) (wr_Name ref) uid) v cl cl' \<longrightarrow> Q cl'))"

lemma frame_put: "frame st sch ref Q \<Longrightarrow> \<not> sp_DryRun (ss_Spec sch) \<Longrightarrow> Q cl \<Longrightarrow> key_of y = ref_key ref \<Longrightarrow>
    Q (put_obj y cl)"
  by (simp add: frame_def)

lemma frame_entry: "frame st sch ref Q \<Longrightarrow> \<not> sp_DryRun (ss_Spec sch) \<Longrightarrow> Q cl \<Longrightarrow>
    entry_upd st sch (Key (wr_Kind ref) (wr_Namespace ref) (wr_Name ref) uid) v cl cl' \<Longrightarrow> Q cl'"
  unfolding frame_def by blast

section \<open>Reads, and the two tails\<close>

lemma csp_any_load:
  assumes laws: "kube_laws c content" and wf: "cluster_wf cl"
  shows "wr_Kind ref = KindDeployment \<Longrightarrow> (\<And>e. P (Inl e) cl) \<Longrightarrow> P (Inr None) cl \<Longrightarrow>
      (\<And>d. cl_obj cl (ref_key ref) = Some (KDeployment d) \<Longrightarrow> key_of (KDeployment d) = ref_key ref \<Longrightarrow>
        P (Inr (Some (deployment_replica_obj d))) cl) \<Longrightarrow> csp content (loadDeployment c ref) cl P"
    and "wr_Kind ref = KindStatefulSet \<Longrightarrow> (\<And>e. P (Inl e) cl) \<Longrightarrow> P (Inr None) cl \<Longrightarrow>
      (\<And>d. cl_obj cl (ref_key ref) = Some (KStatefulSet d) \<Longrightarrow> key_of (KStatefulSet d) = ref_key ref \<Longrightarrow>
        P (Inr (Some (stateful_set_replica_obj d))) cl) \<Longrightarrow> csp content (loadStatefulSet c ref) cl P"
    and "wr_Kind ref = KindCronJob \<Longrightarrow> (\<And>e. Q (Inl e) cl) \<Longrightarrow> Q (Inr None) cl \<Longrightarrow>
      (\<And>d. cl_obj cl (ref_key ref) = Some (KCronJob d) \<Longrightarrow> key_of (KCronJob d) = ref_key ref \<Longrightarrow>
        Q (Inr (Some d)) cl) \<Longrightarrow> csp content (loadCronJob c ref) cl Q"
    and "wr_Kind ref = KindJob \<Longrightarrow> (\<And>e. R (Inl e) cl) \<Longrightarrow> R (Inr None) cl \<Longrightarrow>
      (\<And>d. cl_obj cl (ref_key ref) = Some (KJob d) \<Longrightarrow> key_of (KJob d) = ref_key ref \<Longrightarrow>
        R (Inr (Some d)) cl) \<Longrightarrow> csp content (loadJob c ref) cl R"
    and "wr_Kind ref = KindDaemonSet \<Longrightarrow> (\<And>e. S (Inl e) cl) \<Longrightarrow> S (Inr None) cl \<Longrightarrow>
      (\<And>d. cl_obj cl (ref_key ref) = Some (KDaemonSet d) \<Longrightarrow> key_of (KDaemonSet d) = ref_key ref \<Longrightarrow>
        S (Inr (Some d)) cl) \<Longrightarrow> csp content (getDaemonSet c ref) cl S"
    and "wr_Kind ref = KindHPA \<Longrightarrow> (\<And>e. T (Inl e) cl) \<Longrightarrow> T (Inr None) cl \<Longrightarrow>
      (\<And>d. cl_obj cl (ref_key ref) = Some (KHPA d) \<Longrightarrow> key_of (KHPA d) = ref_key ref \<Longrightarrow>
        T (Inr (Some d)) cl) \<Longrightarrow> csp content (loadHPA c ref) cl T"
    and "wr_Kind ref = KindStatefulSet \<Longrightarrow> (\<And>e. U (Inl e) cl) \<Longrightarrow> U (Inr None) cl \<Longrightarrow>
      (\<And>d. cl_obj cl (ref_key ref) = Some (KStatefulSet d) \<Longrightarrow> key_of (KStatefulSet d) = ref_key ref \<Longrightarrow>
        U (Inr (Some d)) cl) \<Longrightarrow>
      csp content (load_or_nil (call (k_get_stateful_set c (wr_Namespace ref) (wr_Name ref)))) cl U"
  unfolding loadDeployment_def loadStatefulSet_def loadCronJob_def loadJob_def getDaemonSet_def loadHPA_def
  by (intro csp_bind csp_load [OF kube_lawsD(10) [OF laws]] csp_load [OF kube_lawsD(11) [OF laws]]
        csp_load [OF kube_lawsD(12) [OF laws]] csp_load [OF kube_lawsD(13) [OF laws]]
        csp_load [OF kube_lawsD(14) [OF laws]] csp_load [OF kube_lawsD(15) [OF laws]];
      auto simp: ref_key_def kind_defs dest!: found_obj [OF wf] intro!: csp_rules)+

text \<open>A patch and its report.\<close>

lemma csp_frame_patch:
  assumes laws: "kube_laws c content" and Q: "frame st sch ref Q" "Q cl" and dry: "\<not> sp_DryRun (ss_Spec sch)"
    and y: "cl_obj cl (ref_key ref) = Some y" "key_of y = ref_key ref" "key_of new = ref_key ref"
    and rest: "\<And>cl'. Q cl' \<Longrightarrow> csp content m cl' (\<lambda>_ cl''. Q cl'')"
  shows "csp content (bind_p (call (k_patch c y new)) (\<lambda>_. m)) cl (\<lambda>_ cl'. Q cl')"
  by (rule csp_bind, rule csp_patch [OF laws])
    (use y Q rest frame_put [OF Q(1) dry] in auto)

lemma csp_frame_report:
  assumes "Q cl"
  shows "csp content (bind_p (emit rec new reason msg) (\<lambda>_.
      Record c ctx rec sch rk rns rn action text)) cl (\<lambda>_ cl'. Q cl')"
  by (rule csp_bind, rule csp_emit, unfold sum.case, rule csp_Record, rule assms)

lemma csp_frame_report_delete:
  assumes laws: "kube_laws (sr_Client st) content" and Q: "frame st sch ref Q" "Q cl"
    and dry: "\<not> sp_DryRun (ss_Spec sch)"
  shows "csp content (bind_p (emit rec new reason msg) (\<lambda>_.
      bind_p (Record c ctx rec sch rk rns rn action text) (\<lambda>_.
      Delete_entry st sch (Key (wr_Kind ref) (wr_Namespace ref) (wr_Name ref) uid)))) cl (\<lambda>_ cl'. Q cl')"
  by (rule csp_bind, rule csp_emit, unfold sum.case, rule csp_bind, rule csp_Record, unfold sum.case,
      rule csp_Delete [OF laws]) (use Q frame_entry [OF Q(1) dry] in auto)


section \<open>One operation each\<close>

lemma csp_frame_patchReplicas:
  assumes laws: "kube_laws c content" and Q: "frame st sch ref Q" "Q cl"
    and dry: "\<not> sp_DryRun (ss_Spec sch) \<or> dryRun" and y: "cl_obj cl (ref_key ref) = Some (ro_obj w)"
    "key_of (ro_obj w) = ref_key ref" "\<And>n. key_of (ro_setReplicas w n) = ref_key ref"
  shows "csp content (patchReplicas c ctx rec sch ref w want dryRun reason) cl (\<lambda>_ cl'. Q cl')"
  unfolding patchReplicas_def Let_def
  by (intro csp_if csp_frame_patch [OF laws Q _ y] csp_frame_report)
    (use Q dry in \<open>auto intro!: csp_rules\<close>)

lemma replica_obj_frame:
  "ro_obj (deployment_replica_obj d) = KDeployment d"
  "key_of (ro_setReplicas (deployment_replica_obj d) n) = key_of (KDeployment d)"
  "ro_obj (stateful_set_replica_obj s) = KStatefulSet s"
  "key_of (ro_setReplicas (stateful_set_replica_obj s) n) = key_of (KStatefulSet s)"
  by (simp_all add: deployment_replica_obj_def stateful_set_replica_obj_def key_of_def)

text \<open>What a loader of replica objects returns, for the two kinds.\<close>

definition loads_own :: "('w \<Rightarrow> cluster) \<Rightarrow> 'w kube \<Rightarrow> 'w load_func \<Rightarrow> wref \<Rightarrow> bool" where
  "loads_own content c load ref \<longleftrightarrow>
     (\<forall>cl P. cluster_wf cl \<longrightarrow> (\<forall>e. P (Inl e) cl) \<longrightarrow> P (Inr None) cl \<longrightarrow>
        (\<forall>w. cl_obj cl (ref_key ref) = Some (ro_obj w) \<longrightarrow> key_of (ro_obj w) = ref_key ref \<longrightarrow>
           (\<forall>n. key_of (ro_setReplicas w n) = ref_key ref) \<longrightarrow> P (Inr (Some w)) cl) \<longrightarrow>
        csp content (load c ref) cl P)"

lemma loads_own_kinds:
  assumes "kube_laws c content"
  shows "wr_Kind ref = KindDeployment \<Longrightarrow> loads_own content c loadDeployment ref"
    and "wr_Kind ref = KindStatefulSet \<Longrightarrow> loads_own content c loadStatefulSet ref"
  unfolding loads_own_def
  by (intro allI impI csp_any_load(1,2) [OF assms]; simp add: replica_obj_frame)+

lemma csp_frame_sleepReplica:
  assumes laws: "kube_laws (sr_Client st) content" and load: "loads_own content (sr_Client st) load ref"
    and Q: "frame st sch ref Q" "Q cl" and wf: "cluster_wf cl"
  shows "csp content (sleepReplica load (sr_Client st) ctx rec st sch ref) cl (\<lambda>_ cl'. Q cl')"
  unfolding sleepReplica_def Let_def
proof (intro csp_bind [of _ "load _ _"] load [unfolded loads_own_def, rule_format, OF wf], goal_cases)
  case (3 w)
  have patch: "csp content (patchReplicas (sr_Client st) ctx rec sch ref w n (sp_DryRun (ss_Spec sch)) ''Slept'')
      cl' (\<lambda>_ cl'. Q cl')" if "Q cl'" "cl_obj cl' = cl_obj cl" for cl' n
    by (rule csp_frame_patchReplicas [OF laws Q(1)]) (use that 3 in auto)
  have step: "csp content (bind_p (if x = None \<and> \<not> sp_DryRun (ss_Spec sch)
        then Set_replicas st sch (Key (wr_Kind ref) (wr_Namespace ref) (wr_Name ref) (ro_uid w)) (ro_replicas w)
        else return_p ()) (\<lambda>_. patchReplicas (sr_Client st) ctx rec sch ref w
          (sp_SleepReplicas (ss_Spec sch)) (sp_DryRun (ss_Spec sch)) ''Slept'')) cl (\<lambda>_ cl'. Q cl')"
    for x :: "int32 option"
    unfolding Set_replicas_def
    by (rule csp_bind, rule csp_if, rule csp_SetRaw [OF laws]; (rule csp_return)?; unfold sum.case;
          (rule patch)?)
        (use Q in \<open>auto simp: entry_updD intro: frame_entry [OF Q(1)]\<close>)
  show ?case unfolding sum.case option.case
    by (intro csp_bind [of _ "Get _ _ _"] csp_Get [OF laws]; unfold sum.case; (rule step)?) (use Q in simp)
qed (use Q in \<open>auto intro!: csp_rules\<close>)


lemma csp_frame_restoreReplica:
  assumes laws: "kube_laws (sr_Client st) content" and load: "loads_own content (sr_Client st) load ref"
    and Q: "frame st sch ref Q" "Q cl" and wf: "cluster_wf cl"
  shows "csp content (restoreReplica load (sr_Client st) ctx rec st sch ref) cl (\<lambda>_ cl'. Q cl')"
  unfolding restoreReplica_def Let_def
proof (intro csp_bind [of _ "load _ _"] load [unfolded loads_own_def, rule_format, OF wf], goal_cases)
  case (3 w)
  have step: "csp content (bind_p
      (patchReplicas (sr_Client st) ctx rec sch ref w n (sp_DryRun (ss_Spec sch)) ''Woke'')
      (\<lambda>_. if sp_DryRun (ss_Spec sch) then return_p ()
           else Delete_entry st sch (Key (wr_Kind ref) (wr_Namespace ref) (wr_Name ref) (ro_uid w))))
      cl (\<lambda>_ cl'. Q cl')" for n
  proof (rule csp_bind, rule csp_mono)
    show "csp content (patchReplicas (sr_Client st) ctx rec sch ref w n (sp_DryRun (ss_Spec sch)) ''Woke'')
        cl (\<lambda>_ cl'. Q cl')"
      by (rule csp_frame_patchReplicas [OF laws Q]) (use 3 in auto)
    fix r :: "go_error + unit" and cl'
    assume "Q cl'"
    then show "case r of Inl e \<Rightarrow> Q cl' | Inr x \<Rightarrow> csp content
        (if sp_DryRun (ss_Spec sch) then return_p ()
         else Delete_entry st sch (Key (wr_Kind ref) (wr_Namespace ref) (wr_Name ref) (ro_uid w)))
        cl' (\<lambda>_ cl''. Q cl'')"
      by (cases r) (auto intro!: csp_rules csp_Delete [OF laws] intro: frame_entry [OF Q(1)])
  qed
  show ?case unfolding sum.case option.case
    by (intro csp_bind [of _ "Get _ _ _"] csp_Get [OF laws]; unfold sum.case option.case;
        (rule step)?) (use Q in \<open>auto intro!: csp_rules\<close>)
qed (use Q in \<open>auto intro!: csp_rules\<close>)

lemma csp_frame_statefulSet_Sleep:
  assumes laws: "kube_laws (sr_Client st) content" and kind: "wr_Kind ref = KindStatefulSet"
    and Q: "frame st sch ref Q" "Q cl" and wf: "cluster_wf cl"
  shows "csp content (statefulSet_Sleep (sr_Client st) ctx rec st sch ref) cl (\<lambda>_ cl'. Q cl')"
  unfolding statefulSet_Sleep_def
  by (rule csp_bind, rule csp_any_load(7) [OF laws wf kind]; unfold sum.case option.case)
    (use Q csp_frame_sleepReplica [OF laws loads_own_kinds(2) [OF laws kind] Q wf] in
      \<open>auto intro!: csp_rules\<close>)

text \<open>Suspension of an object that has just been read.\<close>

definition owned :: "suspend_obj \<Rightarrow> wref \<Rightarrow> cluster \<Rightarrow> bool" where
  "owned w ref cl \<longleftrightarrow> cl_obj cl (ref_key ref) = Some (so_obj w) \<and> key_of (so_obj w) = ref_key ref
     \<and> (\<forall>b. key_of (so_setSuspend w b) = ref_key ref)"

lemma owned_kinds:
  "cl_obj cl (ref_key ref) = Some (KCronJob c) \<Longrightarrow> key_of (KCronJob c) = ref_key ref \<Longrightarrow>
     owned (cronJobSuspendObj c) ref cl"
  "cl_obj cl (ref_key ref) = Some (KJob j) \<Longrightarrow> key_of (KJob j) = ref_key ref \<Longrightarrow>
     owned (jobSuspendObj j) ref cl"
  by (auto simp: owned_def cronJobSuspendObj_def jobSuspendObj_def key_of_def)

lemma csp_frame_sleepSuspend:
  assumes laws: "kube_laws (sr_Client st) content" and Q: "frame st sch ref Q" "Q cl"
    and w: "owned w ref cl"
  shows "csp content (sleepSuspend (sr_Client st) ctx rec st sch ref w) cl (\<lambda>_ cl'. Q cl')"
  unfolding sleepSuspend_def Let_def
proof (rule csp_bind, rule csp_GetRaw [OF laws], goal_cases)
  case 2
  have tail: "csp content (bind_p (SetRaw st sch (Key (wr_Kind ref) (wr_Namespace ref) (wr_Name ref) (so_uid w))
        (Marshal_bool (so_suspend w))) (\<lambda>_.
      bind_p (call (k_patch (sr_Client st) (so_obj w) (so_setSuspend w (Some True)))) (\<lambda>_.
      bind_p (emit rec (so_setSuspend w (Some True)) ''Slept'' ''set spec.suspend=true'') (\<lambda>_.
      Record (sr_Client st) ctx rec sch (wr_Kind ref) (wr_Namespace ref) (wr_Name ref)
        ''Slept'' ''set spec.suspend=true'')))) cl (\<lambda>_ cl'. Q cl')"
    if "\<not> sp_DryRun (ss_Spec sch)"
    by (rule csp_bind, rule csp_SetRaw [OF laws]; unfold sum.case;
        (rule csp_frame_patch [OF laws Q(1) _ that])?; (rule csp_frame_report)?)
      (use Q w that in \<open>auto simp: entry_updD owned_def intro: frame_entry [OF Q(1)]\<close>)
  show ?case unfolding sum.case
    by (intro csp_if csp_return csp_emit tail) (use Q in simp_all)
qed (use Q in simp)

lemma csp_frame_restoreSuspend:
  assumes laws: "kube_laws (sr_Client st) content" and Q: "frame st sch ref Q" "Q cl"
    and w: "owned w ref cl"
  shows "csp content (restoreSuspend (sr_Client st) ctx rec st sch ref w) cl (\<lambda>_ cl'. Q cl')"
proof -
  have tail: "csp content (bind_p (call (k_patch (sr_Client st) (so_obj w) (so_setSuspend w b))) (\<lambda>_.
      bind_p (emit rec (so_setSuspend w b) ''Woke'' ''restored spec.suspend'') (\<lambda>_.
      bind_p (Record (sr_Client st) ctx rec sch (wr_Kind ref) (wr_Namespace ref) (wr_Name ref)
        ''Woke'' ''restored spec.suspend'') (\<lambda>_.
      Delete_entry st sch (Key (wr_Kind ref) (wr_Namespace ref) (wr_Name ref) (so_uid w)))))) cl (\<lambda>_ cl'. Q cl')"
    if "\<not> sp_DryRun (ss_Spec sch)" for b
    by (rule csp_frame_patch [OF laws Q that]; (rule csp_frame_report_delete [OF laws Q(1) _ that])?)
      (use w in \<open>auto simp: owned_def\<close>)
  show ?thesis
    unfolding restoreSuspend_def Let_def
    by (rule csp_bind, rule csp_GetRaw [OF laws])
      (use Q tail in \<open>auto intro!: csp_rules split: option.splits\<close>)
qed


lemma csp_frame_daemonSet_Sleep:
  assumes laws: "kube_laws (sr_Client st) content" and kind: "wr_Kind ref = KindDaemonSet"
    and Q: "frame st sch ref Q" "Q cl" and wf: "cluster_wf cl"
  shows "csp content (daemonSet_Sleep (sr_Client st) ctx rec st sch ref) cl (\<lambda>_ cl'. Q cl')"
  unfolding daemonSet_Sleep_def
proof (rule csp_bind, rule csp_any_load(5) [OF laws wf kind], goal_cases)
  case (3 d)
  let ?key = "Key (wr_Kind ref) (wr_Namespace ref) (wr_Name ref) (om_UID (ds_Meta d))"
  let ?new = "KDaemonSet (d\<lparr>ds_NodeSelector := Some (sentinel_selector (ds_NodeSelector d))\<rparr>)"
  have new: "key_of ?new = ref_key ref" using 3(2) by (simp add: key_of_def)
  have tail: "csp content (bind_p (if found = None then SetRaw st sch ?key (Marshal_map (ds_NodeSelector d))
        else return_p ()) (\<lambda>_.
      bind_p (call (k_patch (sr_Client st) (KDaemonSet d) ?new)) (\<lambda>_.
      bind_p (emit rec ?new ''Slept'' ''injected sentinel nodeSelector (0 pods scheduled)'') (\<lambda>_.
      Record (sr_Client st) ctx rec sch (wr_Kind ref) (wr_Namespace ref) (wr_Name ref)
        ''Slept'' ''injected sentinel nodeSelector'')))) cl (\<lambda>_ cl'. Q cl')"
    if "\<not> sp_DryRun (ss_Spec sch)" for found :: "string option"
    by (rule csp_bind, rule csp_if, rule csp_SetRaw [OF laws]; (rule csp_return)?; unfold sum.case;
        (rule csp_frame_patch [OF laws Q(1) _ that])?; (rule csp_frame_report)?)
      (use Q new 3 that in \<open>auto simp: entry_updD intro: frame_entry [OF Q(1)]\<close>)
  have get: "csp content (bind_p (GetRaw st sch ?key) f) cl (\<lambda>_ cl'. Q cl')"
    if "\<And>found. csp content (f found) cl (\<lambda>_ cl'. Q cl')" for f
    by (rule csp_bind, rule csp_GetRaw [OF laws]) (use Q that in simp_all)
  show ?case unfolding sum.case option.case Let_def
    by (intro csp_if csp_return csp_emit get tail) (use Q in simp_all)
qed (use Q in \<open>auto intro!: csp_rules\<close>)

text \<open>The shape of every restore from JSON: an entry is decoded, then patched back or reported.\<close>

lemma csp_frame_restore_entry:
  assumes laws: "kube_laws (sr_Client st) content" and Q: "frame st sch ref Q" "Q cl"
    and y: "cl_obj cl (ref_key ref) = Some y" "key_of y = ref_key ref" "\<And>v. key_of (new v) = ref_key ref"
  shows "csp content (bind_p (GetRaw st sch key) (\<lambda>found. case found of None \<Rightarrow> return_p ()
      | Some raw \<Rightarrow> (case decode raw of None \<Rightarrow> throw_p err
          | Some v \<Rightarrow> if sp_DryRun (ss_Spec sch) then emit rec y ''DryRunWoke'' m1
              else bind_p (call (k_patch (sr_Client st) y (new v))) (\<lambda>_.
                bind_p (emit rec (new v) ''Woke'' m2) (\<lambda>_.
                bind_p (Record (sr_Client st) ctx rec sch rk rns rn ''Woke'' m2) (\<lambda>_.
                Delete_entry st sch (Key (wr_Kind ref) (wr_Namespace ref) (wr_Name ref) uid))))))) cl
    (\<lambda>_ cl'. Q cl')"
proof (rule csp_bind, rule csp_GetRaw [OF laws], goal_cases)
  case 2
  have tail: "csp content (bind_p (call (k_patch (sr_Client st) y (new v))) (\<lambda>_.
      bind_p (emit rec (new v) ''Woke'' m2) (\<lambda>_.
      bind_p (Record (sr_Client st) ctx rec sch rk rns rn ''Woke'' m2) (\<lambda>_.
      Delete_entry st sch (Key (wr_Kind ref) (wr_Namespace ref) (wr_Name ref) uid))))) cl (\<lambda>_ cl'. Q cl')"
    if "\<not> sp_DryRun (ss_Spec sch)" for v
    by (rule csp_frame_patch [OF laws Q that y], rule csp_frame_report_delete [OF laws Q(1) _ that])
  show ?case using Q tail
    by (auto intro!: csp_return csp_throw csp_emit split: option.split)
qed (use Q in simp)

lemma csp_frame_daemonSet_Restore:
  assumes laws: "kube_laws (sr_Client st) content" and kind: "wr_Kind ref = KindDaemonSet"
    and Q: "frame st sch ref Q" "Q cl" and wf: "cluster_wf cl"
  shows "csp content (daemonSet_Restore (sr_Client st) ctx rec st sch ref) cl (\<lambda>_ cl'. Q cl')"
  unfolding daemonSet_Restore_def
proof (rule csp_bind, rule csp_any_load(5) [OF laws wf kind], goal_cases)
  case (3 d)
  have new: "key_of (KDaemonSet (d\<lparr>ds_NodeSelector := v\<rparr>)) = ref_key ref" for v
    using 3(2) by (simp add: key_of_def)
  show ?case unfolding sum.case option.case Let_def
    by (rule csp_frame_restore_entry [OF laws Q 3 new])
qed (use Q in \<open>auto intro!: csp_rules\<close>)

lemma csp_frame_hpa_Restore:
  assumes laws: "kube_laws (sr_Client st) content" and kind: "wr_Kind ref = KindHPA"
    and Q: "frame st sch ref Q" "Q cl" and wf: "cluster_wf cl"
  shows "csp content (hpa_Restore (sr_Client st) ctx rec st sch ref) cl (\<lambda>_ cl'. Q cl')"
  unfolding hpa_Restore_def
proof (rule csp_bind, rule csp_any_load(6) [OF laws wf kind], goal_cases)
  case (3 h)
  have new: "key_of (KHPA (h\<lparr>hp_MinReplicas := fst b, hp_MaxReplicas := snd b\<rparr>)) = ref_key ref"
    for b :: "int32 option \<times> int32"
    using 3(2) by (simp add: key_of_def)
  show ?case unfolding sum.case option.case Let_def case_prod_beta
    by (rule csp_frame_restore_entry [OF laws Q 3 new])
qed (use Q in \<open>auto intro!: csp_rules\<close>)

lemma csp_frame_hpa_Sleep:
  assumes laws: "kube_laws (sr_Client st) content" and kind: "wr_Kind ref = KindHPA"
    and Q: "frame st sch ref Q" "Q cl" and wf: "cluster_wf cl"
  shows "csp content (hpa_Sleep (sr_Client st) ctx rec st sch ref) cl (\<lambda>_ cl'. Q cl')"
  unfolding hpa_Sleep_def
proof (rule csp_bind, rule csp_any_load(6) [OF laws wf kind], goal_cases)
  case (3 h)
  let ?n = "neutralized (sp_SleepReplicas (ss_Spec sch))"
  let ?new = "KHPA (h\<lparr>hp_MinReplicas := Some ?n, hp_MaxReplicas := ?n\<rparr>)"
  have new: "key_of ?new = ref_key ref" using 3(2) by (simp add: key_of_def)
  have tail: "csp content (bind_p (SetRaw st sch
        (Key (wr_Kind ref) (wr_Namespace ref) (wr_Name ref) (om_UID (hp_Meta h)))
        (Marshal_bounds (hp_MinReplicas h, hp_MaxReplicas h))) (\<lambda>_.
      bind_p (call (k_patch (sr_Client st) (KHPA h) ?new)) (\<lambda>_.
      bind_p (emit rec ?new ''Slept'' msg) (\<lambda>_.
      Record (sr_Client st) ctx rec sch (wr_Kind ref) (wr_Namespace ref) (wr_Name ref) ''Slept'' msg))))
      cl (\<lambda>_ cl'. Q cl')"
    if "\<not> sp_DryRun (ss_Spec sch)" for msg
    by (rule csp_bind, rule csp_SetRaw [OF laws]; unfold sum.case;
        (rule csp_frame_patch [OF laws Q(1) _ that])?; (rule csp_frame_report)?)
      (use Q new 3 that in \<open>auto simp: entry_updD intro: frame_entry [OF Q(1)]\<close>)
  have get: "csp content (bind_p (GetRaw st sch key) f) cl (\<lambda>_ cl'. Q cl')"
    if "\<And>found. csp content (f found) cl (\<lambda>_ cl'. Q cl')" for f key
    by (rule csp_bind, rule csp_GetRaw [OF laws]) (use Q that in simp_all)
  have warned: "csp content (bind_p (when_p b (warn rec obj r1 m1)) (\<lambda>_. m)) cl (\<lambda>_ cl'. Q cl')"
    if "csp content m cl (\<lambda>_ cl'. Q cl')" for b obj r1 m1 m
    by (intro csp_bind csp_when csp_warn) (use that in simp_all)
  show ?case unfolding sum.case option.case Let_def
    by (intro get csp_if warned csp_return csp_emit tail) (use Q in simp_all)
qed (use Q in \<open>auto intro!: csp_rules\<close>)


section \<open>All six handlers\<close>

definition default_handlers :: "'w handler list" where
  "default_handlers =
     [deploymentHandler, statefulSetHandler, daemonSetHandler, cronJobHandler, jobHandler, hpaHandler]"

lemmas handlers = deploymentHandler_def statefulSetHandler_def daemonSetHandler_def
  cronJobHandler_def jobHandler_def hpaHandler_def

lemma default_handler_cases:
  assumes "h \<in> set default_handlers"
  obtains "h = deploymentHandler" | "h = statefulSetHandler" | "h = daemonSetHandler"
    | "h = cronJobHandler" | "h = jobHandler" | "h = hpaHandler"
  using assms unfolding default_handlers_def by auto

lemma csp_frame_suspend_kinds:
  assumes laws: "kube_laws (sr_Client st) content" and Q: "frame st sch ref Q" "Q cl" and wf: "cluster_wf cl"
  shows "wr_Kind ref = KindCronJob \<Longrightarrow> csp content (cronJob_Sleep (sr_Client st) ctx rec st sch ref) cl (\<lambda>_ cl'. Q cl')"
    and "wr_Kind ref = KindCronJob \<Longrightarrow> csp content (cronJob_Restore (sr_Client st) ctx rec st sch ref) cl (\<lambda>_ cl'. Q cl')"
    and "wr_Kind ref = KindJob \<Longrightarrow> csp content (job_Sleep (sr_Client st) ctx rec st sch ref) cl (\<lambda>_ cl'. Q cl')"
    and "wr_Kind ref = KindJob \<Longrightarrow> csp content (job_Restore (sr_Client st) ctx rec st sch ref) cl (\<lambda>_ cl'. Q cl')"
  unfolding cronJob_Sleep_def cronJob_Restore_def job_Sleep_def job_Restore_def
  subgoal
    by (rule csp_bind, rule csp_any_load(3) [OF laws wf]; (unfold sum.case option.case)?)
      (use Q owned_kinds csp_frame_sleepSuspend [OF laws Q] csp_frame_restoreSuspend [OF laws Q] in
        \<open>auto intro!: csp_return csp_warn\<close>)
  subgoal
    by (rule csp_bind, rule csp_any_load(3) [OF laws wf]; (unfold sum.case option.case)?)
      (use Q owned_kinds csp_frame_sleepSuspend [OF laws Q] csp_frame_restoreSuspend [OF laws Q] in
        \<open>auto intro!: csp_return csp_warn\<close>)
  subgoal
    by (rule csp_bind, rule csp_any_load(4) [OF laws wf]; (unfold sum.case option.case)?)
      (use Q owned_kinds csp_frame_sleepSuspend [OF laws Q] csp_frame_restoreSuspend [OF laws Q] in
        \<open>auto intro!: csp_return csp_warn\<close>)
  subgoal
    by (rule csp_bind, rule csp_any_load(4) [OF laws wf]; (unfold sum.case option.case)?)
      (use Q owned_kinds csp_frame_sleepSuspend [OF laws Q] csp_frame_restoreSuspend [OF laws Q] in
        \<open>auto intro!: csp_return csp_warn\<close>)
  done

lemma handler_frame:
  assumes laws: "kube_laws (sr_Client st) content" and h: "h \<in> set default_handlers"
    and kind: "wr_Kind ref = h_Kind h" and Q: "frame st sch ref Q" "Q cl" and wf: "cluster_wf cl"
  shows "csp content (h_Sleep h (sr_Client st) ctx rec st sch ref) cl (\<lambda>_ cl'. Q cl')"
    and "csp content (h_Restore h (sr_Client st) ctx rec st sch ref) cl (\<lambda>_ cl'. Q cl')"
  using h
  by (cases rule: default_handler_cases;
      use kind csp_frame_sleepReplica [OF laws _ Q wf] csp_frame_restoreReplica [OF laws _ Q wf]
        loads_own_kinds [OF laws] csp_frame_statefulSet_Sleep [OF laws _ Q wf]
        csp_frame_daemonSet_Sleep [OF laws _ Q wf] csp_frame_daemonSet_Restore [OF laws _ Q wf]
        csp_frame_hpa_Sleep [OF laws _ Q wf] csp_frame_hpa_Restore [OF laws _ Q wf]
        csp_frame_suspend_kinds [OF laws Q wf] in \<open>simp add: handlers\<close>)+

end
