(* ===== verification/Workload_Recovery.thy ===== *)
theory Workload_Recovery
  imports Workload_Frame Workload_Dispatch
begin

text \<open>
  The promise of the operator: whatever passes have run over a workload, and wherever each of them
  failed, one successful waking pass gives back the original. The promise is the locale
  \<^theory_text>\<open>recoverable\<close>; a single handler and a whole \<open>Apply\<close> pass are interpretations of it.
\<close>

section \<open>The interface\<close>

locale recoverable =
  fixes ok :: "'e \<Rightarrow> bool"
    and admissible :: "'e \<Rightarrow> 'a \<Rightarrow> bool"
    and attempt :: "'e \<Rightarrow> 'a \<Rightarrow> 's \<Rightarrow> bool \<times> 's"
    and wakes :: "'e \<Rightarrow> 'a \<Rightarrow> bool"
    and safe :: "'e \<Rightarrow> 's \<Rightarrow> bool"
    and regained :: "'e \<Rightarrow> 's \<Rightarrow> bool"
  assumes attempt_safe: "ok e \<Longrightarrow> admissible e a \<Longrightarrow> safe e s \<Longrightarrow> attempt e a s = (b, s') \<Longrightarrow> safe e s'"
    and attempt_back: "ok e \<Longrightarrow> admissible e a \<Longrightarrow> safe e s \<Longrightarrow> wakes e a \<Longrightarrow>
      attempt e a s = (True, s') \<Longrightarrow> regained e s'"
begin

lemma run_safe:
  assumes "ok e" and "safe e s" and "\<forall>a \<in> set as. admissible e a"
  shows "safe e (fold (\<lambda>a s. snd (attempt e a s)) as s)"
  using assms(2,3)
proof (induction as arbitrary: s)
  case (Cons a as)
  then show ?case using attempt_safe [OF assms(1), of a s] by (cases "attempt e a s") auto
qed simp

lemma run_back:
  assumes "ok e" and "safe e s" and "\<forall>a \<in> set as. admissible e a"
    and "admissible e a" and "wakes e a"
    and "attempt e a (fold (\<lambda>a s. snd (attempt e a s)) as s) = (True, s')"
  shows "regained e s'"
  using attempt_back [OF assms(1,4) run_safe [OF assms(1-3)] assms(5,6)] .

end

section \<open>The default registry\<close>

lemma Default_registry_handlers: "Default_registry = NewRegistry default_handlers"
  by (simp add: Default_registry_def default_handlers_def)

lemma handler_kinds:
  "h_Kind deploymentHandler = KindDeployment" "h_Kind statefulSetHandler = KindStatefulSet"
  "h_Kind daemonSetHandler = KindDaemonSet" "h_Kind cronJobHandler = KindCronJob"
  "h_Kind jobHandler = KindJob" "h_Kind hpaHandler = KindHPA"
  by (simp_all add: handlers)

lemma Default_registry_order:
  "rg_order Default_registry = [KindDeployment, KindStatefulSet, KindDaemonSet, KindCronJob, KindJob, KindHPA]"
  unfolding Default_registry_handlers registry_order
  by (simp add: default_handlers_def handler_kinds kind_defs)

lemma kinds_distinct:
  "distinct [KindDeployment, KindStatefulSet, KindDaemonSet, KindCronJob, KindJob, KindHPA]"
  by (simp add: kind_defs)

lemma kinds_neq:
  "KindStatefulSet \<noteq> KindDeployment" "KindDaemonSet \<noteq> KindDeployment" "KindCronJob \<noteq> KindDeployment"
  "KindJob \<noteq> KindDeployment" "KindHPA \<noteq> KindDeployment" "KindDaemonSet \<noteq> KindStatefulSet"
  "KindCronJob \<noteq> KindStatefulSet" "KindJob \<noteq> KindStatefulSet" "KindHPA \<noteq> KindStatefulSet"
  "KindCronJob \<noteq> KindDaemonSet" "KindJob \<noteq> KindDaemonSet" "KindHPA \<noteq> KindDaemonSet"
  "KindJob \<noteq> KindCronJob" "KindHPA \<noteq> KindCronJob" "KindHPA \<noteq> KindJob"
  using kinds_distinct by auto

lemma Default_registry_eq:
  "registry_Get Default_registry KindDeployment = Some deploymentHandler"
  "registry_Get Default_registry KindStatefulSet = Some statefulSetHandler"
  "registry_Get Default_registry KindDaemonSet = Some daemonSetHandler"
  "registry_Get Default_registry KindCronJob = Some cronJobHandler"
  "registry_Get Default_registry KindJob = Some jobHandler"
  "registry_Get Default_registry KindHPA = Some hpaHandler"
  unfolding Default_registry_handlers registry_Get_def registry_byKind
  by (simp_all add: default_handlers_def handler_kinds kinds_neq kinds_neq [symmetric])

lemma Default_registry_Get:
  "registry_Get Default_registry k = Some h \<Longrightarrow> h \<in> set default_handlers \<and> h_Kind h = k"
  unfolding Default_registry_handlers registry_Get_def registry_byKind find_Some_iff
  by (metis (mono_tags, lifting) length_rev nth_mem set_rev)

lemma Default_registry_kinds:
  "registry_Get Default_registry k \<noteq> None \<longleftrightarrow>
   k \<in> {KindDeployment, KindStatefulSet, KindDaemonSet, KindCronJob, KindJob, KindHPA}"
  unfolding Default_registry_handlers registry_Get_def registry_byKind registry_find_None
  by (simp add: default_handlers_def handler_kinds)

text \<open>The handler of an object's kind.\<close>

fun handler_of :: "kobj \<Rightarrow> 'w handler" where
  "handler_of (KDeployment d) = deploymentHandler"
| "handler_of (KStatefulSet s) = statefulSetHandler"
| "handler_of (KDaemonSet d) = daemonSetHandler"
| "handler_of (KCronJob c) = cronJobHandler"
| "handler_of (KJob j) = jobHandler"
| "handler_of (KHPA h) = hpaHandler"

lemma registry_Get_kind_of: "registry_Get Default_registry (kind_of x) = Some (handler_of x)"
  using Default_registry_eq by (cases x) (simp_all add: kind_defs)

section \<open>One handler on its workload\<close>

lemma statefulSet_Sleep_safe:
  assumes laws: "kube_laws (sr_Client st) content" and dry: "\<not> sp_DryRun (ss_Spec sch)"
    and wf: "cluster_wf cl" and safe: "safe_cl st sch (KStatefulSet a) cl"
  shows "csp content (statefulSet_Sleep (sr_Client st) ctx rec st sch (ref_of (KStatefulSet a))) cl
    (\<lambda>r cl'. safe_cl st sch (KStatefulSet a) cl')"
proof -
  have sl: "csp content (sleepReplica loadStatefulSet (sr_Client st) ctx rec st sch (ref_of (KStatefulSet a))) cl
      (\<lambda>r cl'. safe_cl st sch (KStatefulSet a) cl')"
    by (rule csp_mono [OF sleepReplica_safe [OF laws _ loads_stateful_set [OF laws] dry wf safe]]) auto
  show ?thesis unfolding statefulSet_Sleep_def
    by (rule csp_bind, rule csp_any_load(7) [OF laws wf]; (unfold sum.case option.case)?)
      (use safe sl in \<open>auto simp: ref_of_def kind_defs intro!: csp_rules\<close>)
qed

lemma handler_safe:
  assumes laws: "kube_laws (sr_Client st) content" and dry: "\<not> sp_DryRun (ss_Spec sch)"
    and x: "obj_wf x"
    and wf: "cluster_wf cl" and safe: "safe_cl st sch x cl"
  shows "csp content (h_Sleep (handler_of x) (sr_Client st) ctx rec st sch (ref_of x)) cl (\<lambda>r cl'. safe_cl st sch x cl')"
    and "csp content (h_Restore (handler_of x) (sr_Client st) ctx rec st sch (ref_of x)) cl
      (\<lambda>r cl'. safe_cl st sch x cl' \<and> (\<forall>u. r = Inr u \<longrightarrow> restored_cl st sch x cl'))"
proof -
  have "csp content (h_Sleep (handler_of x) (sr_Client st) ctx rec st sch (ref_of x)) cl (\<lambda>r cl'. safe_cl st sch x cl')
    \<and> csp content (h_Restore (handler_of x) (sr_Client st) ctx rec st sch (ref_of x)) cl
      (\<lambda>r cl'. safe_cl st sch x cl' \<and> (\<forall>u. r = Inr u \<longrightarrow> restored_cl st sch x cl'))"
  proof (cases x)
    case (KDeployment d)
    have k: "replica_kind x" by (simp add: KDeployment)
    note ld = loads_deployment [OF laws, of d, folded KDeployment]
    show ?thesis
      using csp_mono [OF sleepReplica_safe [OF laws k ld dry wf safe]] restoreReplica_safe [OF laws k ld dry wf safe]
      by (auto simp: KDeployment handlers)
  next
    case (KStatefulSet s)
    have k: "replica_kind x" by (simp add: KStatefulSet)
    note ld = loads_stateful_set [OF laws, of s, folded KStatefulSet]
    show ?thesis
      using statefulSet_Sleep_safe [OF laws dry wf] restoreReplica_safe [OF laws k ld dry wf safe] safe
      by (auto simp: KStatefulSet handlers)
  next
    case (KDaemonSet d)
    show ?thesis
      using daemonSet_Sleep_safe [OF laws dry] daemonSet_Restore_safe [OF laws dry] safe x
      by (auto simp: KDaemonSet handlers simp del: obj_wf.simps)
  next
    case (KCronJob c)
    show ?thesis
      using csp_mono [OF cronJob_safe(1) [OF laws dry]] cronJob_safe(2) [OF laws dry] safe
      by (auto simp: KCronJob handlers)
  next
    case (KJob j)
    show ?thesis
      using csp_mono [OF job_safe(1) [OF laws dry]] job_safe(2) [OF laws dry] safe
      by (auto simp: KJob handlers)
  next
    case (KHPA h')
    show ?thesis
      using csp_mono [OF hpa_Sleep_safe [OF laws dry]] hpa_Restore_safe [OF laws dry] safe
      by (auto simp: KHPA handlers)
  qed
  then show "csp content (h_Sleep (handler_of x) (sr_Client st) ctx rec st sch (ref_of x)) cl (\<lambda>r cl'. safe_cl st sch x cl')"
    and "csp content (h_Restore (handler_of x) (sr_Client st) ctx rec st sch (ref_of x)) cl
      (\<lambda>r cl'. safe_cl st sch x cl' \<and> (\<forall>u. r = Inr u \<longrightarrow> restored_cl st sch x cl'))"
    by simp_all
qed


section \<open>Other workloads\<close>

text \<open>Kinds, namespaces and names, as Kubernetes allows them, have no underscore.\<close>

definition dns_ref :: "wref \<Rightarrow> bool" where
  "dns_ref ref \<longleftrightarrow> CHR ''_'' \<notin> set (wr_Kind ref) \<union> set (wr_Namespace ref) \<union> set (wr_Name ref)"

lemma frame_other:
  assumes "dns_ref ref" and "dns_ref (ref_of x)" and "ref \<noteq> ref_of x"
    and Q: "\<And>cl cl'. cl_obj cl' (key_of x) = cl_obj cl (key_of x) \<Longrightarrow>
      entry st sch (key_for x) cl' = entry st sch (key_for x) cl \<Longrightarrow> Q cl \<Longrightarrow> Q cl'"
  shows "frame st sch ref Q"
  unfolding frame_def
proof (intro impI conjI allI)
  fix cl y assume "Q cl" and y: "key_of y = ref_key ref"
  have "ref_key ref \<noteq> key_of x"
    using assms(3) by (cases ref) (auto simp: ref_key_def ref_of_def key_of_def)
  then show "Q (put_obj y cl)"
    by (intro Q [OF _ _ \<open>Q cl\<close>]) (simp_all add: put_obj_at y)
next
  fix cl cl' uid v
  assume "Q cl" and u: "entry_upd st sch (Key (wr_Kind ref) (wr_Namespace ref) (wr_Name ref) uid) v cl cl'"
  have "Key (wr_Kind ref) (wr_Namespace ref) (wr_Name ref) uid \<noteq> key_for x"
  proof
    assume k: "Key (wr_Kind ref) (wr_Namespace ref) (wr_Name ref) uid = key_for x"
    have "\<forall>z \<in> {wr_Kind ref, wr_Namespace ref, wr_Name ref,
        kind_of x, om_Namespace (meta_of x), om_Name (meta_of x)}. CHR ''_'' \<notin> set z"
      using assms(1,2) by (simp add: dns_ref_def ref_of_def)
    from Key_parts(1-3) [OF k [unfolded key_for_def] this] assms(3) show False
      by (cases ref) (simp add: ref_of_def)
  qed
  then show "Q cl'"
    by (intro Q [OF _ _ \<open>Q cl\<close>]) (use u in \<open>auto simp: entry_upd_def\<close>)
qed

lemma safe_cl_frame: "cl_obj cl' (key_of x) = cl_obj cl (key_of x) \<Longrightarrow>
    entry st sch (key_for x) cl' = entry st sch (key_for x) cl \<Longrightarrow> safe_cl st sch x cl \<Longrightarrow> safe_cl st sch x cl'"
  and restored_cl_frame: "cl_obj cl' (key_of x) = cl_obj cl (key_of x) \<Longrightarrow>
    entry st sch (key_for x) cl' = entry st sch (key_for x) cl \<Longrightarrow> restored_cl st sch x cl \<Longrightarrow> restored_cl st sch x cl'"
  unfolding safe_cl_def restored_cl_def by simp_all

lemma restored_is_safe: "restored_cl st sch x cl \<Longrightarrow> safe_cl st sch x cl"
  by (auto simp: restored_cl_def safe_cl_def)

text \<open>One ref of a pass, whichever workload it names.\<close>

lemma ref_safe:
  assumes laws: "kube_laws (sr_Client st) content" and dry: "\<not> sp_DryRun (ss_Spec sch)"
    and x: "obj_wf x" "dns_ref (ref_of x)" "dns_ref ref"
    and h: "registry_Get Default_registry (wr_Kind ref) = Some h"
    and wf: "cluster_wf cl" and safe: "safe_cl st sch x cl"
  shows "csp content ((if asleep then h_Sleep h else h_Restore h) (sr_Client st) ctx rec st sch ref) cl
    (\<lambda>r cl'. safe_cl st sch x cl'
      \<and> (\<forall>u. r = Inr u \<longrightarrow> \<not> asleep \<longrightarrow> ref = ref_of x \<or> restored_cl st sch x cl \<longrightarrow> restored_cl st sch x cl'))"
proof (cases "ref = ref_of x")
  case True
  have "h = handler_of x" using h True by (simp add: ref_of_def registry_Get_kind_of)
  then show ?thesis unfolding True
    using handler_safe [OF laws dry x(1) wf safe] by (cases asleep) (auto elim!: csp_mono)
next
  case False
  from Default_registry_Get [OF h] have hm: "h \<in> set default_handlers" "wr_Kind ref = h_Kind h" by auto
  note other = frame_other [OF x(3,2) False]
  define Q where "Q cl' \<longleftrightarrow> safe_cl st sch x cl' \<and> (restored_cl st sch x cl \<longrightarrow> restored_cl st sch x cl')" for cl'
  have "frame st sch ref Q"
    by (rule other) (auto simp: Q_def intro: safe_cl_frame restored_cl_frame)
  moreover have "Q cl" using safe by (simp add: Q_def)
  ultimately have "csp content ((if asleep then h_Sleep h else h_Restore h) (sr_Client st) ctx rec st sch ref) cl
      (\<lambda>_ cl'. Q cl')"
    using handler_frame [OF laws hm _ _ wf] by (cases asleep) simp_all
  then show ?thesis by (rule csp_mono) (use False in \<open>auto simp: Q_def\<close>)
qed

text \<open>The API server only ever shows well-formed clusters.\<close>

lemma csp_wf:
  assumes "kube_laws c content" and "csp content m cl (\<lambda>r cl'. cluster_wf cl' \<longrightarrow> P r cl')"
  shows "csp content m cl P"
  using assms(2) kube_lawsD(19) [OF assms(1)] unfolding csp_def by (auto elim!: wp_mono)

lemma apply_refs_safe:
  fixes sl :: "'w sleeper"
  assumes laws: "kube_laws (sl_Client sl) content" and st: "sr_Client (sl_Store sl) = sl_Client sl"
    and dry: "\<not> sp_DryRun (ss_Spec sch)"
    and x: "obj_wf x" "dns_ref (ref_of x)" "\<forall>ref \<in> set refs. dns_ref ref"
    and safe: "safe_cl (sl_Store sl) sch x cl" and wf: "cluster_wf cl"
  shows "csp content (apply_refs sl Default_registry ctx sch asleep refs) cl
    (\<lambda>r cl'. safe_cl (sl_Store sl) sch x cl'
      \<and> (\<forall>u. r = Inr u \<longrightarrow> \<not> asleep \<longrightarrow> ref_of x \<in> set refs \<or> restored_cl (sl_Store sl) sch x cl \<longrightarrow>
          restored_cl (sl_Store sl) sch x cl'))"
  using x(3) safe wf
proof (induction refs arbitrary: cl)
  case Nil
  then show ?case by (auto intro!: csp_rules)
next
  case (Cons ref refs)
  let ?st = "sl_Store sl"
  show ?case
  proof (cases "registry_Get (Default_registry :: 'w registry) (wr_Kind ref)")
    case None
    then show ?thesis using Cons.prems by (auto intro!: csp_rules)
  next
    case (Some h)
    show ?thesis unfolding apply_refs.simps Some option.case
    proof (rule csp_bind, rule csp_wf [OF laws], rule csp_mono)
      show "csp content ((if asleep then h_Sleep h else h_Restore h) (sl_Client sl) ctx (sl_Recorder sl) ?st sch ref) cl
        (\<lambda>r cl'. safe_cl ?st sch x cl' \<and> (\<forall>u. r = Inr u \<longrightarrow> \<not> asleep \<longrightarrow>
          ref = ref_of x \<or> restored_cl ?st sch x cl \<longrightarrow> restored_cl ?st sch x cl'))"
        using ref_safe [of ?st, unfolded st, OF laws dry x(1,2) _ Some Cons.prems(3,2)] Cons.prems(1) by simp
      fix r :: "go_error + unit" and cl'
      assume h: "safe_cl ?st sch x cl' \<and> (\<forall>u. r = Inr u \<longrightarrow> \<not> asleep \<longrightarrow>
          ref = ref_of x \<or> restored_cl ?st sch x cl \<longrightarrow> restored_cl ?st sch x cl')"
      show "cluster_wf cl' \<longrightarrow> (case r of
          Inl e \<Rightarrow> safe_cl ?st sch x cl' \<and> (\<forall>u. Inl e = Inr u \<longrightarrow> \<not> asleep \<longrightarrow>
            ref_of x \<in> set (ref # refs) \<or> restored_cl ?st sch x cl \<longrightarrow> restored_cl ?st sch x cl')
        | Inr y \<Rightarrow> csp content (apply_refs sl Default_registry ctx sch asleep refs) cl'
            (\<lambda>r cl''. safe_cl ?st sch x cl'' \<and> (\<forall>u. r = Inr u \<longrightarrow> \<not> asleep \<longrightarrow>
              ref_of x \<in> set (ref # refs) \<or> restored_cl ?st sch x cl \<longrightarrow> restored_cl ?st sch x cl'')))"
      proof (cases r)
        case (Inr y)
        show ?thesis unfolding Inr sum.case
          using Cons.IH [of cl'] Cons.prems(1) h Inr by (auto elim!: csp_mono)
      qed (use h in simp)
    qed
  qed
qed


section \<open>Whole passes\<close>

type_synonym 'w recovery_env = "'w sleeper \<times> ('w \<Rightarrow> cluster) \<times> sleep_schedule \<times> kobj"
type_synonym apply_args = "ctx \<times> bool \<times> wref list"

definition pass_ok :: "'w recovery_env \<Rightarrow> bool" where
  "pass_ok e = (case e of (sl, content, sch, x) \<Rightarrow>
     kube_laws (sl_Client sl) content \<and> sr_Client (sl_Store sl) = sl_Client sl
     \<and> sleeper_registry sl = Default_registry \<and> \<not> sp_DryRun (ss_Spec sch)
     \<and> obj_wf x \<and> dns_ref (ref_of x))"

definition pass_admissible :: "'w recovery_env \<Rightarrow> apply_args \<Rightarrow> bool" where
  "pass_admissible e a = (case a of (ctx, asleep, refs) \<Rightarrow> \<forall>ref \<in> set refs. dns_ref ref)"

definition pass_attempt :: "'w recovery_env \<Rightarrow> apply_args \<Rightarrow> 'w state \<Rightarrow> bool \<times> 'w state" where
  "pass_attempt e a s = (case (e, a) of ((sl, content, sch, x), (ctx, asleep, refs)) \<Rightarrow>
     (case Apply sl ctx sch asleep refs s of (r, s') \<Rightarrow> (r = Inr (), s')))"

definition pass_wakes :: "'w recovery_env \<Rightarrow> apply_args \<Rightarrow> bool" where
  "pass_wakes e a = (case (e, a) of ((sl, content, sch, x), (ctx, asleep, refs)) \<Rightarrow>
     \<not> asleep \<and> ref_of x \<in> set refs)"

definition pass_safe :: "'w recovery_env \<Rightarrow> 'w state \<Rightarrow> bool" where
  "pass_safe e s = (case e of (sl, content, sch, x) \<Rightarrow> safe_cl (sl_Store sl) sch x (content (st_api s)))"

definition pass_back :: "'w recovery_env \<Rightarrow> 'w state \<Rightarrow> bool" where
  "pass_back e s = (case e of (sl, content, sch, x) \<Rightarrow> restored_cl (sl_Store sl) sch x (content (st_api s)))"

lemmas pass_defs = pass_ok_def pass_admissible_def pass_attempt_def pass_wakes_def pass_safe_def
  pass_back_def

lemma Apply_safe:
  assumes "pass_ok (sl, content, sch, x)" and "\<forall>ref \<in> set refs. dns_ref ref"
    and "safe_cl (sl_Store sl) sch x (content (st_api s))" and "Apply sl ctx sch asleep refs s = (r, s')"
  shows "safe_cl (sl_Store sl) sch x (content (st_api s'))"
    and "r = Inr u \<Longrightarrow> \<not> asleep \<Longrightarrow> ref_of x \<in> set refs \<Longrightarrow>
      restored_cl (sl_Store sl) sch x (content (st_api s'))"
proof -
  have ok: "kube_laws (sl_Client sl) content" "sr_Client (sl_Store sl) = sl_Client sl"
    "\<not> sp_DryRun (ss_Spec sch)" "obj_wf x" "dns_ref (ref_of x)"
    and reg: "sleeper_registry sl = Default_registry"
    using assms(1) by (simp_all add: pass_ok_def)
  have "cluster_wf (content (st_api s))" using kube_lawsD(19) [OF ok(1)] by simp
  from cspD [OF apply_refs_safe [OF ok assms(2,3) this] assms(4) [unfolded Apply_def reg]]
  show "safe_cl (sl_Store sl) sch x (content (st_api s'))"
    and "r = Inr u \<Longrightarrow> \<not> asleep \<Longrightarrow> ref_of x \<in> set refs \<Longrightarrow>
      restored_cl (sl_Store sl) sch x (content (st_api s'))"
    by auto
qed

interpretation passes: recoverable pass_ok pass_admissible pass_attempt pass_wakes pass_safe pass_back
proof (unfold_locales, goal_cases)
  case (1 e a s b s')
  then show ?case
    by (cases e; cases a) (auto simp: pass_defs(2-6) split: prod.splits dest: Apply_safe(1))
next
  case (2 e a s s')
  then show ?case
    by (cases e; cases a) (auto simp: pass_defs(2-6) split: prod.splits dest: Apply_safe(2))
qed

definition run_passes ::
  "'w sleeper \<Rightarrow> sleep_schedule \<Rightarrow> apply_args list \<Rightarrow> 'w state \<Rightarrow> 'w state"
where
  "run_passes sl sch ps s = fold (\<lambda>(ctx, asleep, refs) s. snd (Apply sl ctx sch asleep refs s)) ps s"

lemma run_passes_attempts:
  "run_passes sl sch ps s = fold (\<lambda>a s. snd (pass_attempt (sl, content, sch, x) a s)) ps s"
  unfolding run_passes_def
  by (rule fold_cong) (auto simp: pass_attempt_def fun_eq_iff split: prod.splits)

text \<open>
  C1: The original always comes back. Take a workload of any of the six kinds, not yet slept. Run
  any number of \<open>Apply\<close> passes, each sleeping or waking any list of workloads, each succeeding or
  failing at any API call. Then one waking pass over the workload that succeeds leaves exactly the
  original object (an unset replica count becomes the one it stands for), and no checkpoint entry.
\<close>

theorem original_always_comes_back:
  assumes "kube_laws (sl_Client sl) content" and "sr_Client (sl_Store sl) = sl_Client sl"
    and "sleeper_registry sl = Default_registry" and "\<not> sp_DryRun (ss_Spec sch)"
    and "obj_wf x" and "dns_ref (ref_of x)" and "\<forall>(ctx, asleep, refs) \<in> set ps. \<forall>ref \<in> set refs. dns_ref ref"
    and "cl_obj (content (st_api s)) (key_of x) = Some x"
    and "entry (sl_Store sl) sch (key_for x) (content (st_api s)) = None"
    and "\<forall>ref \<in> set refs. dns_ref ref" and "ref_of x \<in> set refs"
    and "Apply sl ctx sch False refs (run_passes sl sch ps s) = (Inr (), s')"
  shows "\<exists>y. cl_obj (content (st_api s')) (key_of x) = Some y \<and> norm_obj y = norm_obj x
    \<and> entry (sl_Store sl) sch (key_for x) (content (st_api s')) = None"
proof -
  let ?e = "(sl, content, sch, x)"
  have "pass_ok ?e" using assms(1-6) by (simp add: pass_ok_def sleeper_registry_def)
  moreover have "pass_safe ?e s" using assms(8,9) by (auto simp: pass_safe_def safe_cl_def)
  moreover have "\<forall>a \<in> set ps. pass_admissible ?e a" using assms(7) by (auto simp: pass_admissible_def)
  moreover have "pass_admissible ?e (ctx, False, refs)" using assms(10) by (simp add: pass_admissible_def)
  moreover have "pass_wakes ?e (ctx, False, refs)" using assms(11) by (simp add: pass_wakes_def)
  moreover have "pass_attempt ?e (ctx, False, refs)
      (fold (\<lambda>a s. snd (pass_attempt ?e a s)) ps s) = (True, s')"
    unfolding run_passes_attempts [of sl sch ps s content x, symmetric]
    using assms(12) by (simp add: pass_attempt_def)
  ultimately have "pass_back ?e s'" by (rule passes.run_back)
  then show ?thesis by (simp add: pass_back_def restored_cl_def)
qed


text \<open>A sleeper on the in-memory API, and a cluster with one HPA and one Deployment.\<close>

definition mem_sleeper :: "mem sleeper" where
  "mem_sleeper = \<lparr>sl_Client = mem_client, sl_Store = mem_store, sl_Recorder = True, sl_Registry = None,
     sl_Who = ''k8s-nyx'', sl_Why = ''asleep window''\<rparr>"

definition demo_hpa :: hpa where
  "demo_hpa = \<lparr>hp_Meta = \<lparr>om_Namespace = ''dev'', om_Name = ''web'', om_UID = ''u1'', om_Labels = [],
     om_Annotations = []\<rparr>, hp_MinReplicas = Some 3, hp_MaxReplicas = 7\<rparr>"

definition demo_deployment :: deployment where
  "demo_deployment = \<lparr>dp_Meta = \<lparr>om_Namespace = ''dev'', om_Name = ''web'', om_UID = ''u2'', om_Labels = [],
     om_Annotations = []\<rparr>, dp_Replicas = Some 3\<rparr>"

definition demo_mem :: "string option list \<Rightarrow> mem" where
  "demo_mem faults = empty_mem\<lparr>mm_objs := [KHPA demo_hpa, KDeployment demo_deployment], mm_faults := faults\<rparr>"

text \<open>The fifth call of the pass below, the patch of the HPA, fails.\<close>

definition patch_fault :: "string option list" where
  "patch_fault = [None, None, None, None, Some ''timeout'']"

definition demo_refs :: "wref list" where
  "demo_refs = [ref_of (KHPA demo_hpa), ref_of (KDeployment demo_deployment)]"


lemma mem_sleeper_env:
  "kube_laws (sl_Client mem_sleeper) mem_content" "sr_Client (sl_Store mem_sleeper) = sl_Client mem_sleeper"
  "sleeper_registry mem_sleeper = Default_registry" "\<not> sp_DryRun (ss_Spec office_hours)"
  by (simp_all add: mem_sleeper_def mem_store_def mem_kube_laws office_hours_def sleeper_registry_def)

text \<open>
  The first sleeping pass fails at the patch of the HPA; the second one skips the HPA and sleeps the
  Deployment; the waking pass then gives back both.
\<close>

definition demo_slept :: "mem state" where
  "demo_slept = run_passes mem_sleeper office_hours [(None, True, demo_refs), (None, True, demo_refs)]
     (mem_state (demo_mem patch_fault))"

theorem original_always_comes_back_witness:
  "mem_content (st_api demo_slept) \<noteq> mem_content (demo_mem [])
   \<and> (\<exists>y. cl_obj (mem_content (st_api (snd (Apply mem_sleeper None office_hours False demo_refs demo_slept))))
          (key_of (KDeployment demo_deployment)) = Some y
        \<and> norm_obj y = norm_obj (KDeployment demo_deployment)
        \<and> entry (sl_Store mem_sleeper) office_hours (key_for (KDeployment demo_deployment))
            (mem_content (st_api (snd (Apply mem_sleeper None office_hours False demo_refs demo_slept)))) = None)"
proof
  have "cl_obj (mem_content (st_api demo_slept)) (key_of (KDeployment demo_deployment))
      \<noteq> cl_obj (mem_content (demo_mem [])) (key_of (KDeployment demo_deployment))"
    by code_simp
  then show "mem_content (st_api demo_slept) \<noteq> mem_content (demo_mem [])" by metis
  have refs: "\<forall>ref \<in> set demo_refs. dns_ref ref" "ref_of (KDeployment demo_deployment) \<in> set demo_refs"
    by code_simp+
  have ps: "\<forall>(ctx, asleep, refs) \<in> set [(None :: ctx, True, demo_refs), (None, True, demo_refs)].
      \<forall>ref \<in> set refs. dns_ref ref"
    using refs by simp
  have start: "cl_obj (mem_content (st_api (mem_state (demo_mem patch_fault)))) (key_of (KDeployment demo_deployment))
      = Some (KDeployment demo_deployment)"
    "entry (sl_Store mem_sleeper) office_hours (key_for (KDeployment demo_deployment))
      (mem_content (st_api (mem_state (demo_mem patch_fault)))) = None"
    "obj_wf (KDeployment demo_deployment)" "dns_ref (ref_of (KDeployment demo_deployment))"
    by code_simp+
  have "fst (Apply mem_sleeper None office_hours False demo_refs demo_slept) = Inr ()" by code_simp
  from result_split [OF this]
  have wake: "Apply mem_sleeper None office_hours False demo_refs
      (run_passes mem_sleeper office_hours [(None, True, demo_refs), (None, True, demo_refs)]
        (mem_state (demo_mem patch_fault)))
    = (Inr (), snd (Apply mem_sleeper None office_hours False demo_refs demo_slept))"
    by (simp only: demo_slept_def)
  show "\<exists>y. cl_obj (mem_content (st_api (snd (Apply mem_sleeper None office_hours False demo_refs demo_slept))))
          (key_of (KDeployment demo_deployment)) = Some y
        \<and> norm_obj y = norm_obj (KDeployment demo_deployment)
        \<and> entry (sl_Store mem_sleeper) office_hours (key_for (KDeployment demo_deployment))
            (mem_content (st_api (snd (Apply mem_sleeper None office_hours False demo_refs demo_slept)))) = None"
    by (rule original_always_comes_back [OF mem_sleeper_env start(3,4) ps start(1,2) refs wake])
qed

end
