(* ===== verification/Workload_Safety.thy ===== *)
theory Workload_Safety
  imports Workload_Recovery
begin

text \<open>
  What a pass must not do: a dry run writes nothing, a pass touches the workloads it names and
  nothing else, and the two guards against losing data hold back the sleep of the workload.
\<close>

section \<open>Dry runs and frames\<close>

text \<open>What every single step keeps, a pass keeps, however far it gets.\<close>

lemma apply_refs_inv:
  fixes sl :: "'w sleeper"
  assumes laws: "kube_laws (sl_Client sl) content"
    and step: "\<And>ref h cl. ref \<in> set refs \<Longrightarrow> registry_Get Default_registry (wr_Kind ref) = Some h \<Longrightarrow>
      Q cl \<Longrightarrow> cluster_wf cl \<Longrightarrow>
      csp content ((if asleep then h_Sleep h else h_Restore h) (sl_Client sl) ctx (sl_Recorder sl)
        (sl_Store sl) sch ref) cl (\<lambda>_ cl'. Q cl')"
    and "Q cl" and "cluster_wf cl"
  shows "csp content (apply_refs sl Default_registry ctx sch asleep refs) cl (\<lambda>_ cl'. Q cl')"
  using step assms(3,4)
proof (induction refs arbitrary: cl)
  case Nil
  then show ?case by (auto intro!: csp_rules)
next
  case (Cons ref refs)
  show ?case
  proof (cases "registry_Get (Default_registry :: 'w registry) (wr_Kind ref)")
    case None
    then show ?thesis using Cons.prems by (auto intro!: csp_rules)
  next
    case (Some h)
    show ?thesis unfolding apply_refs.simps Some option.case
    proof (rule csp_bind, rule csp_wf [OF laws], rule csp_mono, rule Cons.prems(1) [OF _ Some Cons.prems(2,3)],
        simp, rule impI)
      fix r :: "go_error + unit" and cl' assume "Q cl'" "cluster_wf cl'"
      moreover have "csp content (apply_refs sl Default_registry ctx sch asleep refs) cl'' (\<lambda>_ cl'. Q cl')"
        if "Q cl''" "cluster_wf cl''" for cl''
        by (rule Cons.IH [OF Cons.prems(1) that]) simp_all
      ultimately show "case r of Inl e \<Rightarrow> Q cl'
          | Inr x \<Rightarrow> csp content (apply_refs sl Default_registry ctx sch asleep refs) cl' (\<lambda>_ cl''. Q cl'')"
        by (cases r) simp_all
    qed
  qed
qed

lemma Apply_inv:
  fixes sl :: "'w sleeper"
  assumes laws: "kube_laws (sl_Client sl) content" and reg: "sleeper_registry sl = Default_registry"
    and step: "\<And>ref h cl ctx. ref \<in> set refs \<Longrightarrow> registry_Get Default_registry (wr_Kind ref) = Some h \<Longrightarrow>
      Q cl \<Longrightarrow> cluster_wf cl \<Longrightarrow>
      csp content ((if asleep then h_Sleep h else h_Restore h) (sl_Client sl) ctx (sl_Recorder sl)
        (sl_Store sl) sch ref) cl (\<lambda>_ cl'. Q cl')"
    and "Q (content (st_api s))" and "Apply sl ctx sch asleep refs s = (r, s')"
  shows "Q (content (st_api s'))"
proof -
  have wf: "cluster_wf (content (st_api s))" using kube_lawsD(19) [OF laws] by simp
  have "sleeper_registry sl = Default_registry" by (rule reg)
  with assms(5) have a: "apply_refs sl Default_registry (NewContext ctx \<lparr>ai_Who = sl_Who sl, ai_Why = sl_Why sl\<rparr>)
      sch asleep refs s = (r, s')"
    by (simp add: Apply_def)
  show ?thesis by (rule cspD [OF apply_refs_inv [OF laws step assms(4) wf] a])
qed

lemma Apply_frame:
  assumes "kube_laws (sl_Client sl) content" and "sr_Client (sl_Store sl) = sl_Client sl"
    and "sleeper_registry sl = Default_registry" and "\<forall>ref \<in> set refs. frame (sl_Store sl) sch ref Q"
    and "Q (content (st_api s))" and "Apply sl ctx sch asleep refs s = (r, s')"
  shows "Q (content (st_api s'))"
proof (rule Apply_inv [where Q = Q and content = content, OF assms(1,3) _ assms(5,6)], goal_cases)
  case (1 ref h cl ctx)
  from Default_registry_Get [OF 1(2)] have hm: "h \<in> set default_handlers" "wr_Kind ref = h_Kind h" by auto
  show ?case
    using handler_frame [of "sl_Store sl" content h ref sch Q cl, unfolded assms(2), OF assms(1) hm _ 1(3,4)]
      assms(4) 1(1) by (cases asleep) simp_all
qed

text \<open>
  C18: A dry run writes nothing: whatever the workloads, the phase and the outcome, a pass of a
  schedule with \<open>dryRun\<close> leaves every object, Secret, ConfigMap and schedule as it was.
\<close>

theorem dry_run_writes_nothing:
  assumes "kube_laws (sl_Client sl) content" and "sr_Client (sl_Store sl) = sl_Client sl"
    and "sleeper_registry sl = Default_registry" and "sp_DryRun (ss_Spec sch)"
    and "Apply sl ctx sch asleep refs s = (r, s')"
  shows "content (st_api s') = content (st_api s)"
  by (rule Apply_frame [OF assms(1-3) _ refl assms(5)]) (simp add: frame_def assms(4))

definition dry_office :: sleep_schedule where
  "dry_office = office_hours\<lparr>ss_Spec := (ss_Spec office_hours)\<lparr>sp_DryRun := True\<rparr>\<rparr>"

theorem dry_run_writes_nothing_witness:
  "mem_content (st_api (snd (Apply mem_sleeper None dry_office True demo_refs (mem_state (demo_mem [])))))
     = mem_content (st_api (mem_state (demo_mem [])))
   \<and> st_events (snd (Apply mem_sleeper None dry_office True demo_refs (mem_state (demo_mem [])))) \<noteq> []"
proof
  have "sp_DryRun (ss_Spec dry_office)" by code_simp
  from dry_run_writes_nothing [OF mem_sleeper_env(1-3) this prod.collapse [symmetric]]
  show "mem_content (st_api (snd (Apply mem_sleeper None dry_office True demo_refs (mem_state (demo_mem [])))))
     = mem_content (st_api (mem_state (demo_mem [])))" .
qed code_simp

text \<open>
  A pass is confined to its targets: an object that no ref names keeps its stored form, a
  checkpoint entry that is not under a key of a named workload keeps its value, and no other
  schedule's checkpoints, no ConfigMap and no schedule changes, even when the pass fails.
\<close>

theorem Apply_confined:
  assumes "kube_laws (sl_Client sl) content" and "sr_Client (sl_Store sl) = sl_Client sl"
    and "sleeper_registry sl = Default_registry" and "Apply sl ctx sch asleep refs s = (r, s')"
  shows "(\<forall>k. k \<notin> ref_key ` set refs \<longrightarrow> cl_obj (content (st_api s')) k = cl_obj (content (st_api s)) k)
    \<and> (\<forall>ns n k. (ns, n) \<noteq> (sr_Namespace (sl_Store sl), secretName sch)
          \<or> (\<forall>ref \<in> set refs. \<forall>uid. k \<noteq> Key (wr_Kind ref) (wr_Namespace ref) (wr_Name ref) uid) \<longrightarrow>
        secret_entry (content (st_api s')) ns n k = secret_entry (content (st_api s)) ns n k)
    \<and> cl_cm (content (st_api s')) = cl_cm (content (st_api s))
    \<and> cl_schedule (content (st_api s')) = cl_schedule (content (st_api s))"
  by (rule Apply_frame [OF assms(1-3) _ _ assms(4), where Q = "\<lambda>cl.
        (\<forall>k. k \<notin> ref_key ` set refs \<longrightarrow> cl_obj cl k = cl_obj (content (st_api s)) k)
      \<and> (\<forall>ns n k. (ns, n) \<noteq> (sr_Namespace (sl_Store sl), secretName sch)
          \<or> (\<forall>ref \<in> set refs. \<forall>uid. k \<noteq> Key (wr_Kind ref) (wr_Namespace ref) (wr_Name ref) uid) \<longrightarrow>
        secret_entry cl ns n k = secret_entry (content (st_api s)) ns n k)
      \<and> cl_cm cl = cl_cm (content (st_api s)) \<and> cl_schedule cl = cl_schedule (content (st_api s))"])
    (auto simp: frame_def put_obj_at entry_upd_def)

theorem Apply_confined_witness:
  "let s' = snd (Apply mem_sleeper None office_hours True [ref_of (KHPA demo_hpa)] (mem_state (demo_mem [])))
   in cl_obj (mem_content (st_api s')) (key_of (KDeployment demo_deployment)) = Some (KDeployment demo_deployment)
    \<and> cl_obj (mem_content (st_api s')) (key_of (KHPA demo_hpa)) \<noteq> Some (KHPA demo_hpa)"
proof -
  let ?a = "Apply mem_sleeper None office_hours True [ref_of (KHPA demo_hpa)] (mem_state (demo_mem []))"
  have a: "key_of (KDeployment demo_deployment) \<notin> ref_key ` set [ref_of (KHPA demo_hpa)]"
    and b: "cl_obj (mem_content (st_api (mem_state (demo_mem [])))) (key_of (KDeployment demo_deployment))
       = Some (KDeployment demo_deployment)"
    and c: "cl_obj (mem_content (st_api (snd ?a))) (key_of (KHPA demo_hpa)) \<noteq> Some (KHPA demo_hpa)"
    by code_simp+
  have "cl_obj (mem_content (st_api (snd ?a))) (key_of (KDeployment demo_deployment))
      = Some (KDeployment demo_deployment)"
    unfolding Apply_confined [OF mem_sleeper_env(1-3) prod.collapse [symmetric, of ?a],
        THEN conjunct1, rule_format, OF a] by (rule b)
  with c show ?thesis unfolding Let_def by blast
qed

section \<open>The two guards\<close>

text \<open>A workload that must not be slept: scaling it down would delete volumes, or kill running pods.\<close>

fun guarded :: "sleep_schedule \<Rightarrow> kobj \<Rightarrow> bool" where
  "guarded sch (KStatefulSet s) \<longleftrightarrow> pvcDeletionRisk s \<and> \<not> allowsPVCDeletion s sch"
| "guarded sch (KJob j) \<longleftrightarrow> 0 < sint (jb_Active j)"
| "guarded sch x \<longleftrightarrow> False"

lemma guarded_Sleep:
  assumes laws: "kube_laws (sr_Client st) content" and wf: "cluster_wf cl" and g: "guarded sch x"
    and x: "cl_obj cl (key_of x) = Some x"
  shows "csp content (h_Sleep (handler_of x) (sr_Client st) ctx rec st sch (ref_of x)) cl (\<lambda>_ cl'. cl' = cl)"
proof -
  have k: "ref_key (ref_of x) = key_of x" "wr_Kind (ref_of x) = kind_of x"
    by (simp_all add: ref_key_def ref_of_def key_of_def)
  from g consider s where "x = KStatefulSet s" "pvcDeletionRisk s" "\<not> allowsPVCDeletion s sch"
    | j where "x = KJob j" "0 < sint (jb_Active j)"
    by (cases x) auto
  then show ?thesis
  proof cases
    case 1
    then show ?thesis unfolding statefulSetHandler_def statefulSet_Sleep_def
      using k x
      by (simp add: handlers statefulSet_Sleep_def, intro csp_bind csp_any_load(7) [OF laws wf])
        (auto simp: kind_defs intro!: csp_rules)
  next
    case 2
    then show ?thesis
      using k x
      by (simp add: handlers job_Sleep_def, intro csp_bind csp_any_load(4) [OF laws wf])
        (auto simp: kind_defs intro!: csp_rules)
  qed
qed


text \<open>
  C17: The guards hold: a StatefulSet whose claims would be deleted on scale-down and that nothing
  annotates as allowed, and a Job with active pods, come out of any sleeping pass exactly as they
  went in, whatever else the pass does and however it ends.
\<close>

theorem guarded_never_slept:
  assumes "kube_laws (sl_Client sl) content" and "sr_Client (sl_Store sl) = sl_Client sl"
    and "sleeper_registry sl = Default_registry" and "guarded sch x"
    and "cl_obj (content (st_api s)) (key_of x) = Some x"
    and "Apply sl ctx sch True refs s = (r, s')"
  shows "cl_obj (content (st_api s')) (key_of x) = Some x"
proof (rule Apply_inv [where Q = "\<lambda>cl. cl_obj cl (key_of x) = Some x" and content = content,
      OF assms(1,3) _ assms(5,6)], goal_cases)
  case (1 ref h cl ctx)
  from Default_registry_Get [OF 1(2)] have hm: "h \<in> set default_handlers" "wr_Kind ref = h_Kind h" by auto
  show ?case
  proof (cases "ref = ref_of x")
    case True
    then have "h = handler_of x" using 1(2) by (simp add: ref_of_def registry_Get_kind_of)
    with True guarded_Sleep [of "sl_Store sl", unfolded assms(2), OF assms(1) 1(4) assms(4) 1(3)]
    have "csp content (h_Sleep h (sl_Client sl) ctx (sl_Recorder sl) (sl_Store sl) sch ref) cl
        (\<lambda>_ cl'. cl' = cl)"
      by simp
    from csp_mono [OF this] 1(3) show ?thesis by simp
  next
    case False
    then have "ref_key ref \<noteq> key_of x" by (cases ref) (auto simp: ref_key_def ref_of_def key_of_def)
    then have "frame (sl_Store sl) sch ref (\<lambda>cl. cl_obj cl (key_of x) = Some x)"
      by (auto simp: frame_def put_obj_at entry_upd_def)
    from handler_frame(1) [of "sl_Store sl", unfolded assms(2), OF assms(1) hm this 1(3,4)]
    show ?thesis by simp
  qed
qed

definition risky_set :: stateful_set where
  "risky_set = \<lparr>sts_Meta = \<lparr>om_Namespace = ''dev'', om_Name = ''db'', om_UID = ''u3'', om_Labels = [],
     om_Annotations = []\<rparr>, sts_Replicas = Some 2, sts_PVCWhenScaled = Some ''Delete''\<rparr>"

theorem guarded_never_slept_witness:
  "let m = (demo_mem [])\<lparr>mm_objs := [KStatefulSet risky_set, KDeployment demo_deployment]\<rparr>;
       a = Apply mem_sleeper None office_hours True
             [ref_of (KStatefulSet risky_set), ref_of (KDeployment demo_deployment)] (mem_state m)
   in fst a = Inr ()
      \<and> cl_obj (mem_content (st_api (snd a))) (key_of (KStatefulSet risky_set)) = Some (KStatefulSet risky_set)"
proof -
  let ?m = "(demo_mem [])\<lparr>mm_objs := [KStatefulSet risky_set, KDeployment demo_deployment]\<rparr>"
  let ?a = "Apply mem_sleeper None office_hours True
             [ref_of (KStatefulSet risky_set), ref_of (KDeployment demo_deployment)] (mem_state ?m)"
  have g: "guarded office_hours (KStatefulSet risky_set)"
    and x: "cl_obj (mem_content (st_api (mem_state ?m))) (key_of (KStatefulSet risky_set))
      = Some (KStatefulSet risky_set)"
    and r: "fst ?a = Inr ()"
    by code_simp+
  from guarded_never_slept [OF mem_sleeper_env(1-3) g x prod.collapse [symmetric, of ?a]] r
  show ?thesis unfolding Let_def by blast
qed

end
