(* ===== verification/Resolve_Correct.thy ===== *)
theory Resolve_Correct
  imports Workload_Safety
begin

text \<open>
  Target resolution against its specification: the refs of a pass are exactly the workloads of the
  requested, supported kinds that the target selects and no \<open>excludeRef\<close> names.
\<close>

section \<open>Exclusion\<close>

definition slash_free :: "string \<Rightarrow> bool" where
  "slash_free s \<longleftrightarrow> CHR ''/'' \<notin> set s"

definition excluded_by :: "resource_ref list \<Rightarrow> wref \<Rightarrow> bool" where
  "excluded_by ers ref \<longleftrightarrow> (\<exists>e \<in> set ers. rr_Kind e = wr_Kind ref \<and> rr_Name e = wr_Name ref
     \<and> rr_Namespace e \<in> {'''', wr_Namespace ref})"

lemma map_of_excludeSet:
  "map_of (foldl (\<lambda>s r. map_put (exKey (rr_Kind r) (rr_Namespace r) (rr_Name r)) () s) m ers) key \<noteq> None
   \<longleftrightarrow> map_of m key \<noteq> None \<or> (\<exists>e \<in> set ers. key = exKey (rr_Kind e) (rr_Namespace e) (rr_Name e))"
  by (induction ers arbitrary: m) auto

lemma split_at_slash:
  assumes "x @ CHR ''/'' # r = y @ CHR ''/'' # r'" and "slash_free x" and "slash_free y"
  shows "x = y \<and> r = r'"
proof -
  have t: "takeWhile (\<lambda>c. c \<noteq> CHR ''/'') (z @ CHR ''/'' # q) = z" if "slash_free z" for z q
    using that by (induction z) (auto simp: slash_free_def)
  from t [OF assms(2), of r] t [OF assms(3), of r'] assms(1) have "x = y" by simp
  with assms(1) show ?thesis by simp
qed

text \<open>Only the workload's own fields need to be free of slashes: the slashes are counted.\<close>

lemma exKey_eq:
  assumes "exKey k n m = exKey k' n' m'" and "slash_free k'" "slash_free n'" "slash_free m'"
  shows "k = k' \<and> n = n' \<and> m = m'"
proof -
  have none: "filter ((=) CHR ''/'') z = [] \<longleftrightarrow> slash_free z" for z
    by (auto simp: slash_free_def filter_empty_conv)
  have "filter ((=) CHR ''/'') k' = []" "filter ((=) CHR ''/'') n' = []" "filter ((=) CHR ''/'') m' = []"
    using assms(2-4) none by simp_all
  moreover have "length (filter ((=) CHR ''/'') (exKey k n m)) = length (filter ((=) CHR ''/'') (exKey k' n' m'))"
    by (simp add: assms(1))
  ultimately have "filter ((=) CHR ''/'') k = []" "filter ((=) CHR ''/'') n = []" "filter ((=) CHR ''/'') m = []"
    by (simp_all add: exKey_def)
  then have free: "slash_free k" "slash_free n" by (simp_all add: none)
  have "k @ CHR ''/'' # (n @ CHR ''/'' # m) = k' @ CHR ''/'' # (n' @ CHR ''/'' # m')"
    using assms(1) by (simp add: exKey_def)
  from split_at_slash [OF this free(1) assms(2)] have "k = k'"
    and "n @ CHR ''/'' # m = n' @ CHR ''/'' # m'" by auto
  with split_at_slash [OF this(2) free(2) assms(3)] show ?thesis by simp
qed

lemma isExcluded_iff:
  assumes "slash_free (wr_Kind ref)" "slash_free (wr_Namespace ref)" "slash_free (wr_Name ref)"
  shows "isExcluded (excludeSet ers) ref \<longleftrightarrow> excluded_by ers ref"
proof -
  have "slash_free ''''" by (simp add: slash_free_def)
  have eq: "exKey (wr_Kind ref) ns (wr_Name ref) = exKey a b c \<longleftrightarrow> a = wr_Kind ref \<and> b = ns \<and> c = wr_Name ref"
    if "slash_free ns" for ns a b c
    using exKey_eq [of a b c "wr_Kind ref" ns "wr_Name ref"] assms that by metis
  show ?thesis
    unfolding isExcluded_def excludeSet_def map_of_excludeSet eq [OF \<open>slash_free ''''\<close>] eq [OF assms(2)]
    by (auto simp: excluded_by_def)
qed

section \<open>Listing\<close>

definition supported_kinds :: "string list" where
  "supported_kinds = [KindDeployment, KindStatefulSet, KindDaemonSet, KindCronJob, KindJob, KindHPA]"

definition in_target :: "'w kube \<Rightarrow> target \<Rightarrow> kobj \<Rightarrow> bool" where
  "in_target c tgt x \<longleftrightarrow>
     tg_Mode tgt = TargetModeNamespaces \<and> om_Namespace (meta_of x) \<in> set (tg_Namespaces tgt)
     \<or> tg_Mode tgt = TargetModeLabels
       \<and> (\<exists>sel. k_as_selector c (tg_Selector tgt) = Inr sel \<and> sel (om_Labels (meta_of x)))"

definition stored_refs :: "cluster \<Rightarrow> (kobj \<Rightarrow> bool) \<Rightarrow> wref set" where
  "stored_refs cl P = {ref_of x | x. cl_obj cl (key_of x) = Some x \<and> P x}"

lemma stored_refs_Un: "stored_refs cl P \<union> stored_refs cl Q = stored_refs cl (\<lambda>x. P x \<or> Q x)"
  by (auto simp: stored_refs_def)

lemma csp_list_refs:
  assumes laws: "kube_laws c content" and wf: "cluster_wf cl" and "\<And>e. P (Inl e) cl"
    and "\<And>refs. set refs = stored_refs cl (\<lambda>x. kind_of x = kind \<and> opt_matches opt (meta_of x)) \<Longrightarrow>
      P (Inr refs) cl"
  shows "csp content (list_refs kind c opt) cl P"
  unfolding list_refs_def
proof (rule csp_bind, rule cspI, rule wp_list [OF laws], goal_cases)
  case (1 s e s')
  then show ?case using assms(3) by (simp add: same_view_def)
next
  case (2 s ms s')
  have k: "cl_obj cl (kind, ns, n) = Some x \<Longrightarrow> key_of x = (kind, ns, n)" for ns n x
    using wf by (simp add: cluster_wf_def)
  have "set (map (\<lambda>m. \<lparr>wr_Kind = kind, wr_Namespace = om_Namespace m, wr_Name = om_Name m\<rparr>) ms)
      = stored_refs cl (\<lambda>x. kind_of x = kind \<and> opt_matches opt (meta_of x))"
  proof -
    have "ref \<in> (\<lambda>m. \<lparr>wr_Kind = kind, wr_Namespace = om_Namespace m, wr_Name = om_Name m\<rparr>) ` set ms
      \<longleftrightarrow> (\<exists>x ns n. cl_obj cl (kind, ns, n) = Some x \<and> opt_matches opt (meta_of x)
          \<and> ref = \<lparr>wr_Kind = kind, wr_Namespace = om_Namespace (meta_of x), wr_Name = om_Name (meta_of x)\<rparr>)" for ref
      unfolding image_iff Bex_def 2(3) 2(1) by blast
    moreover have "(\<exists>x ns n. cl_obj cl (kind, ns, n) = Some x \<and> opt_matches opt (meta_of x)
          \<and> ref = \<lparr>wr_Kind = kind, wr_Namespace = om_Namespace (meta_of x), wr_Name = om_Name (meta_of x)\<rparr>)
      \<longleftrightarrow> (\<exists>x. ref = ref_of x \<and> cl_obj cl (key_of x) = Some x \<and> kind_of x = kind \<and> opt_matches opt (meta_of x))"
      (is "?l \<longleftrightarrow> ?r") for ref
    proof
      assume ?l
      then obtain x ns n where x: "cl_obj cl (kind, ns, n) = Some x" "opt_matches opt (meta_of x)"
        "ref = \<lparr>wr_Kind = kind, wr_Namespace = om_Namespace (meta_of x), wr_Name = om_Name (meta_of x)\<rparr>"
        by blast
      from k [OF x(1)] have "key_of x = (kind, ns, n)" "kind_of x = kind" by (simp_all add: key_of_def)
      with x show ?r by (intro exI [of _ x]) (simp add: ref_of_def)
    next
      assume ?r
      then obtain x where "ref = ref_of x" "cl_obj cl (key_of x) = Some x" "kind_of x = kind"
        "opt_matches opt (meta_of x)" by blast
      then show ?l
        by (intro exI [of _ x] exI [of _ "om_Namespace (meta_of x)"] exI [of _ "om_Name (meta_of x)"])
          (simp add: ref_of_def key_of_def)
    qed
    ultimately show ?thesis
      by (intro set_eqI) (simp only: set_map stored_refs_def mem_Collect_eq)
  qed
  then show ?case using assms(4) 2 by (auto simp: same_view_def intro!: csp_rules)
qed

lemma default_handler_List:
  assumes "h \<in> set default_handlers"
  shows "h_List h c opt = list_refs (h_Kind h) c opt"
  using assms by (cases rule: default_handler_cases)
    (simp_all add: handlers deployment_List_def statefulSet_List_def daemonSet_List_def cronJob_List_def
      job_List_def hpa_List_def)

lemma csp_list_namespaces:
  assumes laws: "kube_laws c content" and wf: "cluster_wf cl" and h: "h \<in> set default_handlers"
    and "\<And>e. P (Inl e) cl"
    and "\<And>refs. set refs = set acc \<union> stored_refs cl (\<lambda>x. kind_of x = h_Kind h \<and> om_Namespace (meta_of x) \<in> set nss) \<Longrightarrow>
      P (Inr refs) cl"
  shows "csp content (list_namespaces c h acc nss) cl P"
  using assms(5)
proof (induction nss arbitrary: acc)
  case Nil
  then show ?case by (auto intro!: csp_rules simp: stored_refs_def)
next
  case (Cons ns nss)
  show ?case unfolding list_namespaces.simps default_handler_List [OF h]
  proof (rule csp_bind, rule csp_list_refs [OF laws wf]; unfold sum.case)
    show "P (Inl e) cl" for e by (rule assms(4))
    fix part assume part: "set part = stored_refs cl (\<lambda>x. kind_of x = h_Kind h \<and> opt_matches (InNamespace ns) (meta_of x))"
    show "csp content (list_namespaces c h (acc @ part) nss) cl P"
    proof (rule Cons.IH, rule Cons.prems)
      fix refs assume "set refs = set (acc @ part)
          \<union> stored_refs cl (\<lambda>x. kind_of x = h_Kind h \<and> om_Namespace (meta_of x) \<in> set nss)"
      then show "set refs = set acc
          \<union> stored_refs cl (\<lambda>x. kind_of x = h_Kind h \<and> om_Namespace (meta_of x) \<in> set (ns # nss))"
        unfolding set_append part Un_assoc stored_refs_Un by (auto simp: stored_refs_def)
    qed
  qed
qed

lemma csp_listKind:
  assumes laws: "kube_laws c content" and wf: "cluster_wf cl" and h: "h \<in> set default_handlers"
    and "\<And>e. P (Inl e) cl"
    and "\<And>refs. set refs = stored_refs cl (\<lambda>x. kind_of x = h_Kind h \<and> in_target c tgt x) \<Longrightarrow> P (Inr refs) cl"
  shows "csp content (listKind c h tgt) cl P"
proof -
  have modes: "TargetModeNamespaces \<noteq> TargetModeLabels"
    by (simp add: TargetModeNamespaces_def TargetModeLabels_def)
  show ?thesis unfolding listKind_def
  proof (intro csp_if csp_throw assms(4), goal_cases)
    case 1
    then show ?case
      by (intro csp_list_namespaces [where P = P, OF laws wf h assms(4)] assms(5)) (use modes in \<open>simp add: in_target_def\<close>)
  next
    case 2
    show ?case
    proof (cases "k_as_selector c (tg_Selector tgt)")
      case (Inr sel)
      show ?thesis unfolding Inr sum.case default_handler_List [OF h]
        by (rule csp_list_refs [where P = P, OF laws wf assms(4)], rule assms(5))
          (use 2 modes Inr in \<open>simp add: in_target_def\<close>)
    qed (use assms(4) in \<open>auto intro!: csp_rules\<close>)
  qed
qed


section \<open>Requested kinds\<close>

lemma remdups_snoc_last: "remdups (xs @ [k]) = remdups (filter (\<lambda>x. x \<noteq> k) xs) @ [k]"
  by (induction xs) auto

lemma dedup_kinds_eq:
  "dedup_kinds seen ks = rev (remdups (rev (filter (\<lambda>k. map_of seen k = None) ks)))"
proof (induction ks arbitrary: seen)
  case (Cons k ks)
  have "filter (\<lambda>j. map_of (map_put k () seen) j = None) ks = filter (\<lambda>j. j \<noteq> k) (filter (\<lambda>j. map_of seen j = None) ks)"
    by (auto intro!: filter_cong)
  then show ?case
    using Cons by (auto simp: remdups_snoc_last rev_filter intro!: arg_cong [of _ _ remdups] filter_cong)
qed simp

text \<open>Each kind once, at its first place; all supported kinds when none is named.\<close>

lemma requestedKinds_Default:
  "requestedKinds ks Default_registry = (if ks = [] then supported_kinds else rev (remdups (rev ks)))"
  by (simp add: requestedKinds_def Kinds_def Default_registry_order dedup_kinds_eq supported_kinds_def)

lemma supported_iff: "registry_Get Default_registry k = None \<longleftrightarrow> k \<notin> set supported_kinds"
  using Default_registry_kinds [of k] by (auto simp: supported_kinds_def)

section \<open>Resolve\<close>

lemma csp_resolve_kinds:
  fixes c :: "'w kube"
  assumes laws: "kube_laws c content" and wf: "cluster_wf cl" and "\<And>e. P (Inl e) cl"
    and "\<And>refs. set refs = set acc \<union> {ref \<in> stored_refs cl (\<lambda>x. kind_of x \<in> set ks \<inter> set supported_kinds
        \<and> in_target c tgt x). \<not> isExcluded ex ref} \<Longrightarrow>
      P (Inr (refs, unh @ filter (\<lambda>k. k \<notin> set supported_kinds) ks)) cl"
  shows "csp content (resolve_kinds c Default_registry ex tgt acc unh ks) cl P"
  using assms(4)
proof (induction ks arbitrary: acc unh)
  case Nil
  then show ?case by (auto intro!: csp_rules simp: stored_refs_def)
next
  case (Cons k ks)
  show ?case
  proof (cases "registry_Get (Default_registry :: 'w registry) k")
    case None
    with supported_iff have k: "k \<notin> set supported_kinds" by blast
    show ?thesis unfolding resolve_kinds.simps None option.case
      by (rule Cons.IH) (use Cons.prems k in auto)
  next
    case (Some h)
    then have k: "k \<in> set supported_kinds" using supported_iff [of k, where 'a = 'w] by auto
    from Default_registry_Get [OF Some] have h: "h \<in> set default_handlers" "h_Kind h = k" by auto
    show ?thesis unfolding resolve_kinds.simps Some option.case
    proof (rule csp_bind, rule csp_listKind [OF laws wf h(1)]; unfold sum.case)
      show "P (Inl e) cl" for e by (rule assms(3))
      fix found assume f: "set found = stored_refs cl (\<lambda>x. kind_of x = h_Kind h \<and> in_target c tgt x)"
      show "csp content (resolve_kinds c Default_registry ex tgt
          (acc @ filter (\<lambda>ref. \<not> isExcluded ex ref) found) unh ks) cl P"
      proof (rule Cons.IH)
        fix refs assume "set refs = set (acc @ filter (\<lambda>ref. \<not> isExcluded ex ref) found)
            \<union> {ref \<in> stored_refs cl (\<lambda>x. kind_of x \<in> set ks \<inter> set supported_kinds \<and> in_target c tgt x). \<not> isExcluded ex ref}"
        then have "set refs = set acc \<union> {ref \<in> stored_refs cl (\<lambda>x. kind_of x \<in> set (k # ks) \<inter> set supported_kinds
            \<and> in_target c tgt x). \<not> isExcluded ex ref}"
          using f h(2) k by (auto simp: stored_refs_def)
        from Cons.prems [OF this] k
        show "P (Inr (refs, unh @ filter (\<lambda>k. k \<notin> set supported_kinds) ks)) cl" by simp
      qed
    qed
  qed
qed

text \<open>
  C19: Resolution is exact: when it succeeds, the refs are, in order of kind, namespace and name, those
  of exactly the stored workloads of a supported kind that the schedule asks for (every supported
  kind if it names none), that the target selects, and that no \<open>excludeRef\<close> names (one without a
  namespace excludes the name everywhere); the requested kinds without a handler are reported once
  each, in the order of the request; and nothing in the cluster changes.
\<close>

theorem Resolve_exact:
  fixes content :: "'w \<Rightarrow> cluster"
  assumes "kube_laws (rv_Client r) content" and "resolver_registry r = Default_registry"
    and "\<forall>k x. cl_obj (content (st_api s)) k = Some x \<longrightarrow>
      slash_free (om_Namespace (meta_of x)) \<and> slash_free (om_Name (meta_of x))"
    and "Resolve r spec s = (Inr (refs, unhandled), s')"
  shows "content (st_api s') = content (st_api s) \<and> sorted refs
    \<and> set refs = {ref_of x | x. cl_obj (content (st_api s)) (key_of x) = Some x
        \<and> kind_of x \<in> set supported_kinds \<and> (sp_Kinds spec = [] \<or> kind_of x \<in> set (sp_Kinds spec))
        \<and> in_target (rv_Client r) (sp_Target spec) x \<and> \<not> excluded_by (sp_ExcludeRefs spec) (ref_of x)}
    \<and> unhandled = filter (\<lambda>k. k \<notin> set supported_kinds) (rev (remdups (rev (sp_Kinds spec))))"
proof -
  let ?cl = "content (st_api s)" and ?c = "rv_Client r" and ?ex = "excludeSet (sp_ExcludeRefs spec)"
  let ?ks = "requestedKinds (sp_Kinds spec) (Default_registry :: 'w registry)"
  have wf: "cluster_wf ?cl" using kube_lawsD(19) [OF assms(1)] by simp
  have "csp content (Resolve r spec) ?cl (\<lambda>out cl'. \<forall>refs unh. out = Inr (refs, unh) \<longrightarrow> cl' = ?cl \<and> sorted refs
      \<and> set refs = {ref \<in> stored_refs ?cl (\<lambda>x. kind_of x \<in> set ?ks \<inter> set supported_kinds
          \<and> in_target ?c (sp_Target spec) x). \<not> isExcluded ?ex ref}
      \<and> unh = filter (\<lambda>k. k \<notin> set supported_kinds) ?ks)"
    unfolding Resolve_def assms(2) Let_def option.case
    by (rule csp_bind, rule csp_resolve_kinds [OF assms(1) wf]; unfold sum.case prod.case;
        (rule csp_return)?) simp_all
  from cspD [OF this assms(4)]
  have a: "content (st_api s') = ?cl" "sorted refs" "unhandled = filter (\<lambda>k. k \<notin> set supported_kinds) ?ks"
    and b: "set refs = {ref \<in> stored_refs ?cl (\<lambda>x. kind_of x \<in> set ?ks \<inter> set supported_kinds
          \<and> in_target ?c (sp_Target spec) x). \<not> isExcluded ?ex ref}" by auto
  have kinds: "kind_of x \<in> set ?ks \<inter> set supported_kinds
      \<longleftrightarrow> kind_of x \<in> set supported_kinds \<and> (sp_Kinds spec = [] \<or> kind_of x \<in> set (sp_Kinds spec))" for x
    by (auto simp: requestedKinds_Default)
  have ex: "isExcluded ?ex (ref_of x) \<longleftrightarrow> excluded_by (sp_ExcludeRefs spec) (ref_of x)"
    if "cl_obj ?cl (key_of x) = Some x" for x
  proof (rule isExcluded_iff)
    show "slash_free (wr_Kind (ref_of x))" by (cases x) (simp_all add: ref_of_def slash_free_def)
  qed (use assms(3) [rule_format, OF that] in \<open>simp_all add: ref_of_def\<close>)
  have "set refs = {ref_of x | x. cl_obj ?cl (key_of x) = Some x
        \<and> kind_of x \<in> set supported_kinds \<and> (sp_Kinds spec = [] \<or> kind_of x \<in> set (sp_Kinds spec))
        \<and> in_target ?c (sp_Target spec) x \<and> \<not> excluded_by (sp_ExcludeRefs spec) (ref_of x)}"
    unfolding b stored_refs_def kinds using ex by blast
  moreover have "unhandled = filter (\<lambda>k. k \<notin> set supported_kinds) (rev (remdups (rev (sp_Kinds spec))))"
    using a(3) by (auto simp: requestedKinds_Default)
  ultimately show ?thesis using a by blast
qed


definition picky_spec :: sleep_schedule_spec where
  "picky_spec = (ss_Spec office_hours)\<lparr>sp_Kinds := [''Pod'', KindHPA, ''Pod'', KindDeployment],
     sp_ExcludeRefs := [\<lparr>rr_Kind = KindHPA, rr_Name = ''web'', rr_Namespace = ''''\<rparr>]\<rparr>"

definition mem_resolver :: "mem resolver" where
  "mem_resolver = \<lparr>rv_Client = mem_client, rv_Registry = None\<rparr>"

theorem Resolve_exact_witness:
  "fst (Resolve mem_resolver picky_spec (mem_state (demo_mem [])))
     = Inr ([ref_of (KDeployment demo_deployment)], [''Pod''])
   \<and> {ref_of x | x. cl_obj (mem_content (demo_mem [])) (key_of x) = Some x
        \<and> kind_of x \<in> set supported_kinds \<and> (sp_Kinds picky_spec = [] \<or> kind_of x \<in> set (sp_Kinds picky_spec))
        \<and> in_target mem_client (sp_Target picky_spec) x
        \<and> \<not> excluded_by (sp_ExcludeRefs picky_spec) (ref_of x)} = {ref_of (KDeployment demo_deployment)}"
proof -
  let ?s = "mem_state (demo_mem [])"
  have laws: "kube_laws (rv_Client mem_resolver) mem_content" "resolver_registry mem_resolver = Default_registry"
    by (simp_all add: mem_resolver_def mem_kube_laws resolver_registry_def)
  have r: "fst (Resolve mem_resolver picky_spec ?s) = Inr ([ref_of (KDeployment demo_deployment)], [''Pod''])"
    by code_simp
  have stored: "cl_obj (mem_content (st_api ?s)) k = Some x \<Longrightarrow> x = KHPA demo_hpa \<or> x = KDeployment demo_deployment"
    for k x
    by (simp add: mem_state_def demo_mem_def mem_content_def obj_at_def empty_mem_def split: if_splits)
  have free: "slash_free (om_Namespace (meta_of (KHPA demo_hpa)))" "slash_free (om_Name (meta_of (KHPA demo_hpa)))"
    "slash_free (om_Namespace (meta_of (KDeployment demo_deployment)))"
    "slash_free (om_Name (meta_of (KDeployment demo_deployment)))"
    by code_simp+
  have "\<forall>k x. cl_obj (mem_content (st_api ?s)) k = Some x \<longrightarrow>
      slash_free (om_Namespace (meta_of x)) \<and> slash_free (om_Name (meta_of x))"
    using stored free by blast
  note res = Resolve_exact [OF laws this result_split [OF r], THEN conjunct2, THEN conjunct2, THEN conjunct1]
  have "st_api ?s = demo_mem []" "rv_Client mem_resolver = mem_client"
    by (simp_all add: mem_state_def mem_resolver_def)
  with res r show ?thesis by simp
qed

text \<open>
  C20: A registry answers with the handler registered last for a kind and lists each kind once, in
  the order of first registration; the default registry knows exactly the six kinds.
\<close>

theorem registry_lookup:
  "registry_Get (NewRegistry hs) k = List.find (\<lambda>h. h_Kind h = k) (rev hs)
   \<and> (registry_Has (NewRegistry hs) k \<longleftrightarrow> k \<in> set (Kinds (NewRegistry hs)))
   \<and> Kinds (NewRegistry hs) = rev (remdups (rev (map h_Kind hs)))
   \<and> Kinds Default_registry = supported_kinds"
  by (auto simp: registry_Get_def registry_Has_def Kinds_def registry_byKind registry_order find_None_iff
      Default_registry_order supported_kinds_def find_Some_iff)

end
