(* ===== verification/Wake_Pass.thy ===== *)
theory Wake_Pass
  imports Reconciler Resolve_Correct
begin

text \<open>
  The helpers of the reconciler and its handling of the wake ConfigMap, which refines a pure function
  of the ConfigMap's data and the clock.
\<close>

section \<open>Requeue delay\<close>

lemma requeue_consider_pos: "0 \<le> best \<Longrightarrow> 0 \<le> requeue_consider now best t"
  by (simp add: requeue_consider_def Let_def)

text \<open>
  C24: The delay until the next pass: zero exactly when neither a transition nor an expiry is pending,
  otherwise the least of the pending waits, each at least a second.
\<close>

theorem requeueDelay_least:
  "requeueDelay now transition expiry =
     (let pending = filter (\<lambda>t. \<not> time_IsZero t) [transition, expiry]
      in if pending = [] then 0
         else Min (set (map (\<lambda>t. max d_Second (time_Sub t now)) pending)))"
proof -
  have pos: "max d_Second x \<noteq> 0" for x by (simp add: max_def)
  have clamp: "(if x < d_Second then d_Second else x) = max d_Second x" for x by (simp add: max_def)
  show ?thesis
    by (cases "time_IsZero transition"; cases "time_IsZero expiry")
      (auto simp: requeueDelay_def requeue_consider_def Let_def clamp pos min_def)
qed

section \<open>More rules\<close>

lemma csp_try:
  "csp content m cl (\<lambda>r cl'. csp content (f r) cl' P) \<Longrightarrow> csp content (try_p m f) cl P"
  unfolding csp_def wp_try by (auto elim!: wp_mono)

lemma csp_get:
  assumes "get_law content look get"
    and "\<And>e. (e = NotFound \<Longrightarrow> look cl ns n = None) \<Longrightarrow> P (Inl (ApiError e)) cl"
    and "\<And>x. look cl ns n = Some x \<Longrightarrow> P (Inr x) cl"
  shows "csp content (call (get ns n)) cl P"
  by (rule cspI, rule wp_call_get [OF assms(1)]) (use assms(2,3) in \<open>auto simp: same_view_def\<close>)

lemma csp_write:
  assumes "write_law content effect op"
    and "\<And>e. P (Inl (ApiError e)) cl" and "\<And>cl'. effect cl cl' \<Longrightarrow> P (Inr ()) cl'"
  shows "csp content (call op) cl P"
  by (rule cspI, rule wp_call_write [OF assms(1)]) (use assms(2,3) in \<open>auto simp: same_view_def\<close>)

lemma csp_event [csp_rules]: "P (Inr ()) cl \<Longrightarrow> csp content (schedule_event r ss ty reason message) cl P"
  unfolding schedule_event_def by (intro csp_rules)



section \<open>Ensuring the ConfigMap\<close>

text \<open>A client sets the controller reference and nothing else.\<close>

definition owner_law :: "'w kube \<Rightarrow> bool" where
  "owner_law c \<longleftrightarrow> (\<forall>ss cm cm'. k_set_controller_reference c ss cm = Inr cm' \<longrightarrow>
     (\<exists>o'. cm' = cm\<lparr>cm_Owner := o'\<rparr>))"

lemma csp_ensure:
  assumes laws: "kube_laws (rc_Client r) content" and own: "owner_law (rc_Client r)"
    and "\<And>e. P (Inl e) cl" and "P (Inr ()) cl"
    and "\<And>o' v. find_cm cl (ss_Namespace ss) (WakeConfigMapName (ss_Name ss)) = None \<Longrightarrow>
      P (Inr ()) (put_cm ((new_wake_config_map ss)\<lparr>cm_Owner := o', cm_Version := v\<rparr>) cl)"
  shows "csp content (ensureWakeConfigMap r ss) cl P"
  unfolding ensureWakeConfigMap_def Let_def
proof (rule csp_try, rule csp_get [OF kube_lawsD(7) [OF laws]], goal_cases)
  case (1 e)
  show ?case
  proof (cases "e = NotFound")
    case True
    with 1 have none: "find_cm cl (ss_Namespace ss) (WakeConfigMapName (ss_Name ss)) = None" by simp
    show ?thesis
    proof (cases "k_set_controller_reference (rc_Client r) ss (new_wake_config_map ss)")
      case (Inl err)
      then show ?thesis using assms(3) True by (simp add: isNotFound_def) (rule csp_throw)
    next
      case (Inr cm)
      with own obtain o' where cm: "cm = (new_wake_config_map ss)\<lparr>cm_Owner := o'\<rparr>"
        unfolding owner_law_def by blast
      have "csp content (try_p (call (k_create_cm (rc_Client r) cm)) (\<lambda>created. case created of
          Inr u \<Rightarrow> return_p ()
        | Inl err \<Rightarrow> if err = ApiError NamespaceTerminating then return_p () else throw_p err)) cl P"
        by (rule csp_try, rule csp_write [OF kube_lawsD(8) [OF laws]])
          (use assms(3-5) none in \<open>auto simp: create_cm_effect_def cm intro!: csp_rules\<close>)
      moreover have nf: "(\<not> isNotFound (ApiError e)) = False" by (simp add: isNotFound_def True)
      ultimately show ?thesis unfolding sum.case Inr nf if_False by blast
    qed
  next
    case False
    then show ?thesis using assms(3) by (auto simp: isNotFound_def intro!: csp_rules)
  qed
next
  case (2 cm)
  then show ?case using assms(4) by (auto intro!: csp_rules)
qed

section \<open>The wake entry as a pure function\<close>

definition wake_spec :: "string gomap \<Rightarrow> instant \<Rightarrow> duration \<Rightarrow> duration \<Rightarrow> wake_state \<times> string gomap" where
  "wake_spec data now def maxd =
     (case map_of data WakeKey of
        None \<Rightarrow> (no_wake, data)
      | Some raw \<Rightarrow>
          (case ParseEntry raw of
             Inl _ \<Rightarrow> (no_wake, data)
           | Inr e \<Rightarrow>
               (case Resolve_wake e now def maxd of
                  Inl _ \<Rightarrow> (no_wake, data)
                | Inr res \<Rightarrow>
                    if rs_Expiry res \<le> now then (no_wake, map_del WakeKey data)
                    else (\<lparr>ws_ActiveCount = 1, ws_Earliest = rs_Expiry res\<rparr>,
                          if rs_Changed res then map_put WakeKey (FormatExpiry (rs_Expiry res)) data
                          else data))))"

text \<open>A ConfigMap takes new data; nothing else changes but its version.\<close>

definition cm_data_upd :: "string \<Rightarrow> string \<Rightarrow> string gomap \<Rightarrow> cluster \<Rightarrow> cluster \<Rightarrow> bool" where
  "cm_data_upd ns n data cl cl' \<longleftrightarrow>
     (\<exists>cm v. find_cm cl ns n = Some cm \<and> cl' = put_cm (cm\<lparr>cm_Data := data, cm_Version := v\<rparr>) cl)"

lemma csp_update_data:
  assumes laws: "kube_laws c content" and wf: "cluster_wf cl" and cm: "find_cm cl ns n = Some cm"
    and "\<And>e. P (Inl e) cl" and "\<And>cl'. cm_data_upd ns n data cl cl' \<Longrightarrow> P (Inr ()) cl'"
  shows "csp content (call (k_update_cm c (cm\<lparr>cm_Data := data\<rparr>))) cl P"
proof (rule csp_write [OF kube_lawsD(9) [OF laws]], rule assms(4))
  fix cl' assume "update_cm_effect (cm\<lparr>cm_Data := data\<rparr>) cl cl'"
  then have "cm_data_upd ns n data cl cl'" using cm by (auto simp: update_cm_effect_def cm_data_upd_def)
  then show "P (Inr ()) cl'" by (rule assms(5))
qed

text \<open>What a pass leaves: its state and data are the specification's, or it failed and wrote nothing.\<close>

definition wake_done ::
  "sleep_schedule \<Rightarrow> instant \<Rightarrow> cluster \<Rightarrow> go_error + wake_state \<Rightarrow> cluster \<Rightarrow> bool"
where
  "wake_done ss now cl out cl' \<longleftrightarrow>
     (case out of
        Inl e \<Rightarrow> cl' = cl
      | Inr ws \<Rightarrow>
          (case find_cm cl (ss_Namespace ss) (WakeConfigMapName (ss_Name ss)) of
             None \<Rightarrow> ws = no_wake \<and> cl' = cl
           | Some cm \<Rightarrow>
               (let (ws', data) = wake_spec (cm_Data cm) now (fst (temporaryWakeBounds ss)) (snd (temporaryWakeBounds ss))
                in ws = ws' \<and> (data = cm_Data cm \<and> cl' = cl
                      \<or> cm_data_upd (ss_Namespace ss) (WakeConfigMapName (ss_Name ss)) data cl cl'))))"


lemma csp_applyWake:
  assumes laws: "kube_laws (rc_Client r) content" and wf: "cluster_wf cl"
    and cm: "find_cm cl (ss_Namespace ss) (WakeConfigMapName (ss_Name ss)) = Some cm"
    and raw: "map_of (cm_Data cm) WakeKey = Some raw" and e: "ParseEntry raw = Inr e"
    and res: "Resolve_wake e now (fst (temporaryWakeBounds ss)) (snd (temporaryWakeBounds ss)) = Inr res"
  shows "csp content (applyWake r ctx ss now cm res) cl (wake_done ss now cl)"
proof -
  let ?ns = "ss_Namespace ss" and ?n = "WakeConfigMapName (ss_Name ss)"
  have spec: "wake_spec (cm_Data cm) now (fst (temporaryWakeBounds ss)) (snd (temporaryWakeBounds ss)) =
      (if rs_Expiry res \<le> now then (no_wake, map_del WakeKey (cm_Data cm))
       else (\<lparr>ws_ActiveCount = 1, ws_Earliest = rs_Expiry res\<rparr>,
             if rs_Changed res then map_put WakeKey (FormatExpiry (rs_Expiry res)) (cm_Data cm) else cm_Data cm))"
    using raw e res by (simp add: wake_spec_def)
  have failed: "wake_done ss now cl (Inl err) cl" for err by (simp add: wake_done_def)
  have tail: "csp content (bind_p (schedule_event r ss ty r1 m1) (\<lambda>_.
      bind_p (Record (rc_Client r) c1 False ss a1 a2 a3 a4 a5) (\<lambda>_. return_p ws))) cl' (wake_done ss now cl)"
    if "wake_done ss now cl (Inr ws) cl'" for ty r1 m1 c1 a1 a2 a3 a4 a5 ws cl'
    by (rule csp_bind, rule csp_event, unfold sum.case, rule csp_bind, rule csp_Record, unfold sum.case,
        rule csp_return, rule that)
  have clamp: "csp content (bind_p (when_p b (schedule_event r ss ty r1 m1)) (\<lambda>_. m)) cl (wake_done ss now cl)"
    if "csp content m cl (wake_done ss now cl)" for b ty r1 m1 m
    by (intro csp_bind csp_when csp_event) (use that in simp_all)
  show ?thesis unfolding applyWake_def Let_def
  proof (rule clamp, rule csp_if, goal_cases)
    case 1
    then have "wake_done ss now cl (Inr no_wake) cl'"
      if "cm_data_upd ?ns ?n (map_del WakeKey (cm_Data cm)) cl cl'" for cl'
      using that cm spec by (simp add: wake_done_def time_After_def)
    then show ?case
      by (intro csp_bind [of _ "call _"] csp_update_data [OF laws wf cm]; unfold sum.case)
        (auto intro: failed tail)
  next
    case 2
    let ?data = "map_put WakeKey (FormatExpiry (rs_Expiry res)) (cm_Data cm)"
    let ?ws = "\<lparr>ws_ActiveCount = 1, ws_Earliest = rs_Expiry res\<rparr>"
    have stamped: "wake_done ss now cl (Inr ?ws) cl'" if "rs_Changed res" "cm_data_upd ?ns ?n ?data cl cl'" for cl'
      using 2 that cm spec by (simp add: wake_done_def time_After_def)
    have kept: "wake_done ss now cl (Inr ?ws) cl" if "\<not> rs_Changed res"
      using 2 that cm spec by (simp add: wake_done_def time_After_def)
    show ?case
      by (rule csp_bind, rule csp_when, rule csp_update_data [OF laws wf cm]; unfold sum.case; (rule tail)?)
        (auto intro: failed stamped kept simp del: One_nat_def)
  qed
qed

lemma csp_processWake:
  assumes laws: "kube_laws (rc_Client r) content" and wf: "cluster_wf cl"
  shows "csp content (processWakeEntries r ctx ss now) cl (wake_done ss now cl)"
  unfolding processWakeEntries_def
proof (rule csp_try, rule csp_get [OF kube_lawsD(7) [OF laws]], goal_cases)
  case (1 e)
  then show ?case by (auto simp: wake_done_def isNotFound_def intro!: csp_rules)
next
  case (2 cm)
  let ?b = "temporaryWakeBounds ss"
  have kept: "csp content (bind_p (schedule_event r ss ty r1 m1) (\<lambda>_. return_p no_wake)) cl (wake_done ss now cl)"
    if "wake_spec (cm_Data cm) now (fst ?b) (snd ?b) = (no_wake, cm_Data cm)" for ty r1 m1
    by (rule csp_bind, rule csp_event, unfold sum.case, rule csp_return) (simp add: wake_done_def 2 that)
  show ?case unfolding sum.case case_prod_beta
  proof (cases "map_of (cm_Data cm) WakeKey")
    case None
    then show "csp content (case map_of (cm_Data cm) WakeKey of None \<Rightarrow> return_p no_wake
      | Some raw \<Rightarrow> (case ParseEntry raw of
          Inl perr \<Rightarrow> bind_p (schedule_event r ss ''Warning'' ''MalformedWakeEntry''
            (''ignored malformed wake value '' @ go_quote raw @ '': '' @ rc_ErrorText r perr)) (\<lambda>_. return_p no_wake)
        | Inr e \<Rightarrow> (case Resolve_wake e now (fst ?b) (snd ?b) of
            Inl rerr \<Rightarrow> bind_p (schedule_event r ss ''Warning'' ''UnresolvableWakeEntry''
              (''ignored wake value '' @ go_quote raw @ '': '' @ rc_ErrorText r rerr)) (\<lambda>_. return_p no_wake)
          | Inr res \<Rightarrow> applyWake r ctx ss now cm res))) cl (wake_done ss now cl)"
      by (auto intro!: csp_return simp: wake_done_def wake_spec_def 2)
  next
    case (Some raw)
    show "csp content (case map_of (cm_Data cm) WakeKey of None \<Rightarrow> return_p no_wake
      | Some raw \<Rightarrow> (case ParseEntry raw of
          Inl perr \<Rightarrow> bind_p (schedule_event r ss ''Warning'' ''MalformedWakeEntry''
            (''ignored malformed wake value '' @ go_quote raw @ '': '' @ rc_ErrorText r perr)) (\<lambda>_. return_p no_wake)
        | Inr e \<Rightarrow> (case Resolve_wake e now (fst ?b) (snd ?b) of
            Inl rerr \<Rightarrow> bind_p (schedule_event r ss ''Warning'' ''UnresolvableWakeEntry''
              (''ignored wake value '' @ go_quote raw @ '': '' @ rc_ErrorText r rerr)) (\<lambda>_. return_p no_wake)
          | Inr res \<Rightarrow> applyWake r ctx ss now cm res))) cl (wake_done ss now cl)"
      unfolding Some option.case
      by (split sum.split, intro conjI allI impI, rule kept, simp add: wake_spec_def Some,
          split sum.split, intro conjI allI impI, rule kept, simp add: wake_spec_def Some,
          rule csp_applyWake [OF laws wf 2 Some])
  qed
qed


section \<open>The life of an override\<close>

lemma wake_spec_active:
  assumes "wake_spec data now def maxd = (ws, data')" and "ws_ActiveCount ws \<noteq> 0"
  obtains raw e res where "map_of data WakeKey = Some raw" and "ParseEntry raw = Inr e"
    and "Resolve_wake e now def maxd = Inr res" and "now < rs_Expiry res"
    and "ws = \<lparr>ws_ActiveCount = 1, ws_Earliest = rs_Expiry res\<rparr>"
    and "data' = (if rs_Changed res then map_put WakeKey (FormatExpiry (rs_Expiry res)) data else data)"
  using assms
  by (auto simp: wake_spec_def no_wake_def not_le split: option.splits sum.splits if_splits)

lemma wake_spec_absolute:
  assumes "map_of data WakeKey = Some raw" and "ParseEntry raw = Inr \<lparr>we_Expiry = Some x, we_Relative = None\<rparr>"
    and "0 < maxd \<longrightarrow> x \<le> now + maxd"
  shows "wake_spec data now def maxd =
    (if x \<le> now then (no_wake, map_del WakeKey data) else (\<lparr>ws_ActiveCount = 1, ws_Earliest = x\<rparr>, data))"
proof -
  have "Resolve_wake \<lparr>we_Expiry = Some x, we_Relative = None\<rparr> now def maxd
      = Inr \<lparr>rs_Expiry = x, rs_Changed = False, rs_Clamped = False\<rparr>"
    using assms(3) by (auto simp: Resolve_wake_def time_order_defs Let_def)
  then show ?thesis using assms(1,2) by (simp add: wake_spec_def)
qed

text \<open>What an active pass leaves behind is read as one absolute instant ever after.\<close>

lemma wake_spec_again:
  assumes "wake_spec data now def maxd = (ws, data')" and "ws_ActiveCount ws \<noteq> 0"
    and "printable (ws_Earliest ws)"
  shows "\<exists>x. x \<le> ws_Earliest ws \<and> ws_Earliest ws < x + d_Second
    \<and> (\<forall>later. now \<le> later \<longrightarrow> wake_spec data' later def maxd =
       (if x \<le> later then (no_wake, map_del WakeKey data')
        else (\<lparr>ws_ActiveCount = 1, ws_Earliest = x\<rparr>, data')))"
proof -
  from wake_spec_active [OF assms(1,2)] obtain raw e res
    where raw: "map_of data WakeKey = Some raw" and e: "ParseEntry raw = Inr e"
      and res: "Resolve_wake e now def maxd = Inr res"
      and ws: "ws = \<lparr>ws_ActiveCount = 1, ws_Earliest = rs_Expiry res\<rparr>"
      and data': "data' = (if rs_Changed res then map_put WakeKey (FormatExpiry (rs_Expiry res)) data else data)"
    by metis
  have cap: "0 < maxd \<longrightarrow> rs_Expiry res \<le> now + maxd" using Resolve_wake_capped [OF res] by blast
  show ?thesis
  proof (cases "rs_Changed res")
    case True
    let ?x = "unix (rs_Expiry res) * d_Second"
    have x: "?x \<le> rs_Expiry res" "rs_Expiry res < ?x + d_Second" by (fact unix_le unix_gt)+
    have "map_of data' WakeKey = Some (FormatExpiry (rs_Expiry res))" using True data' by simp
    moreover have "ParseEntry (FormatExpiry (rs_Expiry res)) = Inr \<lparr>we_Expiry = Some ?x, we_Relative = None\<rparr>"
      using ParseEntry_FormatExpiry assms(3) ws by simp
    moreover have "0 < maxd \<longrightarrow> ?x \<le> later + maxd" if "now \<le> later" for later
      using cap x(1) that by linarith
    ultimately show ?thesis using wake_spec_absolute x ws by (intro exI [of _ ?x]) simp
  next
    case False
    from res ParseEntry_wf [OF e] have abs: "e = \<lparr>we_Expiry = Some (rs_Expiry res), we_Relative = None\<rparr>"
      by (cases rule: Resolve_wake_cases) (use False in \<open>auto simp: intro!: wake_entry.equality\<close>)
    have "0 < maxd \<longrightarrow> rs_Expiry res \<le> later + maxd" if "now \<le> later" for later
      using cap that by linarith
    moreover have "map_of data' WakeKey = Some raw" using False data' raw by simp
    ultimately show ?thesis
      using wake_spec_absolute e abs ws by (intro exI [of _ "rs_Expiry res"]) simp
  qed
qed

lemma processWake_spec:
  assumes laws: "kube_laws (rc_Client r) content"
    and cm: "find_cm (content (st_api s)) (ss_Namespace ss) (WakeConfigMapName (ss_Name ss)) = Some cm"
    and run: "processWakeEntries r ctx ss now s = (Inr ws, s')"
  obtains cm' where "find_cm (content (st_api s')) (ss_Namespace ss) (WakeConfigMapName (ss_Name ss)) = Some cm'"
    and "wake_spec (cm_Data cm) now (fst (temporaryWakeBounds ss)) (snd (temporaryWakeBounds ss)) = (ws, cm_Data cm')"
    and "content (st_api s') = content (st_api s)
      \<or> (\<exists>cm'. content (st_api s') = put_cm cm' (content (st_api s))
           \<and> cm_Namespace cm' = ss_Namespace ss \<and> cm_Name cm' = WakeConfigMapName (ss_Name ss))"
proof -
  have wf: "cluster_wf (content (st_api s))" using kube_lawsD(19) [OF laws] by simp
  have k: "cm_Namespace cm = ss_Namespace ss" "cm_Name cm = WakeConfigMapName (ss_Name ss)"
    using wf cm by (auto simp: cluster_wf_def find_cm_def)
  let ?sp = "wake_spec (cm_Data cm) now (fst (temporaryWakeBounds ss)) (snd (temporaryWakeBounds ss))"
  let ?upd = "cm_data_upd (ss_Namespace ss) (WakeConfigMapName (ss_Name ss))"
  from cspD [OF csp_processWake [OF laws wf] run]
  have d: "ws = fst ?sp" "snd ?sp = cm_Data cm \<and> content (st_api s') = content (st_api s)
      \<or> ?upd (snd ?sp) (content (st_api s)) (content (st_api s'))"
    by (auto simp: wake_done_def cm split: prod.splits)
  from d(2) consider (same) "snd ?sp = cm_Data cm" "content (st_api s') = content (st_api s)"
    | (upd) v where "content (st_api s') = put_cm (cm\<lparr>cm_Data := snd ?sp, cm_Version := v\<rparr>) (content (st_api s))"
    using cm by (auto simp: cm_data_upd_def)
  then show thesis
  proof cases
    case same
    show thesis by (rule that [of cm]) (use same d(1) cm in \<open>simp_all add: prod_eq_iff\<close>)
  next
    case upd
    show thesis
    proof (rule that [of "cm\<lparr>cm_Data := snd ?sp, cm_Version := v\<rparr>"])
      show "?sp = (ws, cm_Data (cm\<lparr>cm_Data := snd ?sp, cm_Version := v\<rparr>))" by (simp add: d(1))
      show "content (st_api s') = content (st_api s)
        \<or> (\<exists>cm'. content (st_api s') = put_cm cm' (content (st_api s))
           \<and> cm_Namespace cm' = ss_Namespace ss \<and> cm_Name cm' = WakeConfigMapName (ss_Name ss))"
        by (rule disjI2, rule exI, rule conjI [OF upd]) (simp add: k)
    qed (simp add: upd find_cm_def put_cm_def k)
  qed
qed

text \<open>
  C14: The life of an override. Once a pass has found it active, it lies ahead and, with a
  \<open>maxDuration\<close>, at most that far. There is one instant \<open>x\<close>, less than a second before the expiry that
  was resolved first, that every later pass over the ConfigMap reads as long as its data stays what the
  pass left: before \<open>x\<close> such a pass finds the override active until \<open>x\<close> and leaves the data alone, from
  \<open>x\<close> on it removes the key.
\<close>

theorem override_lifecycle:
  assumes "kube_laws (rc_Client r) content"
    and "find_cm (content (st_api s)) (ss_Namespace ss) (WakeConfigMapName (ss_Name ss)) = Some cm"
    and "processWakeEntries r ctx ss now s = (Inr ws, s1)" and "ws_ActiveCount ws \<noteq> 0"
    and "printable (ws_Earliest ws)"
  shows "now < ws_Earliest ws
    \<and> (0 < snd (temporaryWakeBounds ss) \<longrightarrow> ws_Earliest ws \<le> now + snd (temporaryWakeBounds ss))
    \<and> (\<exists>x cm1. x \<le> ws_Earliest ws \<and> ws_Earliest ws < x + d_Second
        \<and> find_cm (content (st_api s1)) (ss_Namespace ss) (WakeConfigMapName (ss_Name ss)) = Some cm1
        \<and> (\<forall>later t c ws' s2. now \<le> later
            \<and> find_cm (content (st_api t)) (ss_Namespace ss) (WakeConfigMapName (ss_Name ss)) = Some c
            \<and> cm_Data c = cm_Data cm1 \<and> processWakeEntries r ctx ss later t = (Inr ws', s2) \<longrightarrow>
           (\<exists>cm2. find_cm (content (st_api s2)) (ss_Namespace ss) (WakeConfigMapName (ss_Name ss)) = Some cm2
             \<and> (if x \<le> later then ws' = no_wake \<and> map_of (cm_Data cm2) WakeKey = None
                else ws' = \<lparr>ws_ActiveCount = 1, ws_Earliest = x\<rparr> \<and> cm_Data cm2 = cm_Data cm1))))"
proof -
  let ?def = "fst (temporaryWakeBounds ss)" and ?max = "snd (temporaryWakeBounds ss)"
  let ?find = "\<lambda>s. find_cm (content (st_api s)) (ss_Namespace ss) (WakeConfigMapName (ss_Name ss))"
  obtain cm1 where cm1: "?find s1 = Some cm1" "wake_spec (cm_Data cm) now ?def ?max = (ws, cm_Data cm1)"
    by (rule processWake_spec [OF assms(1-3)])
  have "now < ws_Earliest ws \<and> (0 < ?max \<longrightarrow> ws_Earliest ws \<le> now + ?max)"
    by (rule wake_spec_active [OF cm1(2) assms(4)]) (simp add: Resolve_wake_capped)
  moreover obtain x where x: "x \<le> ws_Earliest ws" "ws_Earliest ws < x + d_Second"
    and again: "\<And>later. now \<le> later \<Longrightarrow> wake_spec (cm_Data cm1) later ?def ?max =
        (if x \<le> later then (no_wake, map_del WakeKey (cm_Data cm1))
         else (\<lparr>ws_ActiveCount = 1, ws_Earliest = x\<rparr>, cm_Data cm1))"
    using wake_spec_again [OF cm1(2) assms(4,5)] by blast
  moreover have "\<exists>cm2. ?find s2 = Some cm2
      \<and> (if x \<le> later then ws' = no_wake \<and> map_of (cm_Data cm2) WakeKey = None
         else ws' = \<lparr>ws_ActiveCount = 1, ws_Earliest = x\<rparr> \<and> cm_Data cm2 = cm_Data cm1)"
    if t: "now \<le> later" "?find t = Some c" "cm_Data c = cm_Data cm1"
      "processWakeEntries r ctx ss later t = (Inr ws', s2)" for later t c ws' s2
  proof -
    obtain cm2 where "?find s2 = Some cm2" "wake_spec (cm_Data c) later ?def ?max = (ws', cm_Data cm2)"
      by (rule processWake_spec [OF assms(1) t(2,4)])
    with again [OF t(1)] t(3) show ?thesis
      by (intro exI [of _ cm2]) (auto split: if_splits dest!: arg_cong [of _ _ "\<lambda>d. map_of d WakeKey"])
  qed
  ultimately show ?thesis using cm1(1) by blast
qed


text \<open>A reconciler on the in-memory API, and a wake ConfigMap with a relative value.\<close>

definition mem_reconciler :: "mem reconciler" where
  "mem_reconciler = \<lparr>rc_Client = mem_client, rc_OperatorNamespace = ''nyx-system'', rc_Recorder = True,
     rc_Now = None, rc_ErrorText = (\<lambda>_. ''error'')\<rparr>"

definition wake_cm :: "string \<Rightarrow> config_map" where
  "wake_cm v = \<lparr>cm_Name = ''office-wake'', cm_Namespace = ''team-a'', cm_Labels = [], cm_Owner = None,
     cm_Data = [(''wake'', v)], cm_Version = 3\<rparr>"

definition wake_mem :: "string \<Rightarrow> mem" where
  "wake_mem v = (demo_mem [])\<lparr>mm_schedules := [office_hours], mm_cms := [wake_cm v], mm_version := 3\<rparr>"

lemma mem_reconciler_laws: "kube_laws (rc_Client mem_reconciler) mem_content"
  by (simp add: mem_reconciler_def mem_kube_laws)

text \<open>A pass at midnight stamps \<open>+5m\<close>; passes at four and at six minutes past read that one instant.\<close>

theorem override_lifecycle_witness:
  "\<exists>x cm2 cm3. x \<le> 5 * d_Minute \<and> 5 * d_Minute < x + d_Second
     \<and> find_cm (mem_content (st_api (snd (processWakeEntries mem_reconciler None office_hours (4 * d_Minute)
          (snd (processWakeEntries mem_reconciler None office_hours 0 (mem_state (wake_mem ''+5m''))))))))
        ''team-a'' ''office-wake'' = Some cm2
     \<and> fst (processWakeEntries mem_reconciler None office_hours (4 * d_Minute)
          (snd (processWakeEntries mem_reconciler None office_hours 0 (mem_state (wake_mem ''+5m'')))))
        = Inr \<lparr>ws_ActiveCount = 1, ws_Earliest = x\<rparr>
     \<and> map_of (cm_Data cm2) WakeKey = Some ''1970-01-01T00:05:00Z''
     \<and> find_cm (mem_content (st_api (snd (processWakeEntries mem_reconciler None office_hours (6 * d_Minute)
          (snd (processWakeEntries mem_reconciler None office_hours 0 (mem_state (wake_mem ''+5m''))))))))
        ''team-a'' ''office-wake'' = Some cm3
     \<and> map_of (cm_Data cm3) WakeKey = None"
proof -
  let ?s = "mem_state (wake_mem ''+5m'')" and ?f = "\<lambda>s. find_cm (mem_content (st_api s)) ''team-a'' ''office-wake''"
  let ?p = "processWakeEntries mem_reconciler None office_hours 0 ?s"
  let ?q = "\<lambda>m. processWakeEntries mem_reconciler None office_hours m (snd ?p)"
  let ?ws = "\<lparr>ws_ActiveCount = 1, ws_Earliest = 5 * d_Minute\<rparr>"
  have n: "ss_Namespace office_hours = ''team-a''" "WakeConfigMapName (ss_Name office_hours) = ''office-wake''"
    by code_simp+
  have cm: "?f ?s = Some (wake_cm ''+5m'')" by code_simp
  have p: "fst ?p = Inr ?ws" and q: "isl (fst (?q (4 * d_Minute))) = False" "isl (fst (?q (6 * d_Minute))) = False"
    by code_simp+
  have data: "map_option (\<lambda>cm. map_of (cm_Data cm) WakeKey) (?f (snd ?p)) = Some (Some ''1970-01-01T00:05:00Z'')"
    by code_simp
  have pr: "printable (ws_Earliest ?ws)" unfolding printable_def by code_simp
  have act: "ws_ActiveCount ?ws \<noteq> 0" by simp
  from override_lifecycle [OF mem_reconciler_laws cm [folded n] result_split [OF p] act pr, unfolded n]
  obtain x cm1 where x: "x \<le> 5 * d_Minute" "5 * d_Minute < x + d_Second" and cm1: "?f (snd ?p) = Some cm1"
    and later: "\<And>later t c ws' s2. 0 \<le> later \<and> ?f t = Some c \<and> cm_Data c = cm_Data cm1
        \<and> processWakeEntries mem_reconciler None office_hours later t = (Inr ws', s2) \<Longrightarrow>
      \<exists>cm2. ?f s2 = Some cm2 \<and> (if x \<le> later then ws' = no_wake \<and> map_of (cm_Data cm2) WakeKey = None
           else ws' = \<lparr>ws_ActiveCount = 1, ws_Earliest = x\<rparr> \<and> cm_Data cm2 = cm_Data cm1)"
    by auto
  have pass: "\<exists>ws'. fst (?q m) = Inr ws' \<and> (\<exists>cm2. ?f (snd (?q m)) = Some cm2 \<and>
      (if x \<le> m then ws' = no_wake \<and> map_of (cm_Data cm2) WakeKey = None
       else ws' = \<lparr>ws_ActiveCount = 1, ws_Earliest = x\<rparr> \<and> cm_Data cm2 = cm_Data cm1))"
    if "isl (fst (?q m)) = False" "0 \<le> m" for m
    using that later [of m "snd ?p" cm1 "projr (fst (?q m))" "snd (?q m)"] cm1 by (cases "?q m"; cases "fst (?q m)") auto
  have "map_of (cm_Data cm1) WakeKey = Some ''1970-01-01T00:05:00Z''" using data cm1 by simp
  moreover have "\<not> x \<le> 4 * d_Minute" "x \<le> 6 * d_Minute" using x by simp_all
  ultimately have four: "\<exists>cm2. ?f (snd (?q (4 * d_Minute))) = Some cm2
      \<and> fst (?q (4 * d_Minute)) = Inr \<lparr>ws_ActiveCount = 1, ws_Earliest = x\<rparr>
      \<and> map_of (cm_Data cm2) WakeKey = Some ''1970-01-01T00:05:00Z''"
    and six: "\<exists>cm3. ?f (snd (?q (6 * d_Minute))) = Some cm3 \<and> map_of (cm_Data cm3) WakeKey = None"
    using pass [OF q(1)] pass [OF q(2)] by auto
  then show ?thesis using x by blast
qed

text \<open>
  C40: Create-only: ensuring the wake ConfigMap never changes one that exists (it may hold the value a
  trigger wrote); where there is none it creates an empty one for the schedule or, like every failure,
  changes nothing.
\<close>

theorem ensureWakeConfigMap_create_only:
  assumes "kube_laws (rc_Client r) content" and "owner_law (rc_Client r)"
    and "ensureWakeConfigMap r ss s = (out, s')"
  shows "content (st_api s') = content (st_api s)
    \<or> find_cm (content (st_api s)) (ss_Namespace ss) (WakeConfigMapName (ss_Name ss)) = None
      \<and> (\<exists>cm. content (st_api s') = put_cm cm (content (st_api s)) \<and> cm_Data cm = []
           \<and> cm_Namespace cm = ss_Namespace ss \<and> cm_Name cm = WakeConfigMapName (ss_Name ss) \<and> out = Inr ())"
proof -
  let ?cl = "content (st_api s)"
  have "csp content (ensureWakeConfigMap r ss) ?cl (\<lambda>out cl'. cl' = ?cl
    \<or> find_cm ?cl (ss_Namespace ss) (WakeConfigMapName (ss_Name ss)) = None
      \<and> (\<exists>cm. cl' = put_cm cm ?cl \<and> cm_Data cm = []
           \<and> cm_Namespace cm = ss_Namespace ss \<and> cm_Name cm = WakeConfigMapName (ss_Name ss) \<and> out = Inr ()))"
    by (rule csp_ensure [OF assms(1,2)]; (rule disjI1, rule refl)?)
      (rule disjI2, rule conjI, assumption, rule exI, rule conjI, rule refl, simp add: new_wake_config_map_def)
  from cspD [OF this assms(3)] show ?thesis .
qed

lemma mem_owner_law: "owner_law (rc_Client mem_reconciler)"
  by (auto simp: owner_law_def mem_reconciler_def mem_client_def)

theorem ensureWakeConfigMap_create_only_witness:
  "mem_content (st_api (snd (ensureWakeConfigMap mem_reconciler office_hours (mem_state (wake_mem ''+5m'')))))
     = mem_content (wake_mem ''+5m'')"
proof -
  let ?s = "mem_state (wake_mem ''+5m'')"
  have "find_cm (mem_content (st_api ?s)) (ss_Namespace office_hours) (WakeConfigMapName (ss_Name office_hours)) \<noteq> None"
    by code_simp
  moreover have "st_api ?s = wake_mem ''+5m''" by (simp add: mem_state_def)
  ultimately show ?thesis
    using ensureWakeConfigMap_create_only [OF mem_reconciler_laws mem_owner_law prod.collapse [symmetric]]
    by metis
qed

end
