(* ===== verification/Reconcile_Correct.thy ===== *)
theory Reconcile_Correct
  imports Wake_Pass
begin

text \<open>
  The reconcile pass as a whole: what it may change, what its success means for the status and for
  the workloads, and the recovery promise for sequences of passes.
\<close>

section \<open>Rules for the parts of a pass\<close>

text \<open>Every stored object has a name that Kubernetes allows.\<close>

definition dns_cluster :: "cluster \<Rightarrow> bool" where
  "dns_cluster cl \<longleftrightarrow> (\<forall>k x. cl_obj cl k = Some x \<longrightarrow> dns_ref (ref_of x))"

lemma csp_Resolve:
  fixes r :: "'w resolver"
  assumes laws: "kube_laws (rv_Client r) content" and reg: "resolver_registry r = Default_registry"
    and wf: "cluster_wf cl" and "\<And>e. P (Inl e) cl"
    and "\<And>refs unh. set refs = {ref \<in> stored_refs cl (\<lambda>x. kind_of x \<in> set supported_kinds
        \<and> (sp_Kinds spec = [] \<or> kind_of x \<in> set (sp_Kinds spec)) \<and> in_target (rv_Client r) (sp_Target spec) x).
        \<not> isExcluded (excludeSet (sp_ExcludeRefs spec)) ref} \<Longrightarrow> P (Inr (refs, unh)) cl"
  shows "csp content (Resolve r spec) cl P"
proof -
  have kinds: "k \<in> set (requestedKinds (sp_Kinds spec) (Default_registry :: 'w registry)) \<inter> set supported_kinds
      \<longleftrightarrow> k \<in> set supported_kinds \<and> (sp_Kinds spec = [] \<or> k \<in> set (sp_Kinds spec))" for k
    by (auto simp: requestedKinds_Default)
  show ?thesis unfolding Resolve_def reg Let_def
    by (rule csp_bind, rule csp_resolve_kinds [OF laws wf]; unfold sum.case prod.case;
        (rule csp_return)?; rule assms(4,5); simp only: set_sort kinds list.set Un_empty_left conj_assoc)
qed

lemma csp_report: "P (Inr ()) cl \<Longrightarrow> csp content (report_unhandled r ss kinds) cl P"
  by (induction kinds) (auto intro!: csp_rules)

lemma csp_write_status:
  assumes laws: "kube_laws (rc_Client r) content"
    and ss: "find_schedule cl (ss_Namespace ss) (ss_Name ss) = Some ss"
    and "\<And>e. P (Inl e) cl" and "P (Inr \<lparr>cr_Requeue = True, cr_RequeueAfter = 0\<rparr>) cl"
    and "\<And>cl'. cl' = cl\<lparr>cl_schedule := (cl_schedule cl)((ss_Namespace ss, ss_Name ss) \<mapsto>
        ss\<lparr>ss_Status := (ss_Status ss)\<lparr>ss_Phase := phase, ss_NextTransition := next, ss_ActiveWakes := n\<rparr>\<rparr>)\<rparr> \<Longrightarrow>
      P (Inr result) cl'"
  shows "csp content (write_status r ss phase next n result) cl P"
  unfolding write_status_def
proof (rule csp_if, goal_cases)
  case 1
  show ?case
    by (rule csp_try, rule csp_write [OF kube_lawsD(2) [OF laws]])
      (use ss assms(3-5) in \<open>auto simp: update_status_effect_def isConflict_def intro!: csp_rules\<close>)
next
  case 2
  then have "ss_Phase (ss_Status ss) = phase" "ss_ActiveWakes (ss_Status ss) = n"
    "ss_NextTransition (ss_Status ss) = next"
    by (auto simp: statusChanged_def split: if_splits option.splits)
  then have "ss\<lparr>ss_Status := (ss_Status ss)\<lparr>ss_Phase := phase, ss_NextTransition := next, ss_ActiveWakes := n\<rparr>\<rparr> = ss"
    by simp
  moreover have "cl\<lparr>cl_schedule := (cl_schedule cl)((ss_Namespace ss, ss_Name ss) \<mapsto> ss)\<rparr> = cl"
    using ss by (simp add: find_schedule_def fun_upd_idem)
  ultimately show ?case using assms(5) [of cl] by (auto intro!: csp_rules)
qed

section \<open>The reading half\<close>

text \<open>What the clock may show, and the override that a pass finds in the cluster.\<close>

definition clock :: "'w reconciler \<Rightarrow> 'w \<Rightarrow> instant" where
  "clock r w = (case rc_Now r of Some f \<Rightarrow> f w | None \<Rightarrow> k_now (rc_Client r) w)"

lemma csp_clock:
  assumes "\<And>now. now \<in> range (clock r) \<Longrightarrow> P (Inr now) cl"
  shows "csp content (reconciler_now r) cl P"
  unfolding csp_def wp_def reconciler_now_def using assms
  by (auto simp: clock_def split: option.splits)

definition wake_data :: "cluster \<Rightarrow> sleep_schedule \<Rightarrow> string gomap" where
  "wake_data cl ss = (case find_cm cl (ss_Namespace ss) (WakeConfigMapName (ss_Name ss)) of
     None \<Rightarrow> [] | Some cm \<Rightarrow> cm_Data cm)"

definition wake_of :: "cluster \<Rightarrow> sleep_schedule \<Rightarrow> instant \<Rightarrow> wake_state" where
  "wake_of cl ss now = fst (wake_spec (wake_data cl ss) now (fst (temporaryWakeBounds ss)) (snd (temporaryWakeBounds ss)))"

lemma wake_done_of: "wake_done ss now cl (Inr ws) cl' \<Longrightarrow> ws = wake_of cl ss now"
  by (auto simp: wake_done_def wake_of_def wake_data_def wake_spec_def split: option.splits prod.splits)

definition read_result ::
  "'w reconciler \<Rightarrow> string \<Rightarrow> string \<Rightarrow> (cluster \<Rightarrow> bool) \<Rightarrow> cluster
   \<Rightarrow> go_error + (sleep_schedule \<times> instant \<times> wake_state) option \<Rightarrow> cluster \<Rightarrow> bool"
where
  "read_result r ns n Q cl out cl' \<longleftrightarrow>
     Q cl' \<and> cl_schedule cl' = cl_schedule cl \<and> cl_obj cl' = cl_obj cl \<and> cl_secret cl' = cl_secret cl
     \<and> (\<forall>ss now ws. out = Inr (Some (ss, now, ws)) \<longrightarrow>
          find_schedule cl ns n = Some ss \<and> ss_Namespace ss = ns \<and> ss_Name ss = n
          \<and> now \<in> range (clock r) \<and> ws = wake_of cl ss now)
     \<and> (out = Inr None \<longrightarrow> find_schedule cl ns n = None)"

lemma csp_read:
  assumes laws: "kube_laws (rc_Client r) content" and own: "owner_law (rc_Client r)"
    and wf: "cluster_wf cl" and "Q cl"
    and cm: "\<And>cl cm. Q cl \<Longrightarrow> cm_Namespace cm = ns \<Longrightarrow> cm_Name cm = WakeConfigMapName n \<Longrightarrow> Q (put_cm cm cl)"
  shows "csp content (reconcile_read r ctx ns n) cl (read_result r ns n Q cl)"
  unfolding reconcile_read_def
proof (rule csp_try, rule csp_get [OF kube_lawsD(1) [OF laws]], goal_cases)
  case (1 e)
  then show ?case using \<open>Q cl\<close> by (auto simp: read_result_def isNotFound_def intro!: csp_rules)
next
  case (2 ss)
  have ss: "ss_Namespace ss = ns" "ss_Name ss = n"
    using wf 2 by (auto simp: cluster_wf_def find_schedule_def)
  define I where "I cl' \<longleftrightarrow> Q cl' \<and> cl_schedule cl' = cl_schedule cl \<and> cl_obj cl' = cl_obj cl
      \<and> cl_secret cl' = cl_secret cl" for cl'
  have I: "I cl" using \<open>Q cl\<close> by (simp add: I_def)
  have put: "I (put_cm cm cl')" if "I cl'" "cm_Namespace cm = ns" "cm_Name cm = WakeConfigMapName n" for cl' cm
    using that assms(5) by (auto simp: I_def put_cm_def)
  have wake: "csp content (processWakeEntries r ctx ss now) cl'
      (\<lambda>out cl''. I cl'' \<and> (\<forall>ws. out = Inr ws \<longrightarrow> ws = wake_of cl' ss now))"
    if "I cl'" "cluster_wf cl'" for cl' now
  proof (rule csp_mono [OF csp_processWake [OF laws that(2)]])
    fix out cl'' assume d: "wake_done ss now cl' out cl''"
    have "I cl''"
    proof (cases "cl'' = cl'")
      case False
      with d obtain cm v data where "find_cm cl' ns (WakeConfigMapName n) = Some cm"
        "cl'' = put_cm (cm\<lparr>cm_Data := data, cm_Version := v\<rparr>) cl'"
        by (auto simp: wake_done_def cm_data_upd_def ss split: sum.splits option.splits prod.splits)
      moreover from this(1) that(2) have "cm_Namespace cm = ns" "cm_Name cm = WakeConfigMapName n"
        by (auto simp: cluster_wf_def find_cm_def)
      ultimately show ?thesis using put [OF that(1)] by simp
    qed (use that in simp)
    with d wake_done_of show "I cl'' \<and> (\<forall>ws. out = Inr ws \<longrightarrow> ws = wake_of cl' ss now)" by blast
  qed
  have rest: "csp content (bind_p (reconciler_now r) (\<lambda>now. bind_p (processWakeEntries r ctx ss now) (\<lambda>ws.
      return_p (Some (ss, now, ws))))) cl' (read_result r ns n Q cl)"
    if "I cl'" "wake_data cl' ss = wake_data cl ss" "cluster_wf cl'" for cl'
  proof (rule csp_bind, rule csp_clock, unfold sum.case, rule csp_bind, rule csp_mono, rule wake [OF that(1,3)])
    fix r' :: "go_error + wake_state" and cl'' now
    assume now: "now \<in> range (clock r)" and w: "I cl'' \<and> (\<forall>ws. r' = Inr ws \<longrightarrow> ws = wake_of cl' ss now)"
    have "wake_of cl' ss now = wake_of cl ss now" using that(2) by (simp add: wake_of_def)
    with now w show "case r' of Inl e \<Rightarrow> read_result r ns n Q cl (Inl e) cl''
        | Inr ws \<Rightarrow> csp content (return_p (Some (ss, now, ws))) cl'' (read_result r ns n Q cl)"
      using 2 ss by (cases r') (auto intro!: csp_rules simp: I_def read_result_def)
  qed
  show ?case unfolding sum.case
  proof (rule csp_bind, rule csp_wf [OF laws], rule csp_ensure [OF laws own], goal_cases)
    case (1 e) then show ?case using I by (simp add: I_def read_result_def)
  next
    case 2 then show ?case using rest [OF I] by simp
  next
    case (3 o' v)
    let ?cm = "(new_wake_config_map ss)\<lparr>cm_Owner := o', cm_Version := v\<rparr>"
    have "I (put_cm ?cm cl)"
      by (rule put [OF I]) (simp_all add: new_wake_config_map_def ss)
    moreover have "wake_data (put_cm ?cm cl) ss = wake_data cl ss"
      using 3 by (simp add: wake_data_def find_cm_def put_cm_def new_wake_config_map_def)
    ultimately show ?case using rest by simp
  qed
qed


section \<open>The acting half\<close>

definition wanted :: "'w kube \<Rightarrow> sleep_schedule_spec \<Rightarrow> kobj \<Rightarrow> bool" where
  "wanted c spec x \<longleftrightarrow> kind_of x \<in> set supported_kinds
     \<and> (sp_Kinds spec = [] \<or> kind_of x \<in> set (sp_Kinds spec))
     \<and> in_target c (sp_Target spec) x \<and> \<not> isExcluded (excludeSet (sp_ExcludeRefs spec)) (ref_of x)"

lemma wanted_cong:
  "kind_of y = kind_of x \<Longrightarrow> meta_of y = meta_of x \<Longrightarrow> wanted c spec y = wanted c spec x"
  by (simp add: wanted_def in_target_def ref_of_def)

lemma dns_clusterD: "dns_cluster cl \<Longrightarrow> cl_obj cl k = Some x \<Longrightarrow> dns_ref (ref_of x)"
  unfolding dns_cluster_def by blast

lemma targets_dns:
  assumes "dns_cluster cl" and "set refs \<subseteq> stored_refs cl P"
  shows "\<forall>ref \<in> set refs. dns_ref ref"
proof
  fix ref assume "ref \<in> set refs"
  then have "ref \<in> stored_refs cl P" using assms(2) by blast
  then obtain y where "cl_obj cl (key_of y) = Some y" "ref = ref_of y" by (auto simp: stored_refs_def)
  then show "dns_ref ref" using dns_clusterD [OF assms(1)] by simp
qed

text \<open>A pass over well-named refs keeps the names well-formed and the schedules as they are.\<close>

lemma apply_keeps_names:
  fixes sl :: "'w sleeper"
  assumes laws: "kube_laws (sl_Client sl) content" and st: "sr_Client (sl_Store sl) = sl_Client sl"
    and "\<forall>ref \<in> set refs. dns_ref ref" and "dns_cluster cl" and "cluster_wf cl"
  shows "csp content (apply_refs sl Default_registry ctx sch asleep refs) cl
    (\<lambda>_ cl'. dns_cluster cl' \<and> cl_schedule cl' = cl_schedule cl \<and> cl_cm cl' = cl_cm cl)"
proof (rule apply_refs_inv [OF laws, where Q = "\<lambda>cl'. dns_cluster cl' \<and> cl_schedule cl' = cl_schedule cl
    \<and> cl_cm cl' = cl_cm cl"], goal_cases)
  case (1 ref h cl2)
  let ?Q = "\<lambda>cl'. dns_cluster cl' \<and> cl_schedule cl' = cl_schedule cl \<and> cl_cm cl' = cl_cm cl"
  from Default_registry_Get [OF 1(2)] have hm: "h \<in> set default_handlers" "wr_Kind ref = h_Kind h" by auto
  have "dns_ref (ref_of y)" if "key_of y = ref_key ref" for y
    using that assms(3) 1(1) by (cases ref) (auto simp: ref_key_def key_of_def ref_of_def)
  then have "frame (sl_Store sl) sch ref ?Q"
    by (auto simp: frame_def entry_upd_def dns_cluster_def put_obj_at split: if_splits)
  from handler_frame [of "sl_Store sl", unfolded st, OF laws hm this 1(3,4)]
  show ?case by (cases asleep) simp_all
qed (use assms(4,5) in simp_all)

text \<open>
  What a pass keeps for one workload \<open>x\<close>, slept or not, and what its success says: the status that is
  stored, and for an awake phase that \<open>x\<close> is restored.
\<close>

definition status_is :: "cluster \<Rightarrow> sleep_schedule \<Rightarrow> string \<Rightarrow> instant option \<Rightarrow> int32 \<Rightarrow> bool" where
  "status_is cl ss phase next n \<longleftrightarrow> find_schedule cl (ss_Namespace ss) (ss_Name ss) =
     Some (ss\<lparr>ss_Status := (ss_Status ss)\<lparr>ss_Phase := phase, ss_NextTransition := next, ss_ActiveWakes := n\<rparr>\<rparr>)"

definition pass_result ::
  "'w reconciler \<Rightarrow> sleep_schedule \<Rightarrow> kobj \<Rightarrow> cluster \<Rightarrow> eval_result \<Rightarrow> wake_state \<Rightarrow> instant
   \<Rightarrow> go_error + ctrl_result \<Rightarrow> cluster \<Rightarrow> bool"
where
  "pass_result r ss x cl res ws now out cl' \<longleftrightarrow>
     dns_cluster cl' \<and> safe_cl (reconcile_store r) ss x cl'
     \<and> (\<exists>t. find_schedule cl' (ss_Namespace ss) (ss_Name ss) = Some t \<and> ss_Spec t = ss_Spec ss)
     \<and> (\<forall>cr. out = Inr cr \<and> \<not> cr_Requeue cr \<longrightarrow>
          status_is cl' ss (effective_phase res (0 < ws_ActiveCount ws)) (next_status res) (of_nat (ws_ActiveCount ws))
          \<and> cr_RequeueAfter cr = requeueDelay now (er_NextTransition res) (ws_Earliest ws)
          \<and> (er_Awake res \<or> 0 < ws_ActiveCount ws \<longrightarrow> wanted (rc_Client r) (ss_Spec ss) x \<longrightarrow>
               restored_cl (reconcile_store r) ss x cl'))"

lemma wanted_refs:
  "{ref \<in> stored_refs cl (\<lambda>x. kind_of x \<in> set supported_kinds
      \<and> (sp_Kinds spec = [] \<or> kind_of x \<in> set (sp_Kinds spec)) \<and> in_target c (sp_Target spec) x).
     \<not> isExcluded (excludeSet (sp_ExcludeRefs spec)) ref} = stored_refs cl (wanted c spec)"
  by (auto simp: stored_refs_def wanted_def)

abbreviation put_status :: "sleep_schedule \<Rightarrow> string \<Rightarrow> instant option \<Rightarrow> int32 \<Rightarrow> cluster \<Rightarrow> cluster" where
  "put_status ss phase next n cl \<equiv> cl\<lparr>cl_schedule := (cl_schedule cl)((ss_Namespace ss, ss_Name ss) \<mapsto>
     ss\<lparr>ss_Status := (ss_Status ss)\<lparr>ss_Phase := phase, ss_NextTransition := next, ss_ActiveWakes := n\<rparr>\<rparr>)\<rparr>"

text \<open>The acting half, over any account \<open>M\<close> of what its \<open>Apply\<close> does.\<close>

lemma csp_reconcile_apply:
  fixes r :: "'w reconciler"
  assumes laws: "kube_laws (rc_Client r) content" and wf: "cluster_wf cl"
    and ss: "find_schedule cl (ss_Namespace ss) (ss_Name ss) = Some ss"
    and M: "\<And>refs asleep forced. set refs = stored_refs cl (wanted (rc_Client r) (ss_Spec ss)) \<Longrightarrow>
      forced = (0 < ws_ActiveCount ws) \<Longrightarrow> asleep = (\<not> er_Awake res \<and> \<not> forced) \<Longrightarrow>
      csp content (Apply (reconcile_sleeper r asleep forced) ctx ss asleep refs) cl (M refs)"
    and keeps: "\<And>refs out cl'. M refs out cl' \<Longrightarrow> cl_schedule cl' = cl_schedule cl"
    and "\<And>e. P (Inl e) cl" and "\<And>refs out e cl'. M refs out cl' \<Longrightarrow> P (Inl e) cl'"
    and "\<And>refs cl'. M refs (Inr ()) cl' \<Longrightarrow> P (Inr \<lparr>cr_Requeue = True, cr_RequeueAfter = 0\<rparr>) cl'"
    and "\<And>refs cl'. set refs = stored_refs cl (wanted (rc_Client r) (ss_Spec ss)) \<Longrightarrow> M refs (Inr ()) cl' \<Longrightarrow>
      P (Inr \<lparr>cr_Requeue = False, cr_RequeueAfter = requeueDelay now (er_NextTransition res) (ws_Earliest ws)\<rparr>)
        (put_status ss (effective_phase res (0 < ws_ActiveCount ws)) (next_status res)
          (of_nat (ws_ActiveCount ws)) cl')"
  shows "csp content (reconcile_apply r ctx ss now ws res) cl P"
proof -
  let ?forced = "0 < ws_ActiveCount ws"
  let ?asleep = "\<not> er_Awake res \<and> \<not> ?forced"
  let ?sl = "reconcile_sleeper r ?asleep ?forced"
  let ?store = "write_status r ss (effective_phase res ?forced) (next_status res) (of_nat (ws_ActiveCount ws))
      \<lparr>cr_Requeue = False, cr_RequeueAfter = requeueDelay now (er_NextTransition res) (ws_Earliest ws)\<rparr>"
  have act: "csp content (bind_p (report_unhandled r ss unh) (\<lambda>_.
      bind_p (try_p (Apply ?sl ctx ss ?asleep refs) (\<lambda>applied. case applied of Inr u \<Rightarrow> return_p ()
        | Inl e \<Rightarrow> bind_p (when_p (\<not> ?asleep)
            (with_metrics (metrics_IncRestoreFailure (ss_Namespace ss) (ss_Name ss)))) (\<lambda>_. throw_p e))) (\<lambda>_.
      bind_p (with_metrics (metrics_Set (ss_Namespace ss) (ss_Name ss) ?asleep (length refs)
          (ws_ActiveCount ws) (override_seconds ws now))) (\<lambda>_. ?store)))) cl P"
    if refs: "set refs = stored_refs cl (wanted (rc_Client r) (ss_Spec ss))" for refs unh
  proof (rule csp_bind, rule csp_report, unfold sum.case, rule csp_bind, rule csp_try,
      rule csp_mono [OF M [OF refs refl refl]])
    fix out cl' assume m: "M refs out cl'"
    show "csp content (case out of Inr u \<Rightarrow> return_p ()
        | Inl e \<Rightarrow> bind_p (when_p (\<not> ?asleep)
            (with_metrics (metrics_IncRestoreFailure (ss_Namespace ss) (ss_Name ss)))) (\<lambda>_. throw_p e)) cl'
      (\<lambda>r' cl''. case r' of Inl e \<Rightarrow> P (Inl e) cl''
        | Inr x \<Rightarrow> csp content (bind_p (with_metrics (metrics_Set (ss_Namespace ss) (ss_Name ss) ?asleep
              (length refs) (ws_ActiveCount ws) (override_seconds ws now))) (\<lambda>_. ?store)) cl'' P)"
    proof (cases out)
      case (Inl e)
      show ?thesis unfolding Inl sum.case
        by (rule csp_bind, rule csp_when; (rule csp_push)?; unfold sum.case; rule csp_throw, unfold sum.case,
            rule assms(7) [OF m])
    next
      case (Inr u)
      then have m': "M refs (Inr ()) cl'" using m by simp
      have "csp content ?store cl' P"
        by (rule csp_write_status [OF laws])
          (use m' keeps [OF m'] ss assms(7) [OF m'] assms(8) [OF m'] assms(9) [OF refs m']
            in \<open>simp_all add: find_schedule_def\<close>)
      then show ?thesis unfolding Inr sum.case
        by (intro csp_return csp_bind csp_push) (unfold sum.case, rule csp_bind, rule csp_push, unfold sum.case)
    qed
  qed
  show ?thesis unfolding reconcile_apply_def Let_def
  proof (rule csp_bind, rule csp_Resolve, goal_cases)
    case 1 then show ?case using laws by simp
  next
    case 2 then show ?case by (simp add: resolver_registry_def)
  next
    case 3 then show ?case by (rule wf)
  next
    case (4 e) then show ?case using assms(6) by simp
  next
    case (5 refs unh)
    then have "set refs = stored_refs cl (wanted (rc_Client r) (ss_Spec ss))" by (simp add: wanted_refs)
    from act [OF this] show ?case unfolding sum.case prod.case .
  qed
qed

end
