(* ===== verification/Reconcile_Passes.thy ===== *)
theory Reconcile_Passes
  imports Reconcile_Correct
begin

text \<open>
  What one reconcile pass and sequences of them guarantee: the status tells the truth, a pass stays
  within its schedule's own objects, a dry run touches no workload, and a schedule that is reported
  awake has given back every workload it wants.
\<close>

section \<open>The two halves together\<close>

text \<open>How far a pass came: it stopped before acting, or it acted on what it had read.\<close>

lemma Reconcile_split:
  fixes r :: "'w reconciler"
  assumes laws: "kube_laws (rc_Client r) content" and own: "owner_law (rc_Client r)"
    and Q: "Q (content (st_api s))"
    and cm: "\<And>cl cm. Q cl \<Longrightarrow> cm_Namespace cm = ns \<Longrightarrow> cm_Name cm = WakeConfigMapName n \<Longrightarrow> Q (put_cm cm cl)"
    and run: "Reconcile r ctx ns n s = Some (out, s')"
  obtains (stopped) "Q (content (st_api s'))"
      and "cl_schedule (content (st_api s')) = cl_schedule (content (st_api s))"
      and "cl_obj (content (st_api s')) = cl_obj (content (st_api s))"
      and "cl_secret (content (st_api s')) = cl_secret (content (st_api s))"
      and "\<And>cr. out = Inr cr \<Longrightarrow> cr = no_requeue \<and> find_schedule (content (st_api s)) ns n = None"
    | (acted) ss now ws res s1
    where "find_schedule (content (st_api s)) ns n = Some ss" and "ss_Namespace ss = ns" and "ss_Name ss = n"
      and "now \<in> range (clock r)" and "ws = wake_of (content (st_api s)) ss now"
      and "Evaluate (k_LoadLocation (rc_Client r)) (ss_Spec ss) now = Some (Inr res)"
      and "reconcile_apply r ctx ss now ws res s1 = (out, s')"
      and "Q (content (st_api s1))"
      and "cl_schedule (content (st_api s1)) = cl_schedule (content (st_api s))"
      and "cl_obj (content (st_api s1)) = cl_obj (content (st_api s))"
      and "cl_secret (content (st_api s1)) = cl_secret (content (st_api s))"
proof -
  obtain o1 s1 where o1: "reconcile_read r ctx ns n s = (o1, s1)" by fastforce
  have wf: "cluster_wf (content (st_api s))" using kube_lawsD(19) [OF laws] by simp
  have rd: "read_result r ns n Q (content (st_api s)) o1 (content (st_api s1))"
    by (rule cspD [OF csp_read [OF laws own wf Q cm] o1])
  note same = rd [unfolded read_result_def]
  show thesis
  proof (cases o1)
    case (Inl e)
    with run o1 have "out = Inl e" "s' = s1" by (simp_all add: Reconcile_def)
    with same show thesis by (intro stopped) simp_all
  next
    case (Inr got)
    show thesis
    proof (cases got)
      case None
      with run o1 Inr have "out = Inr no_requeue" "s' = s1" by (simp_all add: Reconcile_def)
      with same None Inr show thesis by (intro stopped) simp_all
    next
      case (Some a)
      obtain ss now ws where a: "a = (ss, now, ws)" by (cases a) auto
      from run o1 Inr Some a consider (ev) e where "out = Inl e" "s' = s1"
        | (act) res where "Evaluate (k_LoadLocation (rc_Client r)) (ss_Spec ss) now = Some (Inr res)"
            "reconcile_apply r ctx ss now ws res s1 = (out, s')"
        by (auto simp: Reconcile_def split: option.splits sum.splits)
      then show thesis
      proof cases
        case ev
        with same show thesis by (intro stopped) simp_all
      next
        case act
        with same Inr Some a show thesis by (intro acted [OF _ _ _ _ _ act]) simp_all
      qed
    qed
  qed
qed

section \<open>The status\<close>

lemma csp_Apply_frame:
  fixes r :: "'w reconciler"
  assumes laws: "kube_laws (rc_Client r) content" and wf: "cluster_wf cl"
    and fr: "\<And>ref. ref \<in> set refs \<Longrightarrow> frame (reconcile_store r) sch ref Q" and "Q cl"
  shows "csp content (Apply (reconcile_sleeper r a f) ctx sch asleep refs) cl (\<lambda>_ cl'. Q cl')"
proof (rule csp_mono [OF cspI])
  fix s :: "'w state" assume s: "content (st_api s) = cl"
  have "Q (content (st_api s'))" if "Apply (reconcile_sleeper r a f) ctx sch asleep refs s = (out, s')" for out s'
    by (rule Apply_frame [OF _ _ _ _ _ that, where Q = Q and content = content])
      (use laws fr \<open>Q cl\<close> s in \<open>simp_all add: reconcile_sleeper_def reconcile_store_def sleeper_registry_def\<close>)
  then show "wp (Apply (reconcile_sleeper r a f) ctx sch asleep refs) (\<lambda>_ s'. Q (content (st_api s'))) s"
    by (auto simp: wp_def split: prod.splits)
qed

lemma Evaluate_phase: "Evaluate L spec now = Some (Inr res) \<Longrightarrow> er_Phase res = phaseFor (er_Awake res)"
  by (auto simp: Evaluate_def Let_def split: option.splits)

text \<open>
  C12: The status tells the truth. A pass over an existing schedule that succeeds stores the phase of the
  evaluated spec at the time of the clock, \<open>WokenByOverride\<close> where only the override in the wake
  ConfigMap keeps the workloads awake, with the evaluated next transition and the number of active
  wakes, leaves the spec alone, and asks for the next pass at the earlier of transition and expiry.
\<close>

theorem status_truthful:
  assumes "kube_laws (rc_Client r) content" and "owner_law (rc_Client r)"
    and "\<forall>w. clock r w = now"
    and "find_schedule (content (st_api s)) ns n = Some ss"
    and "Reconcile r ctx ns n s = Some (Inr cr, s')" and "\<not> cr_Requeue cr"
  shows "\<exists>res. Evaluate (k_LoadLocation (rc_Client r)) (ss_Spec ss) now = Some (Inr res)
    \<and> (let ws = wake_of (content (st_api s)) ss now
       in find_schedule (content (st_api s')) ns n = Some (ss\<lparr>ss_Status := (ss_Status ss)
            \<lparr>ss_Phase := (if er_Awake res then ''Awake''
                          else if 0 < ws_ActiveCount ws then ''WokenByOverride'' else ''Asleep''),
             ss_NextTransition := next_status res, ss_ActiveWakes := of_nat (ws_ActiveCount ws)\<rparr>\<rparr>)
        \<and> cr_RequeueAfter cr = requeueDelay now (er_NextTransition res) (ws_Earliest ws))"
  using assms(1,2) TrueI TrueI assms(5)
proof (cases rule: Reconcile_split [where Q = "\<lambda>_. True"])
  case stopped
  then show ?thesis using assms(4) by auto
next
  case (acted ss' now' ws res s1)
  let ?cl = "content (st_api s)"
  have ss: "ss' = ss" "ss_Namespace ss = ns" "ss_Name ss = n" and now: "now' = now"
    using acted(1-4) assms(3,4) by auto
  have wf: "cluster_wf (content (st_api s1))" using kube_lawsD(19) [OF assms(1)] by simp
  have st: "find_schedule (content (st_api s1)) (ss_Namespace ss) (ss_Name ss) = Some ss"
    using acted(9) assms(4) by (simp add: find_schedule_def ss)
  have "csp content (reconcile_apply r ctx ss now ws res) (content (st_api s1)) (\<lambda>out cl'.
      \<forall>cr. out = Inr cr \<and> \<not> cr_Requeue cr \<longrightarrow> find_schedule cl' ns n = Some (ss\<lparr>ss_Status := (ss_Status ss)
            \<lparr>ss_Phase := effective_phase res (0 < ws_ActiveCount ws),
             ss_NextTransition := next_status res, ss_ActiveWakes := of_nat (ws_ActiveCount ws)\<rparr>\<rparr>)
        \<and> cr_RequeueAfter cr = requeueDelay now (er_NextTransition res) (ws_Earliest ws))"
    by (rule csp_reconcile_apply [OF assms(1) wf st,
          where M = "\<lambda>refs out cl'. cl_schedule cl' = cl_schedule (content (st_api s1))"],
        rule csp_Apply_frame [OF assms(1) wf])
      (auto simp: frame_def entry_upd_def find_schedule_def ss)
  from cspD [OF this acted(7) [unfolded ss(1) now]] assms(6) acted(5,6)
  show ?thesis
    by (auto simp: ss now Let_def effective_phase_def Evaluate_phase phaseFor_def phase_defs intro!: exI [of _ res])
qed

text \<open>A reconciler on the in-memory API whose clock stands still, and a cluster with a schedule.\<close>

definition clocked :: "int \<Rightarrow> mem reconciler" where
  "clocked t = mem_reconciler\<lparr>rc_Now := Some (\<lambda>_. t * d_Second)\<rparr>"

definition idle_mem :: mem where
  "idle_mem = (demo_mem [])\<lparr>mm_schedules := [office_hours]\<rparr>"

definition night :: "((go_error + ctrl_result) \<times> mem state) option" where
  "night = Reconcile (clocked 345600) None ''team-a'' ''office'' (mem_state idle_mem)"

lemma returned:
  "(case p of Some (Inr x, s) \<Rightarrow> P x s | _ \<Rightarrow> False) \<Longrightarrow> \<exists>x s. p = Some (Inr x, s) \<and> P x s"
  by (cases p) (auto split: prod.split_asm sum.split_asm)

lemma night_pass:
  "\<exists>cr s. night = Some (Inr cr, s) \<and> \<not> cr_Requeue cr \<and> cr_RequeueAfter cr = 30600 * d_Second
     \<and> cl_obj (mem_content (st_api s)) (key_of (KDeployment demo_deployment)) =
         Some (KDeployment (demo_deployment\<lparr>dp_Replicas := Some 0\<rparr>))"
proof -
  have "case night of Some (Inr cr, s) \<Rightarrow> \<not> cr_Requeue cr \<and> cr_RequeueAfter cr = 30600 * d_Second
      \<and> cl_obj (mem_content (st_api s)) (key_of (KDeployment demo_deployment)) =
         Some (KDeployment (demo_deployment\<lparr>dp_Replicas := Some 0\<rparr>)) | _ \<Rightarrow> False"
    by code_simp
  from returned [OF this] show ?thesis by blast
qed

lemma clocked_laws:
  "kube_laws (rc_Client (clocked t)) mem_content" "owner_law (rc_Client (clocked t))"
  "\<forall>w. clock (clocked t) w = t * d_Second"
  using mem_owner_law by (simp_all add: clocked_def clock_def mem_reconciler_def mem_kube_laws)

lemma idle_schedule:
  "find_schedule (mem_content (st_api (mem_state idle_mem))) ''team-a'' ''office'' = Some office_hours"
  by code_simp

theorem status_truthful_witness:
  "\<exists>s' res. (\<exists>cr. night = Some (Inr cr, s'))
    \<and> Evaluate (k_LoadLocation (rc_Client (clocked 345600))) (ss_Spec office_hours) (345600 * d_Second) = Some (Inr res)
    \<and> (let ws = wake_of (mem_content (st_api (mem_state idle_mem))) office_hours (345600 * d_Second)
       in find_schedule (mem_content (st_api s')) ''team-a'' ''office'' = Some (office_hours\<lparr>ss_Status :=
            (ss_Status office_hours)
            \<lparr>ss_Phase := (if er_Awake res then ''Awake''
                          else if 0 < ws_ActiveCount ws then ''WokenByOverride'' else ''Asleep''),
             ss_NextTransition := next_status res, ss_ActiveWakes := of_nat (ws_ActiveCount ws)\<rparr>\<rparr>))"
proof -
  from night_pass obtain cr s where n: "night = Some (Inr cr, s)" "\<not> cr_Requeue cr" by blast
  from status_truthful [OF clocked_laws idle_schedule n(1) [unfolded night_def] n(2)] n(1)
  show ?thesis unfolding Let_def by blast
qed

section \<open>What a pass may change\<close>

lemma entry_upd_schedule: "entry_upd st sch key v cl cl' \<Longrightarrow> cl_schedule cl' = cl_schedule cl"
  by (simp add: entry_upd_def)

text \<open>Everything but the schedules: what \<open>cl\<close> may have that \<open>cl0\<close> has not.\<close>

definition kept_to :: "'w reconciler \<Rightarrow> string \<Rightarrow> string \<Rightarrow> cluster \<Rightarrow> cluster \<Rightarrow> bool" where
  "kept_to r ns n cl0 cl \<longleftrightarrow>
      (\<forall>k. cl_obj cl k \<noteq> cl_obj cl0 k \<longrightarrow> (\<exists>ss x. find_schedule cl0 ns n = Some ss \<and> \<not> sp_DryRun (ss_Spec ss)
        \<and> cl_obj cl0 k = Some x \<and> wanted (rc_Client r) (ss_Spec ss) x))
    \<and> (\<forall>sn sec k. secret_entry cl sn sec k \<noteq> secret_entry cl0 sn sec k \<longrightarrow>
        (\<exists>ss. find_schedule cl0 ns n = Some ss \<and> \<not> sp_DryRun (ss_Spec ss)
           \<and> sn = rc_OperatorNamespace r \<and> sec = secretName ss))
    \<and> (\<forall>k. cl_cm cl k \<noteq> cl_cm cl0 k \<longrightarrow> k = (ns, WakeConfigMapName n))"

lemma kept_to_refl: "kept_to r ns n cl cl"
  and kept_to_put_cm: "kept_to r ns n cl0 cl \<Longrightarrow> cm_Namespace cm = ns \<Longrightarrow> cm_Name cm = WakeConfigMapName n \<Longrightarrow>
    kept_to r ns n cl0 (put_cm cm cl)"
  and kept_to_schedule: "kept_to r ns n cl0 (cl\<lparr>cl_schedule := m\<rparr>) = kept_to r ns n cl0 cl"
  by (auto simp: kept_to_def put_cm_def secret_entry_def find_secret_def)

lemma kept_to_secret:
  "kept_to r ns n cl0 cl \<Longrightarrow> secret_entry cl sn sec k \<noteq> secret_entry cl0 sn sec k \<Longrightarrow>
   \<exists>ss. find_schedule cl0 ns n = Some ss \<and> \<not> sp_DryRun (ss_Spec ss)
     \<and> sn = rc_OperatorNamespace r \<and> sec = secretName ss"
  unfolding kept_to_def by blast

lemma kept_to_frame:
  assumes ss: "find_schedule cl0 ns n = Some ss" and y: "cl_obj cl0 (key_of y) = Some y" "wanted (rc_Client r) (ss_Spec ss) y"
  shows "frame (reconcile_store r) ss (ref_of y) (\<lambda>cl. kept_to r ns n cl0 cl \<and> cl_schedule cl = m)"
proof -
  have k: "ref_key (ref_of y) = key_of y" by (simp add: ref_key_def ref_of_def key_of_def)
  have "kept_to r ns n cl0 (put_obj z cl)"
    if "kept_to r ns n cl0 cl" "key_of z = key_of y" "\<not> sp_DryRun (ss_Spec ss)" for cl z
    using that y ss by (auto simp: kept_to_def put_obj_at)
  moreover have "kept_to r ns n cl0 cl'"
    if "kept_to r ns n cl0 cl" "entry_upd (reconcile_store r) ss key v cl cl'" "\<not> sp_DryRun (ss_Spec ss)" for cl cl' key v
  proof -
    from that(2) have e: "cl_obj cl' = cl_obj cl" "cl_cm cl' = cl_cm cl"
      and o': "\<not> (sn = rc_OperatorNamespace r \<and> sec = secretName ss) \<Longrightarrow>
        secret_entry cl' sn sec k = secret_entry cl sn sec k" for sn sec k
      by (auto simp: entry_upd_def reconcile_store_def)
    have "sn = rc_OperatorNamespace r \<and> sec = secretName ss"
      if "secret_entry cl' sn sec k \<noteq> secret_entry cl0 sn sec k" for sn sec k
      using that o' [of sn sec k] kept_to_secret [OF \<open>kept_to r ns n cl0 cl\<close>, of sn sec k] ss by fastforce
    with that(1,3) ss show ?thesis unfolding kept_to_def e by blast
  qed
  ultimately show ?thesis unfolding frame_def k by (auto dest: entry_upd_schedule)
qed

text \<open>
  C13: A pass keeps to its own: it writes only workloads that the stored schedule wants, and none in a
  dry run; of the Secrets only the entries of the schedule's checkpoint Secret; of the ConfigMaps
  only the schedule's wake ConfigMap; of the schedules only its own status, never a spec. This holds
  for every outcome, failures and conflicts included.
\<close>

theorem reconcile_confined:
  assumes "kube_laws (rc_Client r) content" and "owner_law (rc_Client r)"
    and "Reconcile r ctx ns n s = Some (out, s')"
  shows "let cl = content (st_api s); cl' = content (st_api s') in
    (\<forall>k. cl_obj cl' k \<noteq> cl_obj cl k \<longrightarrow> (\<exists>ss x. find_schedule cl ns n = Some ss \<and> \<not> sp_DryRun (ss_Spec ss)
        \<and> cl_obj cl k = Some x \<and> wanted (rc_Client r) (ss_Spec ss) x))
    \<and> (\<forall>sn sec k. secret_entry cl' sn sec k \<noteq> secret_entry cl sn sec k \<longrightarrow>
        (\<exists>ss. find_schedule cl ns n = Some ss \<and> \<not> sp_DryRun (ss_Spec ss)
           \<and> sn = rc_OperatorNamespace r \<and> sec = secretName ss))
    \<and> (\<forall>k. cl_cm cl' k \<noteq> cl_cm cl k \<longrightarrow> k = (ns, WakeConfigMapName n))
    \<and> (\<forall>k. cl_schedule cl' k \<noteq> cl_schedule cl k \<longrightarrow> k = (ns, n)
        \<and> (\<exists>ss st. cl_schedule cl k = Some ss \<and> cl_schedule cl' k = Some (ss\<lparr>ss_Status := st\<rparr>)))"
proof -
  let ?cl = "content (st_api s)" and ?B = "kept_to r ns n (content (st_api s))"
  show ?thesis
  proof (rule Reconcile_split [where Q = ?B, OF assms(1,2) kept_to_refl kept_to_put_cm assms(3)], goal_cases)
    case acted: (5 ss now ws res s1)
    let ?c1 = "content (st_api s1)"
    have wf: "cluster_wf ?c1" using kube_lawsD(19) [OF assms(1)] by simp
    have f: "find_schedule ?c1 (ss_Namespace ss) (ss_Name ss) = Some ss"
      using acted by (simp add: find_schedule_def)
    have ran: "csp content (Apply (reconcile_sleeper r a fo) ctx ss a refs) ?c1
        (\<lambda>_ cl'. ?B cl' \<and> cl_schedule cl' = cl_schedule ?c1)"
      if "set refs = stored_refs ?c1 (wanted (rc_Client r) (ss_Spec ss))" for refs a fo
      by (rule csp_Apply_frame [OF assms(1) wf])
        (use that acted(8,10) kept_to_frame [OF acted(1)] in \<open>auto simp: stored_refs_def\<close>)
    have "csp content (reconcile_apply r ctx ss now ws res) ?c1 (\<lambda>_ cl'. ?B cl'
        \<and> (cl_schedule cl' = cl_schedule ?c1 \<or> (\<exists>st. cl_schedule cl' = (cl_schedule ?c1)((ns, n) \<mapsto> ss\<lparr>ss_Status := st\<rparr>))))"
      by (rule csp_reconcile_apply [OF assms(1) wf f, where M = "\<lambda>_ _ cl'. ?B cl' \<and> cl_schedule cl' = cl_schedule ?c1"],
          rule ran) (use acted(2,3,8) in \<open>auto simp: kept_to_schedule\<close>)
    from cspD [OF this acted(7)] have "?B (content (st_api s'))"
      and "cl_schedule (content (st_api s')) = cl_schedule ?cl
        \<or> (\<exists>st. cl_schedule (content (st_api s')) = (cl_schedule ?cl)((ns, n) \<mapsto> ss\<lparr>ss_Status := st\<rparr>))"
      using acted(9) by simp_all
    then show ?case
      using acted(1) unfolding Let_def kept_to_def by (auto simp: find_schedule_def split: if_splits)
  qed (simp_all add: Let_def kept_to_def)
qed

theorem reconcile_confined_witness:
  "\<exists>out s' ss x. night = Some (out, s')
    \<and> cl_obj (mem_content (st_api s')) (key_of (KDeployment demo_deployment))
        \<noteq> cl_obj (mem_content (st_api (mem_state idle_mem))) (key_of (KDeployment demo_deployment))
    \<and> find_schedule (mem_content (st_api (mem_state idle_mem))) ''team-a'' ''office'' = Some ss
    \<and> cl_obj (mem_content (st_api (mem_state idle_mem))) (key_of (KDeployment demo_deployment)) = Some x
    \<and> wanted (rc_Client (clocked 345600)) (ss_Spec ss) x"
proof -
  from night_pass obtain cr s where n: "night = Some (Inr cr, s)"
    "cl_obj (mem_content (st_api s)) (key_of (KDeployment demo_deployment)) =
       Some (KDeployment (demo_deployment\<lparr>dp_Replicas := Some 0\<rparr>))" by blast
  have "cl_obj (mem_content (st_api (mem_state idle_mem))) (key_of (KDeployment demo_deployment))
      \<noteq> Some (KDeployment (demo_deployment\<lparr>dp_Replicas := Some 0\<rparr>))" by code_simp
  with n(2) have d: "cl_obj (mem_content (st_api s)) (key_of (KDeployment demo_deployment))
      \<noteq> cl_obj (mem_content (st_api (mem_state idle_mem))) (key_of (KDeployment demo_deployment))" by metis
  from reconcile_confined [OF clocked_laws(1,2) n(1) [unfolded night_def], unfolded Let_def,
      THEN conjunct1, rule_format, OF d] d n(1)
  show ?thesis by blast
qed

section \<open>The recovery promise for reconcile passes\<close>

text \<open>
  A workload \<open>x\<close> under the schedule \<open>sch\<close> is safe: names are well-formed, its original is at hand,
  and the stored schedule has the spec of \<open>sch\<close>.
\<close>

definition tracked :: "'w reconciler \<Rightarrow> sleep_schedule \<Rightarrow> kobj \<Rightarrow> cluster \<Rightarrow> bool" where
  "tracked r sch x cl \<longleftrightarrow> dns_cluster cl \<and> safe_cl (reconcile_store r) sch x cl
     \<and> (\<exists>t. find_schedule cl (ss_Namespace sch) (ss_Name sch) = Some t \<and> ss_Spec t = ss_Spec sch)"

lemma doze_cong: "ss_Spec a = ss_Spec b \<Longrightarrow> doze a x = doze b x"
  by (cases x) simp_all

lemma safe_cl_cong:
  assumes "ss_Namespace a = ss_Namespace b" and "ss_Name a = ss_Name b" and "ss_Spec a = ss_Spec b"
  shows "safe_cl st a x cl = safe_cl st b x cl" and "restored_cl st a x cl = restored_cl st b x cl"
  using assms by (simp_all add: safe_cl_def restored_cl_def secretName_def doze_cong [OF assms(3)])

lemma safe_cl_same:
  assumes "cl_obj cl' = cl_obj cl" and "cl_secret cl' = cl_secret cl"
  shows "safe_cl st sch x cl' = safe_cl st sch x cl" and "restored_cl st sch x cl' = restored_cl st sch x cl"
  using assms by (simp_all add: safe_cl_def restored_cl_def secret_entry_def find_secret_def)

text \<open>Asleep or awake, the stored object is still the same workload.\<close>

lemma meta_norm: "kind_of (norm_obj z) = kind_of z" "meta_of (norm_obj z) = meta_of z"
  and meta_doze: "kind_of (doze sch z) = kind_of z" "meta_of (doze sch z) = meta_of z"
  by (cases z; simp)+

lemma safe_obj:
  assumes "safe_cl st sch x cl"
  obtains y where "cl_obj cl (key_of x) = Some y" and "kind_of y = kind_of x" and "meta_of y = meta_of x"
    and "key_of y = key_of x" and "ref_of y = ref_of x"
proof -
  from assms obtain y where y: "cl_obj cl (key_of x) = Some y"
    "norm_obj y = norm_obj x \<or> norm_obj y = norm_obj (doze sch x)"
    by (auto simp: safe_cl_def)
  from y(2) have "kind_of y = kind_of x" "meta_of y = meta_of x"
    by (metis meta_norm(1) meta_doze(1), metis meta_norm(2) meta_doze(2))
  then show thesis using that [OF y(1)] by (simp add: key_of_def ref_of_def)
qed

lemma wanted_is_target:
  assumes "safe_cl st sch x cl" and "wanted c spec x"
  shows "ref_of x \<in> stored_refs cl (wanted c spec)"
proof -
  from assms(1) obtain y where y: "cl_obj cl (key_of x) = Some y" "kind_of y = kind_of x"
    "meta_of y = meta_of x" "key_of y = key_of x" "ref_of y = ref_of x" by (rule safe_obj)
  show ?thesis unfolding stored_refs_def
    by (rule CollectI, rule exI [of _ y]) (use y assms(2) wanted_cong [OF y(2,3), of c spec] in simp)
qed

text \<open>One \<open>Apply\<close> of a pass.\<close>

lemma csp_Apply_tracked:
  fixes r :: "'w reconciler"
  assumes laws: "kube_laws (rc_Client r) content" and dry: "\<not> sp_DryRun (ss_Spec ss)"
    and wf: "cluster_wf cl" and dns: "dns_cluster cl" and x: "obj_wf x"
    and safe: "safe_cl (reconcile_store r) ss x cl" and refs: "set refs \<subseteq> stored_refs cl P"
  shows "csp content (Apply (reconcile_sleeper r a f) ctx ss asleep refs) cl (\<lambda>out cl'.
    dns_cluster cl' \<and> cl_schedule cl' = cl_schedule cl \<and> safe_cl (reconcile_store r) ss x cl'
    \<and> (\<forall>u. out = Inr u \<longrightarrow> \<not> asleep \<longrightarrow> ref_of x \<in> set refs \<longrightarrow> restored_cl (reconcile_store r) ss x cl'))"
proof -
  let ?sl = "reconcile_sleeper r a f"
  have sl: "kube_laws (sl_Client ?sl) content" "sr_Client (sl_Store ?sl) = sl_Client ?sl"
    "sl_Store ?sl = reconcile_store r" "sleeper_registry ?sl = Default_registry"
    using laws by (simp_all add: reconcile_sleeper_def reconcile_store_def sleeper_registry_def)
  from safe obtain y where "cl_obj cl (key_of x) = Some y" "ref_of y = ref_of x" by (rule safe_obj)
  then have xdns: "dns_ref (ref_of x)" using dns_clusterD [OF dns, of "key_of x" y] by simp
  note rdns = targets_dns [OF dns refs]
  show ?thesis unfolding Apply_def sl(4)
    by (rule csp_mono [OF csp_conj [OF apply_keeps_names [OF sl(1,2) rdns dns wf]
          apply_refs_safe [OF sl(1,2) dry x xdns rdns safe [folded sl(3)] wf]]])
      (auto simp: sl(3))
qed

lemma effective_awake:
  assumes "Evaluate L spec now = Some (Inr res)" and "effective_phase res f \<noteq> PhaseAsleep"
  shows "er_Awake res \<or> f"
  using assms Evaluate_phase [OF assms(1)] by (auto simp: effective_phase_def phaseFor_def split: if_splits)

lemma put_status_frame [simp]:
  "cl_obj (put_status ss p nx k cl) = cl_obj cl" "secret_entry (put_status ss p nx k cl) = secret_entry cl"
  by (simp_all add: secret_entry_def find_secret_def fun_eq_iff)

text \<open>What a pass keeps, and what it has done when it succeeds with a phase other than \<open>Asleep\<close>.\<close>

lemma Reconcile_tracked:
  fixes r :: "'w reconciler"
  assumes laws: "kube_laws (rc_Client r) content" and own: "owner_law (rc_Client r)"
    and dry: "\<not> sp_DryRun (ss_Spec sch)" and x: "obj_wf x"
    and tr: "tracked r sch x (content (st_api s))"
    and run: "Reconcile r ctx (ss_Namespace sch) (ss_Name sch) s = Some (out, s')"
  shows "tracked r sch x (content (st_api s'))"
    and "out = Inr cr \<Longrightarrow> \<not> cr_Requeue cr \<Longrightarrow> wanted (rc_Client r) (ss_Spec sch) x \<Longrightarrow>
      find_schedule (content (st_api s')) (ss_Namespace sch) (ss_Name sch) = Some t \<Longrightarrow>
      ss_Phase (ss_Status t) \<noteq> PhaseAsleep \<Longrightarrow> restored_cl (reconcile_store r) sch x (content (st_api s'))"
proof -
  let ?cl = "content (st_api s)" and ?cl' = "content (st_api s')" and ?st = "reconcile_store r"
  let ?done = "\<lambda>out cl'. tracked r sch x cl' \<and> (\<forall>cr t. out = Inr cr \<longrightarrow> \<not> cr_Requeue cr \<longrightarrow>
      wanted (rc_Client r) (ss_Spec sch) x \<longrightarrow>
      find_schedule cl' (ss_Namespace sch) (ss_Name sch) = Some t \<longrightarrow>
      ss_Phase (ss_Status t) \<noteq> PhaseAsleep \<longrightarrow> restored_cl ?st sch x cl')"
  have "?done out ?cl'"
    using laws own TrueI TrueI run
  proof (cases rule: Reconcile_split [where Q = "\<lambda>_. True"])
    case stopped
    have "tracked r sch x ?cl'"
      using tr stopped(2,3) unfolding tracked_def dns_cluster_def safe_cl_same(1) [OF stopped(3,4)]
      by (simp add: find_schedule_def)
    then show ?thesis using stopped(5) tr by (auto simp: tracked_def)
  next
    case (acted ss now ws res s1)
    let ?c1 = "content (st_api s1)"
    have k: "ss_Namespace ss = ss_Namespace sch" "ss_Name ss = ss_Name sch" and spec: "ss_Spec ss = ss_Spec sch"
      using acted(1-3) tr by (auto simp: tracked_def)
    note cong = safe_cl_cong [OF k spec]
    have c1: "dns_cluster ?c1" "safe_cl ?st ss x ?c1"
      using tr acted(10) unfolding tracked_def dns_cluster_def cong safe_cl_same(1) [OF acted(10,11)]
      by simp_all
    have wf: "cluster_wf ?c1" using kube_lawsD(19) [OF laws] by simp
    have f: "find_schedule ?c1 (ss_Namespace ss) (ss_Name ss) = Some ss"
      using acted by (simp add: find_schedule_def)
    have dry': "\<not> sp_DryRun (ss_Spec ss)" using dry spec by simp
    have "csp content (reconcile_apply r ctx ss now ws res) ?c1 ?done"
    proof (rule csp_reconcile_apply [OF laws wf f, where M = "\<lambda>refs out cl'. dns_cluster cl'
          \<and> cl_schedule cl' = cl_schedule ?c1 \<and> safe_cl ?st ss x cl'
          \<and> (\<forall>u. out = Inr u \<longrightarrow> er_Awake res \<or> 0 < ws_ActiveCount ws \<longrightarrow> ref_of x \<in> set refs \<longrightarrow>
               restored_cl ?st ss x cl')"], goal_cases)
      case (1 refs asleep forced)
      then have "set refs \<subseteq> stored_refs ?c1 (wanted (rc_Client r) (ss_Spec ss))" by simp
      from csp_Apply_tracked [OF laws dry' wf c1(1) x c1(2) this] show ?case
        by (rule csp_mono) (use 1 in auto)
    next
      case (2 refs out cl') then show ?case by simp
    next
      case (3 e) then show ?case using c1 f by (auto simp: tracked_def k spec cong)
    next
      case (4 refs out e cl') then show ?case using f by (auto simp: tracked_def k spec cong find_schedule_def)
    next
      case (5 refs cl') then show ?case using f by (auto simp: tracked_def k spec cong find_schedule_def)
    next
      case (6 refs cl')
      have target: "ref_of x \<in> set refs" if "wanted (rc_Client r) (ss_Spec ss) x"
        using wanted_is_target [OF c1(2) that] 6(1) by simp
      have awake: "er_Awake res \<or> 0 < ws_ActiveCount ws"
        if "effective_phase res (0 < ws_ActiveCount ws) \<noteq> PhaseAsleep"
        using effective_awake [OF acted(6) that] .
      let ?c2 = "put_status ss (effective_phase res (0 < ws_ActiveCount ws)) (next_status res)
        (of_nat (ws_ActiveCount ws)) cl'"
      have same: "cl_obj ?c2 = cl_obj cl'" "cl_secret ?c2 = cl_secret cl'" by simp_all
      have stored: "find_schedule ?c2 (ss_Namespace sch) (ss_Name sch) = Some (ss\<lparr>ss_Status := (ss_Status ss)
          \<lparr>ss_Phase := effective_phase res (0 < ws_ActiveCount ws), ss_NextTransition := next_status res,
           ss_ActiveWakes := of_nat (ws_ActiveCount ws)\<rparr>\<rparr>)" by (simp add: find_schedule_def k)
      have "tracked r sch x ?c2"
        unfolding tracked_def safe_cl_same(1) [OF same] stored using 6(2) spec
        by (simp add: dns_cluster_def cong)
      moreover have "restored_cl ?st sch x ?c2"
        if "wanted (rc_Client r) (ss_Spec sch) x" "effective_phase res (0 < ws_ActiveCount ws) \<noteq> PhaseAsleep"
        unfolding safe_cl_same(2) [OF same] cong(2) [symmetric]
        using 6(2) target awake [OF that(2)] that(1) by (simp add: spec)
      ultimately show ?case unfolding stored by simp
    qed
    from cspD [OF this acted(7)] show ?thesis .
  qed
  then show "tracked r sch x (content (st_api s'))"
    and "out = Inr cr \<Longrightarrow> \<not> cr_Requeue cr \<Longrightarrow> wanted (rc_Client r) (ss_Spec sch) x \<Longrightarrow>
      find_schedule (content (st_api s')) (ss_Namespace sch) (ss_Name sch) = Some t \<Longrightarrow>
      ss_Phase (ss_Status t) \<noteq> PhaseAsleep \<Longrightarrow> restored_cl (reconcile_store r) sch x (content (st_api s'))"
    by blast+
qed

text \<open>
  Between passes the clock moves, triggers write wake values and the API's mood changes; workloads,
  Secrets and schedules stay.
\<close>

definition quiet :: "('w \<Rightarrow> cluster) \<Rightarrow> ('w \<Rightarrow> 'w) \<Rightarrow> bool" where
  "quiet content tick \<longleftrightarrow> (\<forall>w. cl_obj (content (tick w)) = cl_obj (content w)
     \<and> cl_secret (content (tick w)) = cl_secret (content w)
     \<and> cl_schedule (content (tick w)) = cl_schedule (content w))"

definition later :: "('w \<Rightarrow> 'w) \<Rightarrow> 'w state \<Rightarrow> 'w state" where
  "later tick s = s\<lparr>st_api := tick (st_api s)\<rparr>"

definition run_reconciles ::
  "'w reconciler \<Rightarrow> string \<Rightarrow> string \<Rightarrow> (ctx \<times> ('w \<Rightarrow> 'w)) list \<Rightarrow> 'w state \<Rightarrow> 'w state"
where
  "run_reconciles r ns n steps s = fold (\<lambda>(ctx, tick) s.
     case Reconcile r ctx ns n (later tick s) of None \<Rightarrow> later tick s | Some (_, s') \<Rightarrow> s') steps s"

type_synonym 'w reconcile_env = "'w reconciler \<times> ('w \<Rightarrow> cluster) \<times> sleep_schedule \<times> kobj"

definition rp_ok :: "'w reconcile_env \<Rightarrow> bool" where
  "rp_ok e = (case e of (r, content, sch, x) \<Rightarrow>
     kube_laws (rc_Client r) content \<and> owner_law (rc_Client r) \<and> \<not> sp_DryRun (ss_Spec sch)
     \<and> obj_wf x \<and> wanted (rc_Client r) (ss_Spec sch) x)"

definition rp_admissible :: "'w reconcile_env \<Rightarrow> ctx \<times> ('w \<Rightarrow> 'w) \<Rightarrow> bool" where
  "rp_admissible e a = (case e of (r, content, sch, x) \<Rightarrow> quiet content (snd a))"

definition rp_awake :: "('w \<Rightarrow> cluster) \<Rightarrow> sleep_schedule \<Rightarrow> go_error + ctrl_result \<Rightarrow> 'w state \<Rightarrow> bool" where
  "rp_awake content sch out s' \<longleftrightarrow> (\<exists>cr t. out = Inr cr \<and> \<not> cr_Requeue cr
     \<and> find_schedule (content (st_api s')) (ss_Namespace sch) (ss_Name sch) = Some t
     \<and> ss_Phase (ss_Status t) \<noteq> PhaseAsleep)"

definition rp_attempt :: "'w reconcile_env \<Rightarrow> ctx \<times> ('w \<Rightarrow> 'w) \<Rightarrow> 'w state \<Rightarrow> bool \<times> 'w state" where
  "rp_attempt e a s = (case e of (r, content, sch, x) \<Rightarrow>
     (case Reconcile r (fst a) (ss_Namespace sch) (ss_Name sch) (later (snd a) s) of
        None \<Rightarrow> (False, later (snd a) s)
      | Some (out, s') \<Rightarrow> (rp_awake content sch out s', s')))"

definition rp_safe :: "'w reconcile_env \<Rightarrow> 'w state \<Rightarrow> bool" where
  "rp_safe e s = (case e of (r, content, sch, x) \<Rightarrow> tracked r sch x (content (st_api s)))"

definition rp_back :: "'w reconcile_env \<Rightarrow> 'w state \<Rightarrow> bool" where
  "rp_back e s = (case e of (r, content, sch, x) \<Rightarrow> restored_cl (reconcile_store r) sch x (content (st_api s)))"

lemmas rp_defs = rp_ok_def rp_admissible_def rp_attempt_def rp_safe_def rp_back_def

lemma tracked_quiet:
  assumes "quiet content tick" and "tracked r sch x (content (st_api s))"
  shows "tracked r sch x (content (st_api (later tick s)))"
proof -
  have same: "cl_obj (content (st_api (later tick s))) = cl_obj (content (st_api s))"
    "cl_secret (content (st_api (later tick s))) = cl_secret (content (st_api s))"
    "cl_schedule (content (st_api (later tick s))) = cl_schedule (content (st_api s))"
    using assms(1) by (simp_all add: quiet_def later_def)
  show ?thesis
    using assms(2) unfolding tracked_def dns_cluster_def safe_cl_same(1) [OF same(1,2)]
    by (simp add: same find_schedule_def)
qed

lemma rp_attempt_tracked:
  assumes "rp_ok (r, content, sch, x)" and "quiet content tick" and "tracked r sch x (content (st_api s))"
    and "rp_attempt (r, content, sch, x) (ctx, tick) s = (b, s')"
  shows "tracked r sch x (content (st_api s'))"
    and "b \<Longrightarrow> restored_cl (reconcile_store r) sch x (content (st_api s'))"
proof -
  note ok = assms(1) [unfolded rp_ok_def prod.case]
  note q = tracked_quiet [OF assms(2,3)]
  have "tracked r sch x (content (st_api s'))
    \<and> (b \<longrightarrow> restored_cl (reconcile_store r) sch x (content (st_api s')))"
  proof (cases "Reconcile r ctx (ss_Namespace sch) (ss_Name sch) (later tick s)")
    case None
    then have "b = False" "s' = later tick s" using assms(4) by (simp_all add: rp_attempt_def)
    with q show ?thesis by simp
  next
    case (Some p)
    then have run: "Reconcile r ctx (ss_Namespace sch) (ss_Name sch) (later tick s) = Some (fst p, s')"
      and b: "b = rp_awake content sch (fst p) s'"
      using assms(4) by (auto simp: rp_attempt_def split: prod.splits)
    from ok have laws: "kube_laws (rc_Client r) content" "owner_law (rc_Client r)"
      "\<not> sp_DryRun (ss_Spec sch)" "obj_wf x" and w: "wanted (rc_Client r) (ss_Spec sch) x" by blast+
    show ?thesis using Reconcile_tracked [OF laws q run] w unfolding b rp_awake_def by blast
  qed
  then show "tracked r sch x (content (st_api s'))"
    and "b \<Longrightarrow> restored_cl (reconcile_store r) sch x (content (st_api s'))" by blast+
qed

interpretation reconciles: recoverable rp_ok rp_admissible rp_attempt "\<lambda>_ _. True" rp_safe rp_back
proof (unfold_locales, goal_cases)
  case (1 e a s b s')
  obtain r content sch x where e: "e = (r, content, sch, x)" by (cases e) auto
  obtain ctx tick where a: "a = (ctx, tick)" by (cases a) auto
  from 1 rp_attempt_tracked(1) show ?case
    unfolding e a rp_safe_def rp_admissible_def prod.case snd_conv by blast
next
  case (2 e a s s')
  obtain r content sch x where e: "e = (r, content, sch, x)" by (cases e) auto
  obtain ctx tick where a: "a = (ctx, tick)" by (cases a) auto
  from 2 rp_attempt_tracked(2) show ?case
    unfolding e a rp_safe_def rp_back_def rp_admissible_def prod.case snd_conv by blast
qed

lemma run_reconciles_attempts:
  "run_reconciles r (ss_Namespace sch) (ss_Name sch) steps s
     = fold (\<lambda>a s. snd (rp_attempt (r, content, sch, x) a s)) steps s"
  unfolding run_reconciles_def
  by (rule fold_cong) (auto simp: rp_attempt_def fun_eq_iff split: option.splits prod.splits)

text \<open>
  C2: A schedule that is reported awake has given everything back. Take a workload that the schedule
  wants, not yet slept, and let any reconcile passes of the schedule run, at any times, under any wake
  overrides and with any API failures. Whenever a pass then succeeds and leaves a phase other than
  \<open>Asleep\<close> in the status, the workload is the original object again and no checkpoint is left.
\<close>

theorem reconcile_restores:
  assumes "kube_laws (rc_Client r) content" and "owner_law (rc_Client r)"
    and "\<not> sp_DryRun (ss_Spec sch)" and "obj_wf x" and "wanted (rc_Client r) (ss_Spec sch) x"
    and "\<forall>(ctx, tick) \<in> set steps. quiet content tick" and "quiet content tick"
    and "dns_cluster (content (st_api s))"
    and "find_schedule (content (st_api s)) (ss_Namespace sch) (ss_Name sch) = Some sch"
    and "cl_obj (content (st_api s)) (key_of x) = Some x"
    and "entry (reconcile_store r) sch (key_for x) (content (st_api s)) = None"
    and "Reconcile r ctx (ss_Namespace sch) (ss_Name sch)
      (later tick (run_reconciles r (ss_Namespace sch) (ss_Name sch) steps s)) = Some (Inr cr, s')"
    and "\<not> cr_Requeue cr"
    and "find_schedule (content (st_api s')) (ss_Namespace sch) (ss_Name sch) = Some t"
    and "ss_Phase (ss_Status t) \<noteq> ''Asleep''"
  shows "\<exists>y. cl_obj (content (st_api s')) (key_of x) = Some y \<and> norm_obj y = norm_obj x
    \<and> entry (reconcile_store r) sch (key_for x) (content (st_api s')) = None"
proof -
  let ?e = "(r, content, sch, x)"
  have "rp_ok ?e" using assms(1-5) by (simp add: rp_ok_def)
  moreover have "rp_safe ?e s" using assms(8-11) by (auto simp: rp_safe_def tracked_def safe_cl_def)
  moreover have "\<forall>a \<in> set steps. rp_admissible ?e a" using assms(6) by (auto simp: rp_admissible_def)
  moreover have "rp_admissible ?e (ctx, tick)" using assms(7) by (simp add: rp_admissible_def)
  moreover have "rp_attempt ?e (ctx, tick) (fold (\<lambda>a s. snd (rp_attempt ?e a s)) steps s) = (True, s')"
    unfolding run_reconciles_attempts [of r sch steps s content x, symmetric]
    using assms(12-15) by (auto simp: rp_attempt_def rp_awake_def phase_defs)
  ultimately have "rp_back ?e s'" using reconciles.run_back [of ?e s steps "(ctx, tick)" s'] by blast
  then show ?thesis by (simp add: rp_back_def restored_cl_def)
qed

text \<open>A night and the next morning, on a cluster whose clock moves between the two passes.\<close>

definition clock_to :: "int \<Rightarrow> mem \<Rightarrow> mem" where
  "clock_to t w = w\<lparr>mm_clock := t * d_Second\<rparr>"

definition after_night :: "mem state" where
  "after_night = run_reconciles mem_reconciler ''team-a'' ''office'' [(None, clock_to 345600)] (mem_state idle_mem)"

definition morning :: "((go_error + ctrl_result) \<times> mem state) option" where
  "morning = Reconcile mem_reconciler None ''team-a'' ''office'' (later (clock_to 378000) after_night)"

lemma quiet_clock: "quiet mem_content (clock_to t)"
  by (simp add: quiet_def clock_to_def mem_content_def)

lemma after_night_asleep:
  "cl_obj (mem_content (st_api after_night)) (key_of (KDeployment demo_deployment)) =
     Some (KDeployment (demo_deployment\<lparr>dp_Replicas := Some 0\<rparr>))"
  by code_simp

lemma morning_pass:
  "\<exists>cr s. morning = Some (Inr cr, s) \<and> \<not> cr_Requeue cr
     \<and> (\<exists>t. find_schedule (mem_content (st_api s)) ''team-a'' ''office'' = Some t
          \<and> ss_Phase (ss_Status t) = ''Awake'')"
proof -
  have "case morning of Some (Inr cr, s) \<Rightarrow> \<not> cr_Requeue cr
      \<and> map_option (\<lambda>t. ss_Phase (ss_Status t)) (find_schedule (mem_content (st_api s)) ''team-a'' ''office'')
          = Some ''Awake'' | _ \<Rightarrow> False"
    by code_simp
  from returned [OF this] show ?thesis by auto
qed

lemma office_wants: "wanted c (ss_Spec office_hours) (KDeployment demo_deployment)"
proof -
  let ?x = "KDeployment demo_deployment"
  have "tg_Mode (sp_Target (ss_Spec office_hours)) = TargetModeNamespaces"
    "om_Namespace (meta_of ?x) \<in> set (tg_Namespaces (sp_Target (ss_Spec office_hours)))"
    "kind_of ?x \<in> set supported_kinds" "sp_Kinds (ss_Spec office_hours) = []"
    "\<not> isExcluded (excludeSet (sp_ExcludeRefs (ss_Spec office_hours))) (ref_of ?x)" by code_simp+
  then show ?thesis unfolding wanted_def in_target_def by blast
qed

text \<open>Every object of the in-memory cluster is one of the list.\<close>

lemma mem_objs_only:
  assumes "cl_obj (mem_content (st_api (mem_state m))) k = Some y"
  shows "y \<in> set (map stored (mm_objs m))"
proof -
  from assms have "first_such (\<lambda>x. key_of x = k) (map stored (mm_objs m)) = Some y"
    by (simp add: mem_content_def mem_state_def obj_at_def)
  from first_such_SomeD [OF this] show ?thesis by blast
qed

lemma idle_dns: "dns_cluster (mem_content (st_api (mem_state idle_mem)))"
proof -
  have "\<forall>y \<in> set (map stored (mm_objs idle_mem)). dns_ref (ref_of y)" by code_simp
  then show ?thesis unfolding dns_cluster_def using mem_objs_only by blast
qed

theorem reconcile_restores_witness:
  "\<exists>cr s' y. morning = Some (Inr cr, s')
    \<and> cl_obj (mem_content (st_api after_night)) (key_of (KDeployment demo_deployment))
        = Some (KDeployment (demo_deployment\<lparr>dp_Replicas := Some 0\<rparr>))
    \<and> cl_obj (mem_content (st_api s')) (key_of (KDeployment demo_deployment)) = Some y
    \<and> norm_obj y = norm_obj (KDeployment demo_deployment)
    \<and> entry (reconcile_store mem_reconciler) office_hours (key_for (KDeployment demo_deployment))
        (mem_content (st_api s')) = None"
proof -
  let ?x = "KDeployment demo_deployment" and ?s = "mem_state idle_mem"
  have n: "ss_Namespace office_hours = ''team-a''" "ss_Name office_hours = ''office''"
    by (simp_all add: office_hours_def)
  have start: "\<not> sp_DryRun (ss_Spec office_hours)" "obj_wf ?x"
    "cl_obj (mem_content (st_api ?s)) (key_of ?x) = Some ?x"
    "entry (reconcile_store mem_reconciler) office_hours (key_for ?x) (mem_content (st_api ?s)) = None"
    by code_simp+
  have steps: "\<forall>(ctx, tick) \<in> set [(None :: ctx, clock_to 345600)]. quiet mem_content tick"
    by (simp add: quiet_clock)
  from morning_pass obtain cr s' t where m: "morning = Some (Inr cr, s')" "\<not> cr_Requeue cr"
    "find_schedule (mem_content (st_api s')) ''team-a'' ''office'' = Some t"
    "ss_Phase (ss_Status t) = ''Awake''" by blast
  have p: "ss_Phase (ss_Status t) \<noteq> ''Asleep''" by (simp add: m(4))
  from reconcile_restores [OF mem_reconciler_laws mem_owner_law start(1,2) office_wants steps quiet_clock idle_dns _
      start(3,4), unfolded n, OF idle_schedule m(1) [unfolded morning_def after_night_def] m(2,3) p]
    m(1) after_night_asleep
  show ?thesis by blast
qed

end
