(* ===== verification/Workload_Sleep.thy ===== *)
theory Workload_Sleep
  imports Workload_Safety
begin

text \<open>
  Sleep takes effect: a sleeping pass that succeeds over a workload that is awake, or already asleep,
  leaves its sleeping form. The guards of \<^theory_text>\<open>Workload_Safety\<close> and a node selector that carries the
  sentinel key already are the exceptions; so is a CronJob, Job or HPA whose sleep was interrupted (the
  entry is there and the object is awake). A Deployment, StatefulSet or DaemonSet in that state is put
  to sleep all the same.
\<close>

section \<open>The sleeping form\<close>

definition slept_obj :: "sleep_schedule \<Rightarrow> kobj \<Rightarrow> cluster \<Rightarrow> bool" where
  "slept_obj sch x cl \<longleftrightarrow> (\<exists>y. cl_obj cl (key_of x) = Some y \<and> norm_obj y = norm_obj (doze sch x))"

text \<open>
  The handlers of these kinds take up an interrupted sleep: an entry found in the store does not make
  them return early.
\<close>

fun resumes :: "kobj \<Rightarrow> bool" where
  "resumes (KDeployment d) \<longleftrightarrow> True"
| "resumes (KStatefulSet a) \<longleftrightarrow> True"
| "resumes (KDaemonSet d) \<longleftrightarrow> True"
| "resumes (KCronJob c) \<longleftrightarrow> False"
| "resumes (KJob j) \<longleftrightarrow> False"
| "resumes (KHPA p) \<longleftrightarrow> False"

text \<open>
  Safe; and where the handler does not take up an interrupted sleep, awake with no entry, or asleep.
\<close>

definition settled :: "'w store \<Rightarrow> sleep_schedule \<Rightarrow> kobj \<Rightarrow> cluster \<Rightarrow> bool" where
  "settled st sch x cl \<longleftrightarrow> safe_cl st sch x cl \<and> (resumes x \<or> entry st sch (key_for x) cl = None \<or> slept_obj sch x cl)"

fun sleepable :: "sleep_schedule \<Rightarrow> kobj \<Rightarrow> bool" where
  "sleepable sch (KDaemonSet d) \<longleftrightarrow> map_of (selector_entries (ds_NodeSelector d)) sentinelKey = None"
| "sleepable sch x \<longleftrightarrow> \<not> guarded sch x"

lemma settled_frame:
  "cl_obj cl' (key_of x) = cl_obj cl (key_of x) \<Longrightarrow>
   entry st sch (key_for x) cl' = entry st sch (key_for x) cl \<Longrightarrow> settled st sch x cl \<Longrightarrow> settled st sch x cl'"
  unfolding settled_def safe_cl_def slept_obj_def by simp

text \<open>A safe workload in its sleeping form is settled, whatever its entry.\<close>

lemma settled_slept: "safe_cl st sch x cl \<Longrightarrow> slept_obj sch x cl \<Longrightarrow> settled st sch x cl"
  by (simp add: settled_def)

section \<open>Each handler\<close>

text \<open>With an entry, the kinds that record JSON do nothing.\<close>

lemma csp_recorded:
  assumes "kube_laws (sr_Client st) content" and "entry st sch key cl = Some v" and "F (Some v) = return_p ()"
  shows "csp content (bind_p (GetRaw st sch key) F) cl (\<lambda>r cl'. cl' = cl)"
  by (rule csp_bind, rule csp_GetRaw [OF assms(1)]) (use assms(2,3) in \<open>auto intro!: csp_rules\<close>)

lemma sleepSuspend_slept:
  assumes laws: "kube_laws (sr_Client st) content" and w: "wraps w sch x y"
    and dry: "\<not> sp_DryRun (ss_Spec sch)" and s: "settled st sch x cl"
    and y: "cl_obj cl (key_of x) = Some y" and nr: "\<not> resumes x"
  shows "csp content (sleepSuspend (sr_Client st) ctx rec st sch (ref_of x) w) cl
    (\<lambda>r cl'. \<forall>u. r = Inr u \<longrightarrow> slept_obj sch x cl')"
proof (cases "entry st sch (key_for x) cl")
  case None
  have x: "\<not> replica_kind x" using w by (simp add: wraps_def)
  show ?thesis
    by (rule csp_mono [OF sleepSuspend_safe [OF laws w dry _ y]])
      (use s None plain_forms(2) [OF x] in \<open>auto simp: settled_def slept_obj_def\<close>)
next
  case (Some v)
  have key: "Key (kind_of x) (om_Namespace (meta_of x)) (om_Name (meta_of x)) (so_uid w) = key_for x"
    using w by (simp add: wraps_def key_for_def)
  have "csp content (sleepSuspend (sr_Client st) ctx rec st sch (ref_of x) w) cl (\<lambda>r cl'. cl' = cl)"
    unfolding sleepSuspend_def ref_of_def wref.simps Let_def key
    by (rule csp_recorded [OF laws Some]) simp
  then show ?thesis by (rule csp_mono) (use s Some nr in \<open>simp add: settled_def\<close>)
qed

lemma cronJob_slept:
  assumes laws: "kube_laws (sr_Client st) content" and dry: "\<not> sp_DryRun (ss_Spec sch)"
    and s: "settled st sch (KCronJob a) cl"
  shows "csp content (cronJob_Sleep (sr_Client st) ctx rec st sch (ref_of (KCronJob a))) cl
    (\<lambda>r cl'. \<forall>u. r = Inr u \<longrightarrow> slept_obj sch (KCronJob a) cl')"
proof -
  have safe: "safe_cl st sch (KCronJob a) cl" using s by (simp add: settled_def)
  obtain a' where y: "cl_obj cl (key_of (KCronJob a)) = Some (KCronJob a')"
    and m: "KCronJob a' \<in> {KCronJob a, doze sch (KCronJob a)}"
    using safe_kindD [OF safe] by auto
  show ?thesis unfolding cronJob_Sleep_def
    by (rule csp_bind, rule csp_loads(1) [OF laws y])
      (use sleepSuspend_slept [OF laws wraps_cron_job [OF m] dry s y] in simp_all)
qed

lemma job_slept:
  assumes laws: "kube_laws (sr_Client st) content" and dry: "\<not> sp_DryRun (ss_Spec sch)"
    and s: "settled st sch (KJob a) cl" and ok: "sleepable sch (KJob a)"
  shows "csp content (job_Sleep (sr_Client st) ctx rec st sch (ref_of (KJob a))) cl
    (\<lambda>r cl'. \<forall>u. r = Inr u \<longrightarrow> slept_obj sch (KJob a) cl')"
proof -
  have safe: "safe_cl st sch (KJob a) cl" using s by (simp add: settled_def)
  obtain a' where y: "cl_obj cl (key_of (KJob a)) = Some (KJob a')"
    and m: "KJob a' \<in> {KJob a, doze sch (KJob a)}"
    using safe_kindD [OF safe] by auto
  have act: "\<not> 0 < sint (jb_Active a')" using m ok by auto
  show ?thesis unfolding job_Sleep_def
    by (rule csp_bind, rule csp_loads(2) [OF laws y])
      (use act sleepSuspend_slept [OF laws wraps_job [OF m] dry s y] in simp_all)
qed

lemma hpa_slept:
  assumes laws: "kube_laws (sr_Client st) content" and dry: "\<not> sp_DryRun (ss_Spec sch)"
    and s: "settled st sch (KHPA a) cl"
  shows "csp content (hpa_Sleep (sr_Client st) ctx rec st sch (ref_of (KHPA a))) cl
    (\<lambda>r cl'. \<forall>u. r = Inr u \<longrightarrow> slept_obj sch (KHPA a) cl')"
proof -
  let ?x = "KHPA a"
  have safe: "safe_cl st sch ?x cl" using s by (simp add: settled_def)
  show ?thesis
  proof (cases "entry st sch (key_for ?x) cl")
    case None
    show ?thesis
      by (rule csp_mono [OF hpa_Sleep_safe [OF laws dry safe]]) (use None in \<open>auto simp: slept_obj_def\<close>)
  next
    case (Some v)
    obtain a' where y: "cl_obj cl (key_of ?x) = Some (KHPA a')" and m: "KHPA a' \<in> {?x, doze sch ?x}"
      using safe_kindD [OF safe] by auto
    have key: "Key (kind_of ?x) (om_Namespace (meta_of ?x)) (om_Name (meta_of ?x)) (om_UID (hp_Meta a')) = key_for ?x"
      using m by (auto simp: key_for_def)
    have slept: "slept_obj sch ?x cl" using s Some by (simp add: settled_def)
    show ?thesis unfolding hpa_Sleep_def
    proof (rule csp_bind, rule csp_loads(4) [OF laws y], goal_cases)
      case (1 e) then show ?case by simp
    next
      case 2
      show ?case unfolding sum.case option.case Let_def ref_of_def wref.simps key
        by (rule csp_mono [OF csp_recorded [OF laws Some]]) (use slept in simp_all)
    qed
  qed
qed

lemma daemonSet_slept:
  assumes laws: "kube_laws (sr_Client st) content" and dry: "\<not> sp_DryRun (ss_Spec sch)"
    and wf: "obj_wf (KDaemonSet a)" and safe: "safe_cl st sch (KDaemonSet a) cl"
    and ok: "sleepable sch (KDaemonSet a)"
  shows "csp content (daemonSet_Sleep (sr_Client st) ctx rec st sch (ref_of (KDaemonSet a))) cl
    (\<lambda>r cl'. \<forall>u. r = Inr u \<longrightarrow> slept_obj sch (KDaemonSet a) cl')"
proof -
  let ?x = "KDaemonSet a"
  let ?P = "\<lambda>r cl'. \<forall>u. r = Inr u \<longrightarrow> slept_obj sch ?x cl'"
  have x: "\<not> replica_kind ?x" by simp
  note ds = stored_daemon_set [OF wf]
  obtain a' where y: "cl_obj cl (key_of ?x) = Some (KDaemonSet a')"
    and m: "KDaemonSet a' \<in> {?x, doze sch ?x}"
    using safe_kindD [OF safe] by auto
  have key: "Key (kind_of ?x) (om_Namespace (meta_of ?x)) (om_Name (meta_of ?x)) (om_UID (ds_Meta a')) = key_for ?x"
    using m by (auto simp: key_for_def)
  show ?thesis unfolding daemonSet_Sleep_def
  proof (rule csp_bind, rule csp_loads(3) [OF laws y], goal_cases)
    case (1 e) then show ?case by simp
  next
    case 2
    show ?case unfolding sum.case option.case
    proof (rule csp_if, goal_cases)
      case 1
      then have "KDaemonSet a' = doze sch ?x" using m ok by auto
      with y have "slept_obj sch ?x cl" by (simp add: slept_obj_def)
      then show ?case by (auto intro!: csp_rules)
    next
      case 2
      then have a': "a' = a" using m sentinel_present [of "ds_NodeSelector a"]
        by (auto simp: selector_entries_def)
      have new: "KDaemonSet (a\<lparr>ds_NodeSelector := Some (sentinel_selector (ds_NodeSelector a))\<rparr>) = doze sch ?x"
        "Marshal_map (ds_NodeSelector a) = enc ?x"
        by simp_all
      have tail: "csp content (bind_p (call (k_patch (sr_Client st) ?x (doze sch ?x))) (\<lambda>_.
          bind_p (emit rec (doze sch ?x) r1 m1) (\<lambda>_.
          Record (sr_Client st) ctx rec sch k1 n1 n2 a1 t1))) cl' ?P"
        if "cl_obj cl' = cl_obj cl" "entry st sch (key_for ?x) cl' = Some (enc ?x)" for cl' r1 m1 k1 n1 n2 a1 t1
        by (rule csp_mono [OF csp_sleep_tail [OF laws x ds(2)]]) (use that y a' in \<open>auto simp: slept_obj_def\<close>)
      show ?case unfolding Let_def if_not_P [OF dry] ref_of_def wref.simps key unfolding a' new
      proof (intro csp_bind [of _ "GetRaw _ _ _"] csp_GetRaw [OF laws], goal_cases)
        case (1 e) then show ?case by simp
      next
        case 2
        show ?case unfolding sum.case
        proof (rule csp_bind, rule csp_if, goal_cases)
          case 1
          then show ?case
            by (intro csp_SetRaw [OF laws]; unfold sum.case; (intro tail)?) (auto simp: entry_updD)
        next
          case 2
          then have "entry st sch (key_for ?x) cl = Some (enc ?x)"
            using safe by (auto simp: safe_plain [OF x])
          then show ?case by (intro csp_rules, unfold sum.case, intro tail) auto
        qed
      qed
    qed
  qed
qed

lemma statefulSet_slept:
  assumes laws: "kube_laws (sr_Client st) content" and dry: "\<not> sp_DryRun (ss_Spec sch)"
    and wf: "cluster_wf cl" and safe: "safe_cl st sch (KStatefulSet a) cl"
    and ok: "sleepable sch (KStatefulSet a)"
  shows "csp content (statefulSet_Sleep (sr_Client st) ctx rec st sch (ref_of (KStatefulSet a))) cl
    (\<lambda>r cl'. \<forall>u. r = Inr u \<longrightarrow> slept_obj sch (KStatefulSet a) cl')"
proof -
  let ?x = "KStatefulSet a"
  have sl: "csp content (sleepReplica loadStatefulSet (sr_Client st) ctx rec st sch (ref_of ?x)) cl
      (\<lambda>r cl'. \<forall>u. r = Inr u \<longrightarrow> slept_obj sch ?x cl')"
    by (rule csp_mono [OF sleepReplica_safe [OF laws _ loads_stateful_set [OF laws] dry wf safe]])
      (auto simp: slept_obj_def replicasOf_def)
  from safe obtain y where y: "cl_obj cl (key_of ?x) = Some y" "norm_obj y = norm_obj ?x \<or> norm_obj y = norm_obj (doze sch ?x)"
    by (auto simp: safe_cl_def)
  then obtain b m n where b: "y = KStatefulSet b" and e: "b\<lparr>sts_Replicas := m\<rparr> = a\<lparr>sts_Replicas := n\<rparr>"
    by (cases y) auto
  have f: "sts_Meta b = sts_Meta a" "sts_PVCWhenScaled b = sts_PVCWhenScaled a"
    using arg_cong [OF e, of sts_Meta] arg_cong [OF e, of sts_PVCWhenScaled] by simp_all
  have risk: "\<not> (pvcDeletionRisk b \<and> \<not> allowsPVCDeletion b sch)"
    using ok f by (simp add: pvcDeletionRisk_def allowsPVCDeletion_def)
  have load: "csp content (load_or_nil (call (k_get_stateful_set (sr_Client st) (wr_Namespace (ref_of ?x)) (wr_Name (ref_of ?x))))) cl P"
    if "\<And>e. P (Inl e) cl" "P (Inr (Some b)) cl" for P
    by (rule csp_load [OF kube_lawsD(11) [OF laws]])
      (use that y b in \<open>auto simp: find_stateful_set_def key_of_def ref_of_def\<close>)
  show ?thesis unfolding statefulSet_Sleep_def
    by (rule csp_bind, rule load) (use sl risk in auto)
qed

lemma handler_slept:
  assumes laws: "kube_laws (sr_Client st) content" and dry: "\<not> sp_DryRun (ss_Spec sch)"
    and x: "obj_wf x" and wf: "cluster_wf cl" and s: "settled st sch x cl" and ok: "sleepable sch x"
  shows "csp content (h_Sleep (handler_of x) (sr_Client st) ctx rec st sch (ref_of x)) cl
    (\<lambda>r cl'. \<forall>u. r = Inr u \<longrightarrow> slept_obj sch x cl')"
proof -
  have safe: "safe_cl st sch x cl" using s by (simp add: settled_def)
  show ?thesis
  proof (cases x)
    case (KDeployment d)
    have k: "replica_kind x" by (simp add: KDeployment)
    have "csp content (sleepReplica loadDeployment (sr_Client st) ctx rec st sch (ref_of x)) cl
      (\<lambda>r cl'. \<forall>u. r = Inr u \<longrightarrow> slept_obj sch x cl')"
      by (rule csp_mono [OF sleepReplica_safe [OF laws k loads_deployment [OF laws, of d, folded KDeployment] dry wf safe]])
        (auto simp: slept_obj_def replica_facts(2,4) [OF k])
    then show ?thesis by (simp add: KDeployment handlers)
  next
    case (KStatefulSet a)
    then show ?thesis using statefulSet_slept [OF laws dry wf] safe ok by (simp add: handlers)
  next
    case (KDaemonSet a)
    then show ?thesis using daemonSet_slept [OF laws dry] x safe ok by (simp add: handlers del: obj_wf.simps)
  next
    case (KCronJob a)
    then show ?thesis using cronJob_slept [OF laws dry] s by (simp add: handlers)
  next
    case (KJob a)
    then show ?thesis using job_slept [OF laws dry] s ok by (simp add: handlers)
  next
    case (KHPA a)
    then show ?thesis using hpa_slept [OF laws dry] s by (simp add: handlers)
  qed
qed

section \<open>Passes\<close>

lemma ref_slept:
  assumes laws: "kube_laws (sr_Client st) content" and dry: "\<not> sp_DryRun (ss_Spec sch)"
    and x: "obj_wf x" "dns_ref (ref_of x)" "dns_ref ref" and ok: "sleepable sch x"
    and h: "registry_Get Default_registry (wr_Kind ref) = Some h"
    and wf: "cluster_wf cl" and s: "settled st sch x cl"
  shows "csp content (h_Sleep h (sr_Client st) ctx rec st sch ref) cl
    (\<lambda>r cl'. \<forall>u. r = Inr u \<longrightarrow> settled st sch x cl'
      \<and> (ref = ref_of x \<or> slept_obj sch x cl \<longrightarrow> slept_obj sch x cl'))"
proof (cases "ref = ref_of x")
  case True
  have hx: "h = handler_of x" using h True by (simp add: ref_of_def registry_Get_kind_of)
  have safe: "safe_cl st sch x cl" using s by (simp add: settled_def)
  show ?thesis unfolding True hx
    by (rule csp_mono [OF csp_conj [OF handler_safe(1) [OF laws dry x(1) wf safe]
          handler_slept [OF laws dry x(1) wf s ok]]])
      (auto simp: settled_slept)
next
  case False
  from Default_registry_Get [OF h] have hm: "h \<in> set default_handlers" "wr_Kind ref = h_Kind h" by auto
  define Q where "Q cl' \<longleftrightarrow> settled st sch x cl' \<and> (slept_obj sch x cl \<longrightarrow> slept_obj sch x cl')" for cl'
  have "frame st sch ref Q"
    by (rule frame_other [OF x(3,2) False]) (auto simp: Q_def slept_obj_def intro: settled_frame)
  moreover have "Q cl" using s by (simp add: Q_def)
  ultimately have "csp content (h_Sleep h (sr_Client st) ctx rec st sch ref) cl (\<lambda>_ cl'. Q cl')"
    using handler_frame(1) [OF laws hm _ _ wf] by blast
  then show ?thesis by (rule csp_mono) (use False in \<open>simp add: Q_def\<close>)
qed

lemma apply_refs_slept:
  fixes sl :: "'w sleeper"
  assumes laws: "kube_laws (sl_Client sl) content" and st: "sr_Client (sl_Store sl) = sl_Client sl"
    and dry: "\<not> sp_DryRun (ss_Spec sch)" and ok: "sleepable sch x"
    and x: "obj_wf x" "dns_ref (ref_of x)" "\<forall>ref \<in> set refs. dns_ref ref"
    and s: "settled (sl_Store sl) sch x cl" and wf: "cluster_wf cl"
  shows "csp content (apply_refs sl Default_registry ctx sch True refs) cl
    (\<lambda>r cl'. \<forall>u. r = Inr u \<longrightarrow> ref_of x \<in> set refs \<or> slept_obj sch x cl \<longrightarrow> slept_obj sch x cl')"
  using x(3) s wf
proof (induction refs arbitrary: cl)
  case Nil
  then show ?case by (auto intro!: csp_rules)
next
  case (Cons ref refs)
  let ?st = "sl_Store sl"
  show ?case
  proof (cases "registry_Get (Default_registry :: 'w registry) (wr_Kind ref)")
    case None
    then show ?thesis by (auto intro!: csp_rules)
  next
    case (Some h)
    have step: "csp content (h_Sleep h (sl_Client sl) ctx (sl_Recorder sl) ?st sch ref) cl
        (\<lambda>r cl'. \<forall>u. r = Inr u \<longrightarrow> settled ?st sch x cl'
          \<and> (ref = ref_of x \<or> slept_obj sch x cl \<longrightarrow> slept_obj sch x cl'))"
      using ref_slept [of ?st, unfolded st, OF laws dry x(1,2) _ ok Some Cons.prems(3,2)] Cons.prems(1) by simp
    show ?thesis unfolding apply_refs.simps Some option.case if_True
    proof (rule csp_bind, rule csp_wf [OF laws], rule csp_mono [OF step], goal_cases)
      case (1 r cl')
      show ?case
      proof (cases r)
        case (Inr y)
        have "csp content (apply_refs sl Default_registry ctx sch True refs) cl'
          (\<lambda>r cl'a. \<forall>u. r = Inr u \<longrightarrow> ref_of x \<in> set refs \<or> slept_obj sch x cl' \<longrightarrow> slept_obj sch x cl'a)"
          if "cluster_wf cl'" using Cons.IH [of cl'] Cons.prems(1) 1 Inr that by simp
        then show ?thesis unfolding Inr sum.case using 1 Inr by (auto elim!: csp_mono)
      qed simp
    qed
  qed
qed

text \<open>
  C3: Sleep takes effect. A sleeping pass that is no dry run and succeeds leaves every workload it names
  in its sleeping form: replicas at \<open>sleepReplicas\<close>, \<open>suspend\<close> true, the sentinel in the node selector, the
  HPA pinned to \<open>sleepReplicas\<close> but at least 1; and, where that is not what the workload was, with the
  original recorded. It may find the workload as it was, with its original recorded or not, or asleep with
  its original recorded. Excepted are a StatefulSet or a Job held back by its guard, a DaemonSet whose own
  node selector carries the sentinel key, and a CronJob, Job or HPA that is awake with an entry in the
  store, whose sleep was interrupted before.
\<close>

theorem sleep_takes_effect:
  assumes "kube_laws (sl_Client sl) content" and "sr_Client (sl_Store sl) = sl_Client sl"
    and "sleeper_registry sl = Default_registry" and "\<not> sp_DryRun (ss_Spec sch)"
    and "obj_wf x" and "dns_ref (ref_of x)" and "\<forall>ref \<in> set refs. dns_ref ref"
    and "ref_of x \<in> set refs" and "sleepable sch x"
    and "settled (sl_Store sl) sch x (content (st_api s))"
    and "Apply sl ctx sch True refs s = (Inr (), s')"
  shows "\<exists>y. cl_obj (content (st_api s')) (key_of x) = Some y \<and> norm_obj y = norm_obj (doze sch x)
    \<and> (norm_obj (doze sch x) \<noteq> norm_obj x \<longrightarrow>
        entry (sl_Store sl) sch (key_for x) (content (st_api s')) = Some (enc x))"
proof -
  have wf: "cluster_wf (content (st_api s))" using kube_lawsD(19) [OF assms(1)] by simp
  have "safe_cl (sl_Store sl) sch x (content (st_api s'))"
    by (rule Apply_safe(1) [OF _ assms(7) _ assms(11)])
      (use assms(1-6,10) in \<open>simp_all add: pass_ok_def settled_def\<close>)
  moreover have "slept_obj sch x (content (st_api s'))"
    using cspD [OF apply_refs_slept [OF assms(1,2,4,9,5,6,7,10) wf] assms(11) [unfolded Apply_def assms(3)]]
      assms(8) by blast
  ultimately show ?thesis by (auto simp: safe_cl_def slept_obj_def)
qed

theorem sleep_takes_effect_witness:
  "let a = Apply mem_sleeper None office_hours True demo_refs (mem_state (demo_mem []))
   in fst a = Inr ()
      \<and> (\<exists>y. cl_obj (mem_content (st_api (snd a))) (key_of (KDeployment demo_deployment)) = Some y
           \<and> norm_obj y = KDeployment (demo_deployment\<lparr>dp_Replicas := Some 0\<rparr>))"
proof -
  let ?x = "KDeployment demo_deployment"
  let ?s = "mem_state (demo_mem [])"
  let ?a = "Apply mem_sleeper None office_hours True demo_refs ?s"
  have c: "obj_wf ?x" "dns_ref (ref_of ?x)" "\<forall>ref \<in> set demo_refs. dns_ref ref" "ref_of ?x \<in> set demo_refs"
    "sleepable office_hours ?x"
    and r: "fst ?a = Inr ()"
    and d: "norm_obj (doze office_hours ?x) = KDeployment (demo_deployment\<lparr>dp_Replicas := Some 0\<rparr>)"
    and x: "cl_obj (mem_content (st_api ?s)) (key_of ?x) = Some ?x"
    and e: "entry (sl_Store mem_sleeper) office_hours (key_for ?x) (mem_content (st_api ?s)) = None"
    by code_simp+
  have "settled (sl_Store mem_sleeper) office_hours ?x (mem_content (st_api ?s))"
    using x e by (auto simp: settled_def safe_cl_def)
  from sleep_takes_effect [OF mem_sleeper_env c this result_split [OF r]] r d
  show ?thesis unfolding Let_def by metis
qed

section \<open>An interrupted sleep\<close>

lemma recorded_Sleep:
  assumes laws: "kube_laws (sr_Client st) content" and wf: "cluster_wf cl" and nr: "\<not> resumes x"
    and x: "cl_obj cl (key_of x) = Some x" and e: "entry st sch (key_for x) cl = Some v"
  shows "csp content (h_Sleep (handler_of x) (sr_Client st) ctx rec st sch (ref_of x)) cl (\<lambda>_ cl'. cl' = cl)"
proof -
  note rec = csp_recorded [OF laws e]
  have k: "wr_Kind (ref_of x) = kind_of x" "wr_Namespace (ref_of x) = om_Namespace (meta_of x)"
    "wr_Name (ref_of x) = om_Name (meta_of x)" by (simp_all add: ref_of_def)
  have sus: "csp content (sleepSuspend (sr_Client st) ctx rec st sch (ref_of x) w) cl (\<lambda>_ cl'. cl' = cl)"
    if "so_uid w = om_UID (meta_of x)" for w
    unfolding sleepSuspend_def k that key_for_def [symmetric] Let_def by (rule rec) simp
  from nr consider c where "x = KCronJob c" | j where "x = KJob j" | p where "x = KHPA p" by (cases x) auto
  then show ?thesis
  proof cases
    case 1
    have "csp content (cronJob_Sleep (sr_Client st) ctx rec st sch (ref_of x)) cl (\<lambda>_ cl'. cl' = cl)"
      unfolding cronJob_Sleep_def 1
      by (rule csp_bind, rule csp_loads(1) [OF laws x [unfolded 1]])
        (use sus [of "cronJobSuspendObj c"] 1 in \<open>simp_all add: cronJobSuspendObj_def\<close>)
    then show ?thesis by (simp add: 1 handlers)
  next
    case 2
    have "csp content (job_Sleep (sr_Client st) ctx rec st sch (ref_of x)) cl (\<lambda>_ cl'. cl' = cl)"
      unfolding job_Sleep_def 2
      by (rule csp_bind, rule csp_loads(2) [OF laws x [unfolded 2]])
        (use sus [of "jobSuspendObj j"] 2 in \<open>auto simp: jobSuspendObj_def intro!: csp_rules\<close>)
    then show ?thesis by (simp add: 2 handlers)
  next
    case 3
    have "csp content (hpa_Sleep (sr_Client st) ctx rec st sch (ref_of x)) cl (\<lambda>_ cl'. cl' = cl)"
      unfolding hpa_Sleep_def 3
      by (rule csp_bind, rule csp_loads(4) [OF laws x [unfolded 3]])
        (use rec 3 in \<open>simp_all add: Let_def ref_of_def key_for_def\<close>)
    then show ?thesis by (simp add: 3 handlers)
  qed
qed

text \<open>
  C37: An interrupted sleep of a CronJob, a Job or an HPA is not taken up again: while an entry is
  recorded for it, no sleeping pass changes the object or the entry, whatever the pass is over and
  however it ends. So a pass that failed between the checkpoint and the patch leaves the workload awake
  for the rest of the night, and the passes that follow succeed.
\<close>

theorem interrupted_sleep_not_retried:
  assumes "kube_laws (sl_Client sl) content" and "sr_Client (sl_Store sl) = sl_Client sl"
    and "sleeper_registry sl = Default_registry"
    and "\<not> resumes x" and "dns_ref (ref_of x)" and "\<forall>ref \<in> set refs. dns_ref ref"
    and "cl_obj (content (st_api s)) (key_of x) = Some x"
    and "entry (sl_Store sl) sch (key_for x) (content (st_api s)) = Some v"
    and "Apply sl ctx sch True refs s = (r, s')"
  shows "cl_obj (content (st_api s')) (key_of x) = Some x
    \<and> entry (sl_Store sl) sch (key_for x) (content (st_api s')) = Some v"
proof (rule Apply_inv [where Q = "\<lambda>cl. cl_obj cl (key_of x) = Some x
      \<and> entry (sl_Store sl) sch (key_for x) cl = Some v" and content = content,
      OF assms(1,3) _ conjI [OF assms(7,8)] assms(9)], goal_cases)
  case (1 ref h cl ctx)
  let ?Q = "\<lambda>cl. cl_obj cl (key_of x) = Some x \<and> entry (sl_Store sl) sch (key_for x) cl = Some v"
  from Default_registry_Get [OF 1(2)] have hm: "h \<in> set default_handlers" "wr_Kind ref = h_Kind h" by auto
  show ?case
  proof (cases "ref = ref_of x")
    case True
    then have "h = handler_of x" using 1(2) by (simp add: ref_of_def registry_Get_kind_of)
    with True recorded_Sleep [of "sl_Store sl", unfolded assms(2), OF assms(1) 1(4) assms(4)] 1(3)
    have "csp content (h_Sleep h (sl_Client sl) ctx (sl_Recorder sl) (sl_Store sl) sch ref) cl (\<lambda>_ cl'. cl' = cl)"
      by simp
    from csp_mono [OF this] 1(3) show ?thesis by simp
  next
    case False
    have "frame (sl_Store sl) sch ref ?Q"
      by (rule frame_other [OF _ assms(5) False]) (use 1(1) assms(6) in auto)
    from handler_frame(1) [of "sl_Store sl", unfolded assms(2), OF assms(1) hm this 1(3,4)]
    show ?thesis by simp
  qed
qed

text \<open>The patch of the HPA fails; the next sleeping pass succeeds, and the HPA has its own bounds.\<close>

theorem interrupted_sleep_not_retried_witness:
  "let a = Apply mem_sleeper None office_hours True demo_refs (mem_state (demo_mem patch_fault));
       b = Apply mem_sleeper None office_hours True demo_refs (snd a)
   in fst a = Inl (ApiError (OtherAPIError ''timeout'')) \<and> fst b = Inr ()
      \<and> cl_obj (mem_content (st_api (snd b))) (key_of (KHPA demo_hpa)) = Some (KHPA demo_hpa)"
proof -
  let ?x = "KHPA demo_hpa"
  let ?a = "Apply mem_sleeper None office_hours True demo_refs (mem_state (demo_mem patch_fault))"
  let ?b = "Apply mem_sleeper None office_hours True demo_refs (snd ?a)"
  have a: "fst ?a = Inl (ApiError (OtherAPIError ''timeout''))" and b: "fst ?b = Inr ()"
    and d: "dns_ref (ref_of ?x)" "\<forall>ref \<in> set demo_refs. dns_ref ref"
    and x: "cl_obj (mem_content (st_api (snd ?a))) (key_of ?x) = Some ?x"
    and e: "entry (sl_Store mem_sleeper) office_hours (key_for ?x) (mem_content (st_api (snd ?a))) = Some (enc ?x)"
    by code_simp+
  have "\<not> resumes ?x" by simp
  from interrupted_sleep_not_retried [OF mem_sleeper_env(1-3) this d x e prod.collapse [symmetric, of ?b]] a b
  show ?thesis unfolding Let_def by blast
qed

end
