(* ===== verification/Workload_Live.thy ===== *)
theory Workload_Live
  imports Workload_Sleep
begin

text \<open>
  Liveness of the workload layer: where the API answers (\<^theory_text>\<open>kube_healthy\<close>), every attempt on a workload
  whose original is at hand succeeds, so a pass over such workloads does; what it then has done are
  the theorems on successful passes.
\<close>

section \<open>Rules for an API that answers\<close>

lemma csp_succeeds:
  assumes "\<And>s. content (st_api s) = cl \<Longrightarrow> \<exists>x s'. m s = (Inr x, s')"
    and "csp content m cl (\<lambda>r cl'. \<forall>x. r = Inr x \<longrightarrow> P (Inr x) cl')"
  shows "csp content m cl P"
  using assms unfolding csp_def wp_def by (fastforce split: prod.splits)

lemma live_load:
  assumes "get_law content look get" and "get_total content look get"
    and "look cl ns n = None \<Longrightarrow> P (Inr None) cl"
    and "\<And>x. look cl ns n = Some x \<Longrightarrow> P (Inr (Some x)) cl"
  shows "csp content (load_or_nil (call (get ns n))) cl P"
  unfolding load_or_nil_def
  by (rule cspI, unfold wp_try, rule wp_call_get_total [OF assms(1,2)])
    (use assms(3,4) in \<open>auto simp: wp_simps isNotFound_def same_view_def\<close>)

lemma live_patch:
  assumes "kube_laws c content" and "kube_healthy c content"
    and "cl_obj cl (key_of orig) = Some orig" and "P (Inr ()) (put_obj (stored new) cl)"
  shows "csp content (call (k_patch c orig new)) cl P"
proof (rule csp_succeeds)
  fix s :: "'a state" assume "content (st_api s) = cl"
  then have "fst (k_patch c orig new (st_api s)) = Inr ()"
    using kube_healthyD(17) [OF assms(2)] assms(3) unfolding write_total_def by blast
  then show "\<exists>x s'. call (k_patch c orig new) s = (Inr x, s')"
    by (cases "k_patch c orig new (st_api s)") (simp add: call_def)
qed (rule csp_patch [OF assms(1,3)], use assms(4) in auto)

lemma live_GetRaw:
  assumes laws: "kube_laws (sr_Client st) content" and h: "kube_healthy (sr_Client st) content"
    and "P (Inr (entry st sch key cl)) cl"
  shows "csp content (GetRaw st sch key) cl P"
  by (rule csp_succeeds, metis GetRaw_total [OF laws h], rule csp_GetRaw [OF laws]) (use assms(3) in auto)

lemma live_SetRaw:
  assumes laws: "kube_laws (sr_Client st) content" and h: "kube_healthy (sr_Client st) content"
    and "\<And>cl'. entry_upd st sch key
        (case entry st sch key cl of None \<Rightarrow> Some v | Some u \<Rightarrow> Some u) cl cl' \<Longrightarrow> P (Inr ()) cl'"
  shows "csp content (SetRaw st sch key v) cl P"
  by (rule csp_succeeds, metis SetRaw_total [OF laws h], rule csp_SetRaw [OF laws]) (use assms(3) in auto)

lemma live_Get:
  assumes laws: "kube_laws (sr_Client st) content" and h: "kube_healthy (sr_Client st) content"
    and "entry st sch key cl = None \<Longrightarrow> P (Inr None) cl"
    and "\<And>raw. entry st sch key cl = Some raw \<Longrightarrow> \<exists>n. ParseInt 32 raw = Some n \<and> P (Inr (Some (word_of_int n))) cl"
  shows "csp content (Get st sch key) cl P"
  unfolding Get_def
proof (rule csp_bind, rule live_GetRaw [OF laws h], unfold sum.case, cases "entry st sch key cl")
  case None
  then show "csp content (case entry st sch key cl of None \<Rightarrow> return_p None
      | Some raw \<Rightarrow> (case ParseInt 32 raw of None \<Rightarrow> throw_p (CorruptCheckpoint key) | Some n \<Rightarrow> return_p (Some (word_of_int n)))) cl P"
    using assms(3) by (auto intro!: csp_rules)
next
  case (Some raw)
  from assms(4) [OF this] obtain n where "ParseInt 32 raw = Some n" "P (Inr (Some (word_of_int n))) cl" by blast
  with Some show "csp content (case entry st sch key cl of None \<Rightarrow> return_p None
      | Some raw \<Rightarrow> (case ParseInt 32 raw of None \<Rightarrow> throw_p (CorruptCheckpoint key) | Some n \<Rightarrow> return_p (Some (word_of_int n)))) cl P"
    by (auto intro!: csp_rules)
qed

lemma Delete_once_total:
  assumes laws: "kube_laws (sr_Client st) content" and h: "kube_healthy (sr_Client st) content"
  shows "fst (Delete_once st sch key s) = Inr ()"
proof -
  have "wp (Delete_once st sch key) (\<lambda>r s'. r = Inr ()) s"
    unfolding Delete_once_def wp_try
  proof (rule wp_call_get_total [OF kube_lawsD(3) [OF laws] kube_healthyD(3) [OF h]], goal_cases)
    case (1 s')
    then show ?case by (simp add: wp_simps isNotFound_def)
  next
    case (2 sec s')
    note k = found_secret_key [OF laws 2(2)]
    note v = same_viewD(1) [OF 2(1)]
    have del: "wp (call (k_delete_secret (sr_Client st) (sec\<lparr>sec_Data := d\<rparr>))) (\<lambda>r s'. r = Inr ()) s'" for d
      by (rule wp_call_write_total [OF kube_lawsD(6) [OF laws] kube_healthyD(6) [OF h]])
        (use 2(2) k v in simp_all)
    have upd: "wp (call (k_update_secret (sr_Client st) (sec\<lparr>sec_Data := d\<rparr>))) (\<lambda>r s'. r = Inr ()) s'" for d
      by (rule wp_call_write_total [OF kube_lawsD(5) [OF laws] kube_healthyD(5) [OF h]])
        (use 2(2) k v in simp_all)
    have del': "wp (call (k_delete_secret (sr_Client st) (sec\<lparr>sec_Data := d\<rparr>))) (\<lambda>r s'.
        (case r of Inl e \<Rightarrow> if isNotFound e then Inr () else Inl e | Inr x \<Rightarrow> Inr x) = Inr ()) s'" for d
      by (rule wp_mono [OF del]) simp
    show ?case using del' upd by (auto simp: wp_simps Let_def wp_ignoreNotFound)
  qed
  then show ?thesis by (cases "Delete_once st sch key s") (simp add: wp_def)
qed

lemma live_Delete:
  assumes laws: "kube_laws (sr_Client st) content" and h: "kube_healthy (sr_Client st) content"
    and "\<And>cl'. entry_upd st sch key None cl cl' \<Longrightarrow> P (Inr ()) cl'"
  shows "csp content (Delete_entry st sch key) cl P"
proof (rule csp_succeeds)
  fix s :: "'a state"
  have "Delete_entry st sch key s = Delete_once st sch key s"
    unfolding Delete_entry_def
    by (rule retry_succeeds [OF kube_lawsD(18) [OF laws] Delete_once_total [OF laws h]])
  then show "\<exists>x s'. Delete_entry st sch key s = (Inr x, s')"
    using Delete_once_total [OF laws h, of sch key s] by (metis prod.collapse)
qed (rule csp_Delete [OF laws], use assms(3) in auto)

section \<open>Each handler succeeds\<close>

abbreviation succeeds :: "('w \<Rightarrow> cluster) \<Rightarrow> ('w, unit) prog \<Rightarrow> cluster \<Rightarrow> bool" where
  "succeeds content m cl \<equiv> csp content m cl (\<lambda>r cl'. r = Inr ())"

text \<open>What follows a patch succeeds in every cluster.\<close>

lemma succeeds_report:
  "succeeds content (bind_p (emit rec obj r1 m1) (\<lambda>_. Record c ctx rec sch k1 n1 n2 a1 t1)) cl"
  by (rule csp_bind, rule csp_emit, unfold sum.case, rule csp_Record, rule refl)

lemma succeeds_report_delete:
  assumes "kube_laws (sr_Client st) content" and "kube_healthy (sr_Client st) content"
  shows "succeeds content (bind_p (emit rec obj r1 m1) (\<lambda>_.
    bind_p (Record c ctx rec sch' k1 n1 n2 a1 t1) (\<lambda>_. Delete_entry st sch key))) cl"
  by (rule csp_bind, rule csp_emit, unfold sum.case, rule csp_bind, rule csp_Record, unfold sum.case,
      rule live_Delete [OF assms], rule refl)

lemma succeeds_patch:
  assumes "kube_laws c content" and "kube_healthy c content" and "cl_obj cl (key_of orig) = Some orig"
    and "\<And>cl. succeeds content m cl"
  shows "succeeds content (bind_p (call (k_patch c orig new)) (\<lambda>_. m)) cl"
  by (rule csp_bind, rule live_patch [OF assms(1-3)], unfold sum.case, rule assms(4))

definition live_loads :: "('w \<Rightarrow> cluster) \<Rightarrow> 'w kube \<Rightarrow> 'w load_func \<Rightarrow> kobj \<Rightarrow> bool" where
  "live_loads content c load x \<longleftrightarrow>
     (\<forall>cl y P. cluster_wf cl \<longrightarrow> cl_obj cl (key_of x) = Some y \<longrightarrow> kind_of y = kind_of x \<longrightarrow>
        P (Inr (Some (replica_obj_of y))) cl \<longrightarrow> csp content (load c (ref_of x)) cl P)"

lemma live_loads_deployment:
  assumes "kube_laws c content" and "kube_healthy c content"
  shows "live_loads content c loadDeployment (KDeployment d)"
  unfolding live_loads_def
proof (intro allI impI)
  fix cl y and P :: "go_error + replica_obj option \<Rightarrow> cluster \<Rightarrow> bool"
  assume h: "cluster_wf cl" "cl_obj cl (key_of (KDeployment d)) = Some y"
    "kind_of y = kind_of (KDeployment d)" "P (Inr (Some (replica_obj_of y))) cl"
  from h(3) obtain d' where y: "y = KDeployment d'" by (cases y) auto
  show "csp content (loadDeployment c (ref_of (KDeployment d))) cl P"
    unfolding loadDeployment_def ref_of_def wref.simps
    by (rule csp_bind, rule live_load [OF kube_lawsD(10) [OF assms(1)] kube_healthyD(10) [OF assms(2)]])
      (use h y in \<open>auto simp: find_deployment_def key_of_def intro!: csp_rules\<close>)
qed

lemma live_loads_stateful_set:
  assumes "kube_laws c content" and "kube_healthy c content"
  shows "live_loads content c loadStatefulSet (KStatefulSet s)"
  unfolding live_loads_def
proof (intro allI impI)
  fix cl y and P :: "go_error + replica_obj option \<Rightarrow> cluster \<Rightarrow> bool"
  assume h: "cluster_wf cl" "cl_obj cl (key_of (KStatefulSet s)) = Some y"
    "kind_of y = kind_of (KStatefulSet s)" "P (Inr (Some (replica_obj_of y))) cl"
  from h(3) obtain s' where y: "y = KStatefulSet s'" by (cases y) auto
  show "csp content (loadStatefulSet c (ref_of (KStatefulSet s))) cl P"
    unfolding loadStatefulSet_def ref_of_def wref.simps
    by (rule csp_bind, rule live_load [OF kube_lawsD(11) [OF assms(1)] kube_healthyD(11) [OF assms(2)]])
      (use h y in \<open>auto simp: find_stateful_set_def key_of_def intro!: csp_rules\<close>)
qed

lemma live_patchReplicas:
  assumes "kube_laws c content" and "kube_healthy c content"
    and "replica_kind y" and "cl_obj cl (key_of y) = Some y"
  shows "succeeds content (patchReplicas c ctx rec sch ref (replica_obj_of y) want False reason) cl"
  unfolding patchReplicas_def Let_def replica_facts(8,10,11) [OF assms(3)]
  by (rule csp_if, rule csp_return, rule refl, simp,
      rule succeeds_patch [OF assms(1,2,4)], rule succeeds_report)

lemma replica_succeeds:
  assumes laws: "kube_laws (sr_Client st) content" and h: "kube_healthy (sr_Client st) content"
    and x: "replica_kind x" and load: "live_loads content (sr_Client st) load x"
    and dry: "\<not> sp_DryRun (ss_Spec sch)" and wf: "cluster_wf cl" and safe: "safe_cl st sch x cl"
  shows "succeeds content (sleepReplica load (sr_Client st) ctx rec st sch (ref_of x)) cl"
    and "succeeds content (restoreReplica load (sr_Client st) ctx rec st sch (ref_of x)) cl"
proof -
  obtain y n where y: "cl_obj cl (key_of x) = Some y" "norm_obj y = with_replicas x n"
    and e: "entry st sch (key_for x) cl \<in> {None, Some (enc x)}"
    using safe unfolding safe_replica [OF x] by blast
  note yf = same_norm_replicas [OF x y(2)]
  note rf = replica_facts [OF yf(1)]
  have key: "Key (kind_of x) (om_Namespace (meta_of x)) (om_Name (meta_of x)) (om_UID (meta_of y)) = key_for x"
    by (simp add: key_for_def yf(7))
  have num: "\<exists>n. ParseInt 32 raw = Some n" if "entry st sch (key_for x) cl = Some raw" for raw
    using that e by (auto simp: replica_facts(3) [OF x])
  have patch: "succeeds content (patchReplicas (sr_Client st) ctx rec sch ref (replica_obj_of y) want False reason) cl'"
    if "cl_obj cl' = cl_obj cl" for cl' ref want reason
    by (rule live_patchReplicas [OF laws h yf(1)]) (use that y yf in simp)
  show "succeeds content (sleepReplica load (sr_Client st) ctx rec st sch (ref_of x)) cl"
    unfolding sleepReplica_def ref_of_def wref.simps Let_def
  proof (rule csp_bind, rule load [unfolded live_loads_def ref_of_def, rule_format, OF wf y(1) yf(6)],
      unfold sum.case option.case rf(9,10) key, rule csp_bind, rule live_Get [OF laws h], goal_cases)
    case 1
    show ?case using dry unfolding sum.case Set_replicas_def
      by (simp, intro csp_bind live_SetRaw [OF laws h]) (use patch in \<open>auto dest: entry_updD\<close>)
  next
    case (2 raw)
    then show ?case using num [of raw] patch dry by (auto intro!: csp_rules)
  qed
  show "succeeds content (restoreReplica load (sr_Client st) ctx rec st sch (ref_of x)) cl"
    unfolding restoreReplica_def ref_of_def wref.simps Let_def
  proof (rule csp_bind, rule load [unfolded live_loads_def ref_of_def, rule_format, OF wf y(1) yf(6)],
      unfold sum.case option.case rf(9,10) key, rule csp_bind, rule live_Get [OF laws h], goal_cases)
    case 1
    show ?case by (auto intro!: csp_rules)
  next
    case (2 raw)
    from num [OF 2] obtain m where m: "ParseInt 32 raw = Some m" by blast
    have "succeeds content (bind_p (patchReplicas (sr_Client st) ctx rec sch (ref_of x) (replica_obj_of y)
        (word_of_int m) False ''Woke'') (\<lambda>_. Delete_entry st sch (key_for x))) cl"
      by (rule csp_bind, rule csp_mono [OF patch [OF refl]]) (auto intro!: live_Delete [OF laws h])
    then show ?case using m dry by (auto simp: ref_of_def)
  qed
qed

text \<open>The kinds that record JSON: the two shapes.\<close>

lemma live_record:
  assumes laws: "kube_laws (sr_Client st) content" and h: "kube_healthy (sr_Client st) content"
    and y: "cl_obj cl (key_of y) = Some y"
  shows "succeeds content (bind_p (SetRaw st sch key v) (\<lambda>_. bind_p (call (k_patch (sr_Client st) y new)) (\<lambda>_.
    bind_p (emit rec obj r1 m1) (\<lambda>_. Record c ctx rec sch' k1 n1 n2 a1 t1)))) cl"
  by (rule csp_bind, rule live_SetRaw [OF laws h], unfold sum.case,
      rule succeeds_patch [OF laws h _ succeeds_report], use y in \<open>simp add: entry_updD\<close>)

lemma live_restore_entry:
  assumes laws: "kube_laws (sr_Client st) content" and h: "kube_healthy (sr_Client st) content"
    and x: "\<not> replica_kind x" and safe: "safe_cl st sch x cl" and y: "cl_obj cl (key_of x) = Some y"
    and none: "F None = return_p ()"
    and some: "F (Some (enc x)) = bind_p (call (k_patch (sr_Client st) y new)) (\<lambda>_.
      bind_p (emit rec obj reason msg) (\<lambda>_.
      bind_p (Record (sr_Client st) ctx rec sch rk rns rn action text) (\<lambda>_. Delete_entry st sch (key_for x))))"
  shows "succeeds content (bind_p (GetRaw st sch (key_for x)) F) cl"
proof (rule csp_bind, rule live_GetRaw [OF laws h], unfold sum.case)
  have ky: "cl_obj cl (key_of y) = Some y"
    using safe y unfolding safe_plain [OF x] by auto
  have "entry st sch (key_for x) cl \<in> {None, Some (enc x)}" using safe unfolding safe_plain [OF x] by auto
  then consider "entry st sch (key_for x) cl = None" | "entry st sch (key_for x) cl = Some (enc x)" by auto
  then show "succeeds content (F (entry st sch (key_for x) cl)) cl"
  proof cases
    case 1
    show ?thesis unfolding 1 none by (rule csp_return) (rule refl)
  next
    case 2
    show ?thesis unfolding 2 some by (rule succeeds_patch [OF laws h ky succeeds_report_delete [OF laws h]])
  qed
qed

lemma suspend_succeeds:
  assumes laws: "kube_laws (sr_Client st) content" and h: "kube_healthy (sr_Client st) content"
    and w: "wraps w sch x y" and dry: "\<not> sp_DryRun (ss_Spec sch)" and safe: "safe_cl st sch x cl"
    and y: "cl_obj cl (key_of x) = Some y"
  shows "succeeds content (sleepSuspend (sr_Client st) ctx rec st sch (ref_of x) w) cl"
    and "succeeds content (restoreSuspend (sr_Client st) ctx rec st sch (ref_of x) w) cl"
proof -
  from w obtain b where x: "\<not> replica_kind x" and wf: "so_obj w = y"
    and b: "enc x = Marshal_bool b" by (auto simp: wraps_def)
  have key: "Key (kind_of x) (om_Namespace (meta_of x)) (om_Name (meta_of x)) (so_uid w) = key_for x"
    using w by (simp add: wraps_def key_for_def)
  have ky: "cl_obj cl (key_of y) = Some y" using safe y unfolding safe_plain [OF x] by auto
  show "succeeds content (sleepSuspend (sr_Client st) ctx rec st sch (ref_of x) w) cl"
    unfolding sleepSuspend_def Let_def wf
    by (rule csp_bind, rule live_GetRaw [OF laws h], unfold sum.case, rule csp_if, rule csp_return, rule refl,
        unfold if_not_P [OF dry], rule live_record [OF laws h ky])
  show "succeeds content (restoreSuspend (sr_Client st) ctx rec st sch (ref_of x) w) cl"
    unfolding restoreSuspend_def ref_of_def wref.simps Let_def key wf
    by (rule live_restore_entry [OF laws h x safe y], simp, use b dry in simp)
qed

text \<open>The typed reads.\<close>

lemma live_typed:
  assumes laws: "kube_laws (sr_Client st) content" and h: "kube_healthy (sr_Client st) content"
  shows "cl_obj cl (key_of (KCronJob a)) = Some (KCronJob a') \<Longrightarrow> P (Inr (Some a')) cl \<Longrightarrow>
      csp content (loadCronJob (sr_Client st) (ref_of (KCronJob a))) cl P"
    and "cl_obj cl (key_of (KJob b)) = Some (KJob b') \<Longrightarrow> Q (Inr (Some b')) cl \<Longrightarrow>
      csp content (loadJob (sr_Client st) (ref_of (KJob b))) cl Q"
    and "cl_obj cl (key_of (KDaemonSet d)) = Some (KDaemonSet d') \<Longrightarrow> R (Inr (Some d')) cl \<Longrightarrow>
      csp content (getDaemonSet (sr_Client st) (ref_of (KDaemonSet d))) cl R"
    and "cl_obj cl (key_of (KHPA p)) = Some (KHPA p') \<Longrightarrow> S (Inr (Some p')) cl \<Longrightarrow>
      csp content (loadHPA (sr_Client st) (ref_of (KHPA p))) cl S"
  unfolding loadCronJob_def loadJob_def getDaemonSet_def loadHPA_def
  by (intro live_load [OF kube_lawsD(13) [OF laws] kube_healthyD(13) [OF h]]
        live_load [OF kube_lawsD(14) [OF laws] kube_healthyD(14) [OF h]]
        live_load [OF kube_lawsD(12) [OF laws] kube_healthyD(12) [OF h]]
        live_load [OF kube_lawsD(15) [OF laws] kube_healthyD(15) [OF h]];
      auto simp: find_cron_job_def find_job_def find_daemon_set_def find_hpa_def ref_of_def key_of_def)+

lemma jobs_succeed:
  assumes laws: "kube_laws (sr_Client st) content" and h: "kube_healthy (sr_Client st) content"
    and dry: "\<not> sp_DryRun (ss_Spec sch)"
  shows "safe_cl st sch (KCronJob a) cl \<Longrightarrow>
      succeeds content (cronJob_Sleep (sr_Client st) ctx rec st sch (ref_of (KCronJob a))) cl
      \<and> succeeds content (cronJob_Restore (sr_Client st) ctx rec st sch (ref_of (KCronJob a))) cl"
    and "safe_cl st sch (KJob b) cl \<Longrightarrow>
      succeeds content (job_Sleep (sr_Client st) ctx rec st sch (ref_of (KJob b))) cl
      \<and> succeeds content (job_Restore (sr_Client st) ctx rec st sch (ref_of (KJob b))) cl"
proof -
  assume safe: "safe_cl st sch (KCronJob a) cl"
  obtain a' where y: "cl_obj cl (key_of (KCronJob a)) = Some (KCronJob a')"
    and m: "KCronJob a' \<in> {KCronJob a, doze sch (KCronJob a)}" using safe_kindD [OF safe] by auto
  note s = suspend_succeeds [OF laws h wraps_cron_job [OF m] dry safe y]
  show "succeeds content (cronJob_Sleep (sr_Client st) ctx rec st sch (ref_of (KCronJob a))) cl
      \<and> succeeds content (cronJob_Restore (sr_Client st) ctx rec st sch (ref_of (KCronJob a))) cl"
    unfolding cronJob_Sleep_def cronJob_Restore_def
    by (intro conjI csp_bind live_typed(1) [OF laws h y]) (use s in simp_all)
next
  assume safe: "safe_cl st sch (KJob b) cl"
  obtain b' where y: "cl_obj cl (key_of (KJob b)) = Some (KJob b')"
    and m: "KJob b' \<in> {KJob b, doze sch (KJob b)}" using safe_kindD [OF safe] by auto
  note s = suspend_succeeds [OF laws h wraps_job [OF m] dry safe y]
  show "succeeds content (job_Sleep (sr_Client st) ctx rec st sch (ref_of (KJob b))) cl
      \<and> succeeds content (job_Restore (sr_Client st) ctx rec st sch (ref_of (KJob b))) cl"
    unfolding job_Sleep_def job_Restore_def
    by (intro conjI csp_bind live_typed(2) [OF laws h y]) (use s in \<open>auto intro!: csp_rules\<close>)
qed

lemma doze_key: "cl_obj cl (key_of x) = Some y \<Longrightarrow> y \<in> {x, doze sch x} \<Longrightarrow> cl_obj cl (key_of y) = Some y"
  using key_of_doze(1) [of sch x] by auto

lemma daemonSet_succeeds:
  assumes laws: "kube_laws (sr_Client st) content" and h: "kube_healthy (sr_Client st) content"
    and dry: "\<not> sp_DryRun (ss_Spec sch)" and wf: "obj_wf (KDaemonSet a)"
    and safe: "safe_cl st sch (KDaemonSet a) cl"
  shows "succeeds content (daemonSet_Sleep (sr_Client st) ctx rec st sch (ref_of (KDaemonSet a))) cl"
    and "succeeds content (daemonSet_Restore (sr_Client st) ctx rec st sch (ref_of (KDaemonSet a))) cl"
proof -
  let ?x = "KDaemonSet a"
  have x: "\<not> replica_kind ?x" by simp
  obtain a' where y: "cl_obj cl (key_of ?x) = Some (KDaemonSet a')"
    and m: "KDaemonSet a' \<in> {?x, doze sch ?x}"
    using safe_kindD [OF safe] by auto
  have key: "Key (kind_of ?x) (om_Namespace (meta_of ?x)) (om_Name (meta_of ?x)) (om_UID (ds_Meta a')) = key_for ?x"
    using m by (auto simp: key_for_def)
  have ky: "cl_obj cl (key_of (KDaemonSet a')) = Some (KDaemonSet a')"
    by (rule doze_key [OF y m])
  note load = live_typed(3) [OF laws h y]
  have tail: "succeeds content (bind_p (call (k_patch (sr_Client st) (KDaemonSet a') new)) (\<lambda>_.
      bind_p (emit rec new r1 m1) (\<lambda>_. Record (sr_Client st) ctx rec sch k1 n1 n2 a1 t1))) cl'"
    if "cl_obj cl' = cl_obj cl" for cl' new r1 m1 k1 n1 n2 a1 t1
    by (rule succeeds_patch [OF laws h _ succeeds_report]) (use ky that in simp)
  show "succeeds content (daemonSet_Sleep (sr_Client st) ctx rec st sch (ref_of ?x)) cl"
    unfolding daemonSet_Sleep_def Let_def if_not_P [OF dry]
  proof (rule csp_bind, rule load, unfold sum.case option.case, rule csp_if, rule csp_return, rule refl,
      rule csp_bind, rule live_GetRaw [OF laws h], unfold sum.case, rule csp_bind, rule csp_if, goal_cases)
    case 1 show ?case
      by (rule live_SetRaw [OF laws h], unfold sum.case, rule tail) (simp add: entry_updD)
  next
    case 2 show ?case by (rule csp_return, unfold sum.case, rule tail) (rule refl)
  qed
  show "succeeds content (daemonSet_Restore (sr_Client st) ctx rec st sch (ref_of ?x)) cl"
    unfolding daemonSet_Restore_def
    by (rule csp_bind, rule load, unfold sum.case option.case Let_def ref_of_def wref.simps key,
        rule live_restore_entry [OF laws h x safe y], simp, use stored_daemon_set(3) [OF wf] dry in simp)
qed

lemma hpa_succeeds:
  assumes laws: "kube_laws (sr_Client st) content" and h: "kube_healthy (sr_Client st) content"
    and dry: "\<not> sp_DryRun (ss_Spec sch)" and safe: "safe_cl st sch (KHPA a) cl"
  shows "succeeds content (hpa_Sleep (sr_Client st) ctx rec st sch (ref_of (KHPA a))) cl"
    and "succeeds content (hpa_Restore (sr_Client st) ctx rec st sch (ref_of (KHPA a))) cl"
proof -
  let ?x = "KHPA a"
  have x: "\<not> replica_kind ?x" by simp
  obtain a' where y: "cl_obj cl (key_of ?x) = Some (KHPA a')" and m: "KHPA a' \<in> {?x, doze sch ?x}"
    using safe_kindD [OF safe] by auto
  have key: "Key (kind_of ?x) (om_Namespace (meta_of ?x)) (om_Name (meta_of ?x)) (om_UID (hp_Meta a')) = key_for ?x"
    using m by (auto simp: key_for_def)
  have ky: "cl_obj cl (key_of (KHPA a')) = Some (KHPA a')"
    by (rule doze_key [OF y m])
  note load = live_typed(4) [OF laws h y]
  show "succeeds content (hpa_Sleep (sr_Client st) ctx rec st sch (ref_of ?x)) cl"
    unfolding hpa_Sleep_def Let_def if_not_P [OF dry]
    by (rule csp_bind, rule load, unfold sum.case option.case, rule csp_bind, rule live_GetRaw [OF laws h],
        unfold sum.case, rule csp_if, rule csp_return, rule refl, rule csp_bind, rule csp_when, rule csp_warn;
        unfold sum.case, rule live_record [OF laws h ky])
  have u: "Unmarshal_bounds (enc ?x) = Some (hp_MinReplicas a, hp_MaxReplicas a)" by simp
  show "succeeds content (hpa_Restore (sr_Client st) ctx rec st sch (ref_of ?x)) cl"
    unfolding hpa_Restore_def
    by (rule csp_bind, rule load, unfold sum.case option.case Let_def ref_of_def wref.simps key,
        rule live_restore_entry [OF laws h x safe y], simp,
        unfold option.case u prod.case if_not_P [OF dry], rule refl)
qed

lemma statefulSet_succeeds:
  assumes laws: "kube_laws (sr_Client st) content" and h: "kube_healthy (sr_Client st) content"
    and dry: "\<not> sp_DryRun (ss_Spec sch)" and wf: "cluster_wf cl" and safe: "safe_cl st sch (KStatefulSet a) cl"
  shows "succeeds content (statefulSet_Sleep (sr_Client st) ctx rec st sch (ref_of (KStatefulSet a))) cl"
  unfolding statefulSet_Sleep_def
  by (rule csp_bind, rule live_load [OF kube_lawsD(11) [OF laws] kube_healthyD(11) [OF h]];
      unfold sum.case option.case, (rule csp_if)?)
    (use replica_succeeds(1) [OF laws h _ live_loads_stateful_set [OF laws h] dry wf safe]
      in \<open>auto intro!: csp_rules\<close>)

lemma handler_succeeds:
  assumes laws: "kube_laws (sr_Client st) content" and h: "kube_healthy (sr_Client st) content"
    and dry: "\<not> sp_DryRun (ss_Spec sch)" and x: "obj_wf x" and wf: "cluster_wf cl" and safe: "safe_cl st sch x cl"
  shows "succeeds content ((if asleep then h_Sleep (handler_of x) else h_Restore (handler_of x))
    (sr_Client st) ctx rec st sch (ref_of x)) cl"
proof (cases x)
  case (KDeployment d)
  then show ?thesis
    using replica_succeeds [OF laws h _ live_loads_deployment [OF laws h] dry wf] safe by (simp add: handlers)
next
  case (KStatefulSet a)
  then show ?thesis
    using statefulSet_succeeds [OF laws h dry wf] safe
      replica_succeeds(2) [OF laws h _ live_loads_stateful_set [OF laws h] dry wf] by (simp add: handlers)
next
  case (KDaemonSet a)
  then show ?thesis using daemonSet_succeeds [OF laws h dry] x safe by (simp add: handlers del: obj_wf.simps)
next
  case (KCronJob a)
  then show ?thesis using jobs_succeed(1) [OF laws h dry] safe by (simp add: handlers)
next
  case (KJob a)
  then show ?thesis using jobs_succeed(2) [OF laws h dry] safe by (simp add: handlers)
next
  case (KHPA a)
  then show ?thesis using hpa_succeeds [OF laws h dry] safe by (simp add: handlers)
qed

section \<open>Passes succeed\<close>

text \<open>Of every workload in the list the original is at hand.\<close>

definition at_hand :: "'w store \<Rightarrow> sleep_schedule \<Rightarrow> wref list \<Rightarrow> cluster \<Rightarrow> bool" where
  "at_hand st sch refs cl \<longleftrightarrow>
     (\<forall>ref \<in> set refs. dns_ref ref \<and> (\<exists>x. ref_of x = ref \<and> obj_wf x \<and> safe_cl st sch x cl))"

lemma apply_refs_succeeds:
  fixes sl :: "'w sleeper"
  assumes laws: "kube_laws (sl_Client sl) content" and h: "kube_healthy (sl_Client sl) content"
    and st: "sr_Client (sl_Store sl) = sl_Client sl" and dry: "\<not> sp_DryRun (ss_Spec sch)"
    and hand: "at_hand (sl_Store sl) sch refs cl" and wf: "cluster_wf cl"
  shows "succeeds content (apply_refs sl Default_registry ctx sch asleep refs) cl"
  using hand wf
proof (induction refs arbitrary: cl)
  case Nil
  then show ?case by (auto intro!: csp_rules)
next
  case (Cons ref refs)
  let ?st = "sl_Store sl"
  from Cons.prems(1) obtain x where x: "ref_of x = ref" "obj_wf x" "safe_cl ?st sch x cl"
    by (auto simp: at_hand_def)
  have get: "registry_Get Default_registry (wr_Kind ref) = Some (handler_of x)"
    unfolding x(1) [symmetric] by (simp add: ref_of_def registry_Get_kind_of)
  let ?m = "(if asleep then h_Sleep (handler_of x) else h_Restore (handler_of x)) (sl_Client sl) ctx
    (sl_Recorder sl) ?st sch ref"
  have ok: "succeeds content ?m cl"
    using handler_succeeds [of ?st, unfolded st, OF laws h dry x(2) Cons.prems(2) x(3)] by (simp add: x(1))
  have dns: "dns_ref ref" using Cons.prems(1) by (simp add: at_hand_def)
  have keep: "csp content ?m cl (\<lambda>r cl'. \<forall>y \<in> {y. dns_ref (ref_of y) \<and> obj_wf y \<and> safe_cl ?st sch y cl}.
      safe_cl ?st sch y cl')"
    by (rule csp_all, rule csp_mono [OF ref_safe [of ?st, unfolded st, OF laws dry _ _ dns get Cons.prems(2)]])
      auto
  show ?case unfolding apply_refs.simps get option.case
  proof (rule csp_bind, rule csp_wf [OF laws], rule csp_mono [OF csp_conj [OF ok keep]], intro impI, goal_cases)
    case (1 r cl')
    have "at_hand ?st sch refs cl'"
      using Cons.prems(1) 1(1) unfolding at_hand_def by fastforce
    from Cons.IH [OF this 1(2)] 1(1) show ?case by simp
  qed
qed

text \<open>
  Liveness: with an API that answers, a pass completes. If of every workload in the list the
  original is at hand, as it is after any sequence of passes however they failed, \<open>Apply\<close> succeeds; a
  waking pass has then restored every one of them, a sleeping pass has put to sleep every one that no
  guard holds back and whose sleep was not interrupted before.
\<close>

theorem healthy_pass_completes:
  assumes "kube_laws (sl_Client sl) content" and "kube_healthy (sl_Client sl) content"
    and "sr_Client (sl_Store sl) = sl_Client sl" and "sleeper_registry sl = Default_registry"
    and "\<not> sp_DryRun (ss_Spec sch)" and "at_hand (sl_Store sl) sch refs (content (st_api s))"
  shows "\<exists>s'. Apply sl ctx sch asleep refs s = (Inr (), s')
    \<and> (\<forall>x. ref_of x \<in> set refs \<and> obj_wf x \<and> safe_cl (sl_Store sl) sch x (content (st_api s)) \<longrightarrow>
        (if asleep
         then settled (sl_Store sl) sch x (content (st_api s)) \<and> sleepable sch x \<longrightarrow>
           slept_obj sch x (content (st_api s'))
         else restored_cl (sl_Store sl) sch x (content (st_api s'))))"
proof -
  have wf: "cluster_wf (content (st_api s))" using kube_lawsD(19) [OF assms(1)] by simp
  have dns: "\<forall>ref \<in> set refs. dns_ref ref" using assms(6) by (simp add: at_hand_def)
  obtain r s' where run: "Apply sl ctx sch asleep refs s = (r, s')" by fastforce
  have r: "r = Inr ()"
    by (rule cspD [OF apply_refs_succeeds [OF assms(1-3,5,6) wf] run [unfolded Apply_def assms(4)]])
  have awake: "restored_cl (sl_Store sl) sch x (content (st_api s'))"
    if "\<not> asleep" "ref_of x \<in> set refs" "obj_wf x" "safe_cl (sl_Store sl) sch x (content (st_api s))" for x
  proof -
    have "pass_ok (sl, content, sch, x)" using assms that dns by (auto simp: pass_ok_def)
    from Apply_safe(2) [OF this dns that(4) run r that(1,2)] show ?thesis .
  qed
  have asleep: "slept_obj sch x (content (st_api s'))"
    if "asleep" "ref_of x \<in> set refs" "obj_wf x" "settled (sl_Store sl) sch x (content (st_api s))" "sleepable sch x" for x
    using cspD [OF apply_refs_slept [OF assms(1,3,5) that(5,3) _ dns that(4) wf] run [unfolded Apply_def assms(4) eqTrueI [OF that(1)]]]
      that(2) dns r by auto
  from run r awake asleep show ?thesis by (auto simp: settled_def)
qed

text \<open>The patch of an HPA fails; once the API answers, a waking pass gives everything back.\<close>

definition calm_sleeper :: "mem sleeper" where
  "calm_sleeper = mem_sleeper\<lparr>sl_Client := calm_client, sl_Store := calm_store\<rparr>"

lemma calm_sleeper_env:
  "kube_laws (sl_Client calm_sleeper) mem_content" "kube_healthy (sl_Client calm_sleeper) mem_content"
  "sr_Client (sl_Store calm_sleeper) = sl_Client calm_sleeper"
  "sleeper_registry calm_sleeper = Default_registry" "\<not> sp_DryRun (ss_Spec office_hours)"
  by (simp_all add: calm_sleeper_def mem_sleeper_def calm_store_def calm_kube_laws calm_kube_healthy
      office_hours_def sleeper_registry_def)

definition hpa_failed :: "mem state" where
  "hpa_failed = snd (Apply mem_sleeper None office_hours True demo_refs (mem_state (demo_mem patch_fault)))"

lemma hpa_failed_safe:
  assumes "x = KHPA demo_hpa \<or> x = KDeployment demo_deployment"
  shows "safe_cl (sl_Store calm_sleeper) office_hours x (mem_content (st_api hpa_failed))"
    and "ref_of x \<in> set demo_refs" "obj_wf x"
proof -
  let ?s = "mem_state (demo_mem patch_fault)"
  have a: "obj_wf x" "dns_ref (ref_of x)" "cl_obj (mem_content (st_api ?s)) (key_of x) = Some x"
    "entry (sl_Store mem_sleeper) office_hours (key_for x) (mem_content (st_api ?s)) = None"
    "ref_of x \<in> set demo_refs"
    using assms by (elim disjE; simp only:; code_simp)+
  then show "obj_wf x" "ref_of x \<in> set demo_refs" by auto
  have d: "\<forall>ref \<in> set demo_refs. dns_ref ref" by code_simp
  have "pass_ok (mem_sleeper, mem_content, office_hours, x)"
    using a mem_sleeper_env by (simp add: pass_ok_def del: obj_wf.simps)
  moreover have "safe_cl (sl_Store mem_sleeper) office_hours x (mem_content (st_api ?s))"
    using a by (auto simp: safe_cl_def)
  ultimately have "safe_cl (sl_Store mem_sleeper) office_hours x (mem_content (st_api hpa_failed))"
    unfolding hpa_failed_def by (rule Apply_safe(1) [OF _ d _ prod.collapse [symmetric]])
  then show "safe_cl (sl_Store calm_sleeper) office_hours x (mem_content (st_api hpa_failed))"
    by (simp add: safe_cl_def calm_sleeper_def calm_store_def mem_sleeper_def mem_store_def)
qed

theorem healthy_pass_completes_witness:
  "fst (Apply mem_sleeper None office_hours True demo_refs (mem_state (demo_mem patch_fault)))
     = Inl (ApiError (OtherAPIError ''timeout''))
   \<and> (\<exists>s' y. Apply calm_sleeper None office_hours False demo_refs hpa_failed = (Inr (), s')
        \<and> cl_obj (mem_content (st_api s')) (key_of (KHPA demo_hpa)) = Some y
        \<and> norm_obj y = norm_obj (KHPA demo_hpa))"
proof -
  let ?cl = "mem_content (st_api hpa_failed)"
  have d: "\<forall>ref \<in> set demo_refs. dns_ref ref" by code_simp
  have "at_hand (sl_Store calm_sleeper) office_hours demo_refs ?cl"
    unfolding at_hand_def
  proof
    fix ref assume r: "ref \<in> set demo_refs"
    then obtain x where "ref_of x = ref" "x = KHPA demo_hpa \<or> x = KDeployment demo_deployment"
      by (auto simp: demo_refs_def)
    with d r hpa_failed_safe [of x]
    show "dns_ref ref \<and> (\<exists>x. ref_of x = ref \<and> obj_wf x \<and> safe_cl (sl_Store calm_sleeper) office_hours x ?cl)"
      by blast
  qed
  from healthy_pass_completes [OF calm_sleeper_env this, of None False]
  obtain s' where a: "Apply calm_sleeper None office_hours False demo_refs hpa_failed = (Inr (), s')"
    "restored_cl (sl_Store calm_sleeper) office_hours (KHPA demo_hpa) (mem_content (st_api s'))"
    using hpa_failed_safe [of "KHPA demo_hpa"] by auto
  moreover have "fst (Apply mem_sleeper None office_hours True demo_refs (mem_state (demo_mem patch_fault)))
     = Inl (ApiError (OtherAPIError ''timeout''))" by code_simp
  ultimately show ?thesis unfolding restored_cl_def by blast
qed

end
