(* ===== verification/Reconcile_Live.thy ===== *)
theory Reconcile_Live
  imports Reconcile_Passes Workload_Live Schedule_Correct
begin

text \<open>
  Liveness of whole passes: where the API answers, a pass over an admissible schedule returns without an
  error and without asking to be repeated, and it has brought every workload that the schedule wants
  into the state its phase names.
\<close>

section \<open>Programs that never fail\<close>

definition total_prog :: "('w, 'a) prog \<Rightarrow> bool" where
  "total_prog m \<longleftrightarrow> (\<forall>s. \<exists>x s'. m s = (Inr x, s'))"

lemma total_return: "total_prog (return_p x)"
  by (simp add: total_prog_def prog_simps)

lemma total_bind: "total_prog m \<Longrightarrow> (\<And>x. total_prog (f x)) \<Longrightarrow> total_prog (bind_p m f)"
  unfolding total_prog_def by (simp add: prog_simps) (metis (no_types, lifting) old.prod.case old.sum.simps(6))

lemma total_list_refs: "kube_healthy c content \<Longrightarrow> total_prog (list_refs kind c opt)"
  unfolding list_refs_def
proof (rule total_bind)
  assume h: "kube_healthy c content"
  show "total_prog (call (k_list c kind opt))"
    unfolding total_prog_def
  proof
    fix s :: "'a state"
    obtain ms where "fst (k_list c kind opt (st_api s)) = Inr ms" using h unfolding kube_healthy_def by blast
    then show "\<exists>x s'. call (k_list c kind opt) s = (Inr x, s')"
      by (cases "k_list c kind opt (st_api s)") (simp add: call_def)
  qed
qed (rule total_return)

text \<open>The target can be listed: a known mode, and a selector that parses.\<close>

definition resolvable :: "'w kube \<Rightarrow> target \<Rightarrow> bool" where
  "resolvable c tgt \<longleftrightarrow> tg_Mode tgt = TargetModeNamespaces
     \<or> tg_Mode tgt = TargetModeLabels \<and> (\<exists>sel. k_as_selector c (tg_Selector tgt) = Inr sel)"

lemma total_listKind:
  assumes h: "kube_healthy c content" and "resolvable c tgt" and d: "d \<in> set default_handlers"
  shows "total_prog (listKind c d tgt)"
proof -
  have "total_prog (list_namespaces c d acc nss)" for acc nss
    by (induction nss arbitrary: acc)
      (simp_all add: total_return total_bind default_handler_List [OF d] total_list_refs [OF h])
  then show ?thesis
    using assms(2) by (auto simp: listKind_def resolvable_def default_handler_List [OF d] total_list_refs [OF h])
qed

lemma total_resolve_kinds:
  fixes c :: "'w kube"
  assumes h: "kube_healthy c content" and "resolvable c tgt"
  shows "total_prog (resolve_kinds c Default_registry ex tgt acc unh ks)"
proof (induction ks arbitrary: acc unh)
  case (Cons k ks)
  show ?case
    using Cons total_listKind [OF assms] Default_registry_Get [of k]
    by (auto simp: split: option.split intro!: total_bind)
qed (simp add: total_return)

lemma total_Resolve:
  assumes "kube_healthy (rv_Client r) content" and "resolvable (rv_Client r) (sp_Target spec)"
    and "resolver_registry r = Default_registry"
  shows "total_prog (Resolve r spec)"
  unfolding Resolve_def assms(3) Let_def
  by (rule total_bind [OF total_resolve_kinds [OF assms(1,2)]]) (simp add: case_prod_beta total_return)

lemma live_total: "total_prog m \<Longrightarrow> csp content m cl (\<lambda>r cl'. \<forall>x. r = Inr x \<longrightarrow> P (Inr x) cl') \<Longrightarrow> csp content m cl P"
  by (rule csp_succeeds) (auto simp: total_prog_def)

section \<open>Calls that succeed\<close>

lemma live_get:
  assumes "get_law content look get" and "get_total content look get"
    and "look cl ns n = None \<Longrightarrow> P (Inl (ApiError NotFound)) cl"
    and "\<And>x. look cl ns n = Some x \<Longrightarrow> P (Inr x) cl"
  shows "csp content (call (get ns n)) cl P"
  by (rule cspI, rule wp_call_get_total [OF assms(1,2)]) (use assms(3,4) in \<open>auto simp: same_view_def\<close>)

lemma live_write:
  assumes "write_law content effect op" and "write_total content ready op" and "ready cl"
    and "\<And>cl'. effect cl cl' \<Longrightarrow> P (Inr ()) cl'"
  shows "csp content (call op) cl P"
  by (rule cspI, rule wp_call_write_total [OF assms(1,2)]) (use assms(3,4) in auto)

text \<open>A ConfigMap that is just being created belongs to nobody, so its owner can be set.\<close>

definition owner_total :: "'w kube \<Rightarrow> bool" where
  "owner_total c \<longleftrightarrow> (\<forall>ss cm. cm_Owner cm = None \<longrightarrow> cm_Namespace cm = ss_Namespace ss \<longrightarrow>
     (\<exists>cm'. k_set_controller_reference c ss cm = Inr cm'))"

lemma live_ensure:
  assumes laws: "kube_laws (rc_Client r) content" and h: "kube_healthy (rc_Client r) content"
    and own: "owner_law (rc_Client r)" "owner_total (rc_Client r)"
  shows "succeeds content (ensureWakeConfigMap r ss) cl"
proof -
  let ?new = "new_wake_config_map ss"
  have "cm_Owner ?new = None" "cm_Namespace ?new = ss_Namespace ss" by (simp_all add: new_wake_config_map_def)
  with own(2) obtain cm where cm: "k_set_controller_reference (rc_Client r) ss ?new = Inr cm"
    unfolding owner_total_def by blast
  with own(1) have k: "cm_Namespace cm = ss_Namespace ss" "cm_Name cm = WakeConfigMapName (ss_Name ss)"
    unfolding owner_law_def by (fastforce simp: new_wake_config_map_def)+
  have nf: "(\<not> isNotFound (ApiError NotFound)) = False" by (simp add: isNotFound_def)
  show ?thesis unfolding ensureWakeConfigMap_def Let_def cm
    by (rule csp_try, rule live_get [OF kube_lawsD(7) [OF laws] kube_healthyD(7) [OF h]]; unfold sum.case nf if_False,
        (rule csp_try, rule live_write [OF kube_lawsD(8) [OF laws] kube_healthyD(8) [OF h]])?)
      (use k in \<open>auto intro!: csp_rules\<close>)
qed

lemma live_update_data:
  assumes laws: "kube_laws c content" and h: "kube_healthy c content" and wf: "cluster_wf cl"
    and cm: "find_cm cl ns n = Some cm" and "\<And>cl'. P (Inr ()) cl'"
  shows "csp content (call (k_update_cm c (cm\<lparr>cm_Data := data\<rparr>))) cl P"
proof (rule live_write [OF kube_lawsD(9) [OF laws] kube_healthyD(9) [OF h]])
  have "cm_Namespace cm = ns" "cm_Name cm = n" using wf cm by (auto simp: cluster_wf_def find_cm_def)
  then show "\<exists>t. find_cm cl (cm_Namespace (cm\<lparr>cm_Data := data\<rparr>)) (cm_Name (cm\<lparr>cm_Data := data\<rparr>)) = Some t
      \<and> cm_Version t = cm_Version (cm\<lparr>cm_Data := data\<rparr>)" using cm by simp
qed (rule assms(5))

abbreviation returns :: "('w \<Rightarrow> cluster) \<Rightarrow> ('w, 'a) prog \<Rightarrow> cluster \<Rightarrow> bool" where
  "returns content m cl \<equiv> csp content m cl (\<lambda>r _. \<exists>x. r = Inr x)"

lemma live_processWake:
  assumes laws: "kube_laws (rc_Client r) content" and h: "kube_healthy (rc_Client r) content"
    and wf: "cluster_wf cl"
  shows "returns content (processWakeEntries r ctx ss now) cl"
  unfolding processWakeEntries_def
proof (rule csp_try, rule live_get [OF kube_lawsD(7) [OF laws] kube_healthyD(7) [OF h]], goal_cases)
  case 1
  then show ?case by (auto simp: isNotFound_def intro!: csp_rules)
next
  case (2 cm)
  have event: "returns content (bind_p (schedule_event r ss ty r1 m1) (\<lambda>_. return_p ws)) cl" for ty r1 m1 ws
    by (rule csp_bind, rule csp_event, unfold sum.case, rule csp_return) simp
  have tail: "returns content (bind_p (schedule_event r ss ty r1 m1) (\<lambda>_.
      bind_p (Record (rc_Client r) c1 False ss a1 a2 a3 a4 a5) (\<lambda>_. return_p ws))) cl'"
    for ty r1 m1 c1 a1 a2 a3 a4 a5 ws cl'
    by (rule csp_bind, rule csp_event, unfold sum.case, rule csp_bind, rule csp_Record, unfold sum.case,
        rule csp_return) simp
  have clamp: "returns content (bind_p (when_p b (schedule_event r ss ty r1 m1)) (\<lambda>_. m)) cl"
    if "returns content m cl" for b ty r1 m1 m
    by (intro csp_bind csp_when csp_event) (use that in simp_all)
  have act: "returns content (applyWake r ctx ss now cm res) cl" for res
    unfolding applyWake_def Let_def
    by (rule clamp, rule csp_if; rule csp_bind, (rule csp_when)?, (rule live_update_data [OF laws h wf 2])?;
        unfold sum.case; rule tail)
  show ?case unfolding sum.case
    by (auto split: option.split sum.split prod.split intro!: csp_return event act)
qed

lemma live_write_status:
  assumes laws: "kube_laws (rc_Client r) content" and h: "kube_healthy (rc_Client r) content"
    and ss: "find_schedule cl (ss_Namespace ss) (ss_Name ss) \<noteq> None"
  shows "csp content (write_status r ss phase next n result) cl (\<lambda>r _. r = Inr result)"
  unfolding write_status_def
  by (rule csp_if, rule csp_try, rule live_write [OF kube_lawsD(2) [OF laws] kube_healthyD(2) [OF h]])
    (use ss in \<open>auto intro!: csp_rules\<close>)

section \<open>The two halves return\<close>

lemma live_read:
  assumes laws: "kube_laws (rc_Client r) content" and h: "kube_healthy (rc_Client r) content"
    and own: "owner_law (rc_Client r)" "owner_total (rc_Client r)" and wf: "cluster_wf cl"
    and ss: "find_schedule cl ns n = Some ss"
  shows "csp content (reconcile_read r ctx ns n) cl (\<lambda>out _. \<exists>now ws. out = Inr (Some (ss, now, ws)))"
proof -
  have k: "ss_Namespace ss = ns" "ss_Name ss = n" using wf ss by (auto simp: cluster_wf_def find_schedule_def)
  show ?thesis unfolding reconcile_read_def
  proof (rule csp_try, rule live_get [OF kube_lawsD(1) [OF laws] kube_healthyD(1) [OF h]], goal_cases)
    case 1 then show ?case using ss by simp
  next
    case (2 ss')
    then have e: "ss' = ss" using ss by simp
    have rest: "csp content (bind_p (reconciler_now r) (\<lambda>now. bind_p (processWakeEntries r ctx ss now) (\<lambda>ws.
        return_p (Some (ss, now, ws))))) cl' (\<lambda>out _. \<exists>now ws. out = Inr (Some (ss, now, ws)))"
      if "cluster_wf cl'" for cl'
      by (rule csp_bind, rule csp_clock, unfold sum.case, rule csp_bind,
          rule csp_mono [OF live_processWake [OF laws h that]]) (auto intro!: csp_rules)
    show ?case unfolding e sum.case
      by (rule csp_bind, rule csp_wf [OF laws], rule csp_mono [OF live_ensure [OF laws h own]])
        (auto intro: rest)
  qed
qed

lemma live_reconcile_apply:
  fixes r :: "'w reconciler"
  assumes laws: "kube_laws (rc_Client r) content" and h: "kube_healthy (rc_Client r) content"
    and wf: "cluster_wf cl" and ss: "find_schedule cl (ss_Namespace ss) (ss_Name ss) = Some ss"
    and tgt: "resolvable (rc_Client r) (sp_Target (ss_Spec ss))"
    and pass: "\<And>refs a f asleep. set refs = stored_refs cl (wanted (rc_Client r) (ss_Spec ss)) \<Longrightarrow>
      csp content (Apply (reconcile_sleeper r a f) ctx ss asleep refs) cl
        (\<lambda>out cl'. out = Inr () \<and> cl_schedule cl' = cl_schedule cl)"
  shows "csp content (reconcile_apply r ctx ss now ws res) cl (\<lambda>out _. \<exists>cr. out = Inr cr \<and> \<not> cr_Requeue cr)"
proof -
  let ?r = "\<lparr>rv_Client = rc_Client r, rv_Registry = Some Default_registry\<rparr> :: 'w resolver"
  have reg: "resolver_registry ?r = Default_registry" by (simp add: resolver_registry_def)
  have res: "total_prog (Resolve ?r (ss_Spec ss))"
    by (rule total_Resolve [of _ content]) (simp_all add: h tgt reg)
  have status: "csp content (write_status r ss phase nx k \<lparr>cr_Requeue = False, cr_RequeueAfter = d\<rparr>) cl'
      (\<lambda>out _. \<exists>cr. out = Inr cr \<and> \<not> cr_Requeue cr)"
    if "cl_schedule cl' = cl_schedule cl" for phase nx k d cl'
    by (rule csp_mono [OF live_write_status [OF laws h]]) (use ss that in \<open>auto simp: find_schedule_def\<close>)
  show ?thesis unfolding reconcile_apply_def Let_def
  proof (rule csp_bind, rule live_total, simp only: res, rule csp_Resolve, goal_cases)
    case 1 then show ?case using laws by simp
  next
    case 2 then show ?case by (rule reg)
  next
    case 3 then show ?case by (rule wf)
  next
    case (4 e) then show ?case by simp
  next
    case (5 refs unh)
    then have refs: "set refs = stored_refs cl (wanted (rc_Client r) (ss_Spec ss))" by (simp add: wanted_refs)
    show ?case unfolding sum.case sum.inject all_simps simp_thms prod.case
      by (rule csp_bind, rule csp_report, unfold sum.case, rule csp_bind, rule csp_try,
          rule csp_mono [OF pass [OF refs]])
        (auto intro!: csp_bind csp_return csp_push status)
  qed
qed

section \<open>What an asleep phase says\<close>

lemma slept_same: "cl_obj cl' = cl_obj cl \<Longrightarrow> slept_obj sch x cl' = slept_obj sch x cl"
  by (simp add: slept_obj_def)



lemma settled_same:
  assumes "cl_obj cl' = cl_obj cl" and "cl_secret cl' = cl_secret cl"
  shows "settled st sch x cl' = settled st sch x cl"
proof -
  have "entry st sch (key_for x) cl' = entry st sch (key_for x) cl"
    by (simp add: assms(2) secret_entry_def find_secret_def)
  then show ?thesis unfolding settled_def safe_cl_same(1) [OF assms] slept_same [OF assms(1)] by simp
qed

lemma asleep_phase:
  assumes "Evaluate L spec now = Some (Inr res)"
  shows "effective_phase res f = PhaseAsleep \<longleftrightarrow> \<not> er_Awake res \<and> \<not> f"
  using Evaluate_phase [OF assms] by (auto simp: effective_phase_def phaseFor_def phase_defs)

lemma csp_Apply_slept:
  fixes r :: "'w reconciler"
  assumes laws: "kube_laws (rc_Client r) content" and dry: "\<not> sp_DryRun (ss_Spec sch)"
    and wf: "cluster_wf cl" and dns: "dns_cluster cl" and x: "obj_wf x" and ok: "sleepable sch x"
    and s: "settled (reconcile_store r) sch x cl" and refs: "set refs \<subseteq> stored_refs cl P"
  shows "csp content (Apply (reconcile_sleeper r a f) ctx sch asleep refs) cl (\<lambda>out cl'.
    cl_schedule cl' = cl_schedule cl
    \<and> (\<forall>u. out = Inr u \<longrightarrow> asleep \<longrightarrow> ref_of x \<in> set refs \<longrightarrow> slept_obj sch x cl'))"
proof -
  let ?sl = "reconcile_sleeper r a f"
  have sl: "kube_laws (sl_Client ?sl) content" "sr_Client (sl_Store ?sl) = sl_Client ?sl"
    "sl_Store ?sl = reconcile_store r" "sleeper_registry ?sl = Default_registry"
    using laws by (simp_all add: reconcile_sleeper_def reconcile_store_def sleeper_registry_def)
  have "safe_cl (reconcile_store r) sch x cl" using s by (simp add: settled_def)
  then obtain y where "cl_obj cl (key_of x) = Some y" "ref_of y = ref_of x" by (rule safe_obj)
  then have xdns: "dns_ref (ref_of x)" using dns_clusterD [OF dns, of "key_of x" y] by simp
  note rdns = targets_dns [OF dns refs]
  have slept: "csp content (apply_refs ?sl Default_registry c sch asleep refs) cl
      (\<lambda>out cl'. \<forall>u. out = Inr u \<longrightarrow> asleep \<longrightarrow> ref_of x \<in> set refs \<longrightarrow> slept_obj sch x cl')" for c
  proof (cases asleep)
    case True
    have "csp content (apply_refs ?sl Default_registry c sch True refs) cl
        (\<lambda>out cl'. \<forall>u. out = Inr u \<longrightarrow> asleep \<longrightarrow> ref_of x \<in> set refs \<longrightarrow> slept_obj sch x cl')"
      by (rule csp_mono, rule apply_refs_slept [OF sl(1,2) dry ok x xdns rdns s [folded sl(3)] wf]) simp
    with True show ?thesis by simp
  next
    case False
    then show ?thesis by (simp add: csp_def wp_def case_prod_beta)
  qed
  show ?thesis unfolding Apply_def sl(4)
    by (rule csp_mono [OF csp_conj [OF apply_keeps_names [OF sl(1,2) rdns dns wf] slept]]) auto
qed

lemma Reconcile_asleep:
  assumes "kube_laws (rc_Client r) content" and "owner_law (rc_Client r)"
    and "\<not> sp_DryRun (ss_Spec sch)" and "obj_wf x" and "wanted (rc_Client r) (ss_Spec sch) x"
    and "sleepable sch x" and "settled (reconcile_store r) sch x (content (st_api s))"
    and "dns_cluster (content (st_api s))"
    and "find_schedule (content (st_api s)) (ss_Namespace sch) (ss_Name sch) = Some sch"
    and "Reconcile r ctx (ss_Namespace sch) (ss_Name sch) s = Some (Inr cr, s')" and "\<not> cr_Requeue cr"
    and "find_schedule (content (st_api s')) (ss_Namespace sch) (ss_Name sch) = Some t"
    and "ss_Phase (ss_Status t) = PhaseAsleep"
  shows "slept_obj sch x (content (st_api s'))"
  using assms(1,2) TrueI TrueI assms(10)
proof (cases rule: Reconcile_split [where Q = "\<lambda>_. True"])
  case stopped
  then show ?thesis using assms(9) by auto
next
  case (acted ss now ws res s1)
  let ?c1 = "content (st_api s1)" and ?forced = "0 < ws_ActiveCount ws"
  have ss: "ss = sch" using acted(1) assms(9) by simp
  have c1: "dns_cluster ?c1" "settled (reconcile_store r) sch x ?c1" "cluster_wf ?c1"
    using assms(7,8) kube_lawsD(19) [OF assms(1)] acted(10)
    unfolding settled_same [OF acted(10,11)] dns_cluster_def by simp_all
  have safe: "safe_cl (reconcile_store r) sch x ?c1" using c1(2) by (simp add: settled_def)
  have f: "find_schedule ?c1 (ss_Namespace sch) (ss_Name sch) = Some sch"
    using acted(9) assms(9) by (simp add: find_schedule_def)
  have "csp content (reconcile_apply r ctx sch now ws res) ?c1 (\<lambda>out cl'. \<forall>cr t. out = Inr cr \<longrightarrow> \<not> cr_Requeue cr \<longrightarrow>
      find_schedule cl' (ss_Namespace sch) (ss_Name sch) = Some t \<longrightarrow> ss_Phase (ss_Status t) = PhaseAsleep \<longrightarrow>
      slept_obj sch x cl')"
  proof (rule csp_reconcile_apply [OF assms(1) c1(3) f, where M = "\<lambda>refs out cl'.
        cl_schedule cl' = cl_schedule ?c1 \<and> (\<forall>u. out = Inr u \<longrightarrow> \<not> er_Awake res \<and> \<not> ?forced \<longrightarrow>
          ref_of x \<in> set refs \<longrightarrow> slept_obj sch x cl')"], goal_cases)
    case (1 refs asleep forced)
    then have "set refs \<subseteq> stored_refs ?c1 (wanted (rc_Client r) (ss_Spec sch))" by simp
    from csp_Apply_slept [OF assms(1,3) c1(3,1) assms(4,6) c1(2) this] show ?case
      by (rule csp_mono) (use 1 in auto)
  next
    case (6 refs cl')
    have "ref_of x \<in> set refs" using wanted_is_target [OF safe assms(5)] 6(1) by simp
    with 6(2) show ?case
      by (auto simp: find_schedule_def asleep_phase [OF acted(6)] slept_obj_def)
  qed simp_all
  from cspD [OF this acted(7) [unfolded ss]] assms(11-13) show ?thesis by simp
qed

text \<open>
  C10: A schedule that is reported asleep has put its workloads to sleep: when a pass that is no dry run
  succeeds and leaves the phase \<open>Asleep\<close> in the status, every workload the schedule wants is in its
  sleeping form, if the pass found it as it was or asleep with its original recorded. The exceptions: a StatefulSet or a Job held back by its guard; a DaemonSet whose own node selector
  carries the sentinel key; a CronJob, Job or HPA whose sleep was interrupted before, that is one with
  an entry in the store that is awake.
\<close>

theorem reconcile_sleeps:
  assumes "kube_laws (rc_Client r) content" and "owner_law (rc_Client r)"
    and "\<not> sp_DryRun (ss_Spec sch)" and "obj_wf x" and "wanted (rc_Client r) (ss_Spec sch) x"
    and "sleepable sch x" and "settled (reconcile_store r) sch x (content (st_api s))"
    and "dns_cluster (content (st_api s))"
    and "find_schedule (content (st_api s)) (ss_Namespace sch) (ss_Name sch) = Some sch"
    and "Reconcile r ctx (ss_Namespace sch) (ss_Name sch) s = Some (Inr cr, s')" and "\<not> cr_Requeue cr"
    and "find_schedule (content (st_api s')) (ss_Namespace sch) (ss_Name sch) = Some t"
    and "ss_Phase (ss_Status t) = ''Asleep''"
  shows "\<exists>y. cl_obj (content (st_api s')) (key_of x) = Some y \<and> norm_obj y = norm_obj (doze sch x)"
  using Reconcile_asleep [OF assms(1-12)] assms(13) by (simp add: slept_obj_def phase_defs)

lemma night_asleep:
  "\<exists>cr s t. night = Some (Inr cr, s) \<and> \<not> cr_Requeue cr
     \<and> find_schedule (mem_content (st_api s)) ''team-a'' ''office'' = Some t \<and> ss_Phase (ss_Status t) = ''Asleep''"
proof -
  have "case night of Some (Inr cr, s) \<Rightarrow> \<not> cr_Requeue cr
      \<and> map_option (\<lambda>t. ss_Phase (ss_Status t)) (find_schedule (mem_content (st_api s)) ''team-a'' ''office'')
          = Some ''Asleep'' | _ \<Rightarrow> False"
    by code_simp
  from returned [OF this] show ?thesis by auto
qed

theorem reconcile_sleeps_witness:
  "\<exists>cr s' y. night = Some (Inr cr, s')
     \<and> cl_obj (mem_content (st_api s')) (key_of (KDeployment demo_deployment)) = Some y
     \<and> norm_obj y = norm_obj (doze office_hours (KDeployment demo_deployment))
     \<and> doze office_hours (KDeployment demo_deployment) = KDeployment (demo_deployment\<lparr>dp_Replicas := Some 0\<rparr>)"
proof -
  let ?x = "KDeployment demo_deployment" and ?s = "mem_state idle_mem" and ?st = "reconcile_store (clocked 345600)"
  have n: "ss_Namespace office_hours = ''team-a''" "ss_Name office_hours = ''office''"
    by (simp_all add: office_hours_def)
  have start: "\<not> sp_DryRun (ss_Spec office_hours)" "obj_wf ?x"
    and ok: "sleepable office_hours ?x"
    and x: "cl_obj (mem_content (st_api ?s)) (key_of ?x) = Some ?x"
      "entry ?st office_hours (key_for ?x) (mem_content (st_api ?s)) = None"
    and d: "doze office_hours ?x = KDeployment (demo_deployment\<lparr>dp_Replicas := Some 0\<rparr>)"
    by code_simp+
  have s: "settled ?st office_hours ?x (mem_content (st_api ?s))"
    using x by (auto simp: settled_def safe_cl_def)
  from night_asleep obtain cr s' t where p: "night = Some (Inr cr, s')" "\<not> cr_Requeue cr"
    "find_schedule (mem_content (st_api s')) ''team-a'' ''office'' = Some t" "ss_Phase (ss_Status t) = ''Asleep''"
    by blast
  from reconcile_sleeps [OF clocked_laws(1,2) start office_wants ok s idle_dns, unfolded n, OF idle_schedule
      p(1) [unfolded night_def] p(2-4)] p(1) d
  show ?thesis by blast
qed

section \<open>A healthy pass completes\<close>

text \<open>Every workload the schedule wants has its original at hand.\<close>

definition all_at_hand :: "'w reconciler \<Rightarrow> sleep_schedule \<Rightarrow> cluster \<Rightarrow> bool" where
  "all_at_hand r sch cl \<longleftrightarrow> dns_cluster cl
     \<and> (\<forall>y. cl_obj cl (key_of y) = Some y \<longrightarrow> wanted (rc_Client r) (ss_Spec sch) y \<longrightarrow>
          (\<exists>x. ref_of x = ref_of y \<and> obj_wf x \<and> safe_cl (reconcile_store r) sch x cl))"

lemma all_at_hand_refs:
  assumes "all_at_hand r sch cl" and "set refs = stored_refs cl (wanted (rc_Client r) (ss_Spec sch))"
  shows "at_hand (reconcile_store r) sch refs cl"
  unfolding at_hand_def
proof
  fix ref assume "ref \<in> set refs"
  then obtain y where y: "cl_obj cl (key_of y) = Some y" "wanted (rc_Client r) (ss_Spec sch) y" "ref = ref_of y"
    using assms(2) by (auto simp: stored_refs_def)
  then show "dns_ref ref \<and> (\<exists>x. ref_of x = ref \<and> obj_wf x \<and> safe_cl (reconcile_store r) sch x cl)"
    using assms(1) dns_clusterD unfolding all_at_hand_def by blast
qed

lemma healthy_returns:
  fixes r :: "'w reconciler"
  assumes laws: "kube_laws (rc_Client r) content" and h: "kube_healthy (rc_Client r) content"
    and own: "owner_law (rc_Client r)" "owner_total (rc_Client r)"
    and dry: "\<not> sp_DryRun (ss_Spec sch)" and tgt: "resolvable (rc_Client r) (sp_Target (ss_Spec sch))"
    and loc: "k_LoadLocation (rc_Client r) (sp_Timezone (ss_Spec sch)) = Some loc" "offsets_within_a_day loc"
    and ss: "find_schedule (content (st_api s)) (ss_Namespace sch) (ss_Name sch) = Some sch"
    and hand: "all_at_hand r sch (content (st_api s))"
  shows "\<exists>cr s'. Reconcile r ctx (ss_Namespace sch) (ss_Name sch) s = Some (Inr cr, s') \<and> \<not> cr_Requeue cr"
proof -
  let ?cl = "content (st_api s)" and ?k = "reconcile_read r ctx (ss_Namespace sch) (ss_Name sch)"
  have wf: "cluster_wf (content w)" for w using kube_lawsD(19) [OF laws] by simp
  obtain out s1 where rd: "?k s = (out, s1)" by fastforce
  obtain now ws where out: "out = Inr (Some (sch, now, ws))"
    using cspD [OF live_read [OF laws h own wf ss] rd] by blast
  have "read_result r (ss_Namespace sch) (ss_Name sch) (\<lambda>_. True) ?cl out (content (st_api s1))"
    by (rule cspD [OF csp_read [OF laws own(1) wf] rd]) simp_all
  then have same: "cl_schedule (content (st_api s1)) = cl_schedule ?cl" "cl_obj (content (st_api s1)) = cl_obj ?cl"
    "cl_secret (content (st_api s1)) = cl_secret ?cl" by (simp_all add: read_result_def)
  have hand1: "all_at_hand r sch (content (st_api s1))"
    using hand unfolding all_at_hand_def safe_cl_same(1) [OF same(2,3)] dns_cluster_def same(2) .
  obtain res where ev: "Evaluate (k_LoadLocation (rc_Client r)) (ss_Spec sch) now = Some (Inr res)"
    by (rule Evaluate_answers [of "k_LoadLocation (rc_Client r)" "ss_Spec sch", OF loc])
  have pass: "csp content (Apply (reconcile_sleeper r a f) ctx sch asleep refs) (content (st_api s1))
      (\<lambda>out cl'. out = Inr () \<and> cl_schedule cl' = cl_schedule (content (st_api s1)))"
    if refs: "set refs = stored_refs (content (st_api s1)) (wanted (rc_Client r) (ss_Spec sch))" for refs a f asleep
  proof -
    let ?sl = "reconcile_sleeper r a f"
    have sl: "kube_laws (sl_Client ?sl) content" "kube_healthy (sl_Client ?sl) content"
      "sr_Client (sl_Store ?sl) = sl_Client ?sl" "sl_Store ?sl = reconcile_store r"
      "sleeper_registry ?sl = Default_registry"
      using laws h by (simp_all add: reconcile_sleeper_def reconcile_store_def sleeper_registry_def)
    note ah = all_at_hand_refs [OF hand1 refs]
    have d: "dns_cluster (content (st_api s1))" using hand1 by (simp add: all_at_hand_def)
    have rd: "\<forall>ref \<in> set refs. dns_ref ref" using ah by (simp add: at_hand_def)
    show ?thesis unfolding Apply_def sl(5)
      by (rule csp_mono [OF csp_conj [OF apply_refs_succeeds [OF sl(1-3) dry ah [folded sl(4)] wf]
            apply_keeps_names [OF sl(1,3) rd d wf]]]) simp
  qed
  obtain cr s' where "reconcile_apply r ctx sch now ws res s1 = (Inr cr, s')" "\<not> cr_Requeue cr"
  proof -
    obtain o2 s2 where o2: "reconcile_apply r ctx sch now ws res s1 = (o2, s2)" by fastforce
    have "find_schedule (content (st_api s1)) (ss_Namespace sch) (ss_Name sch) = Some sch"
      using ss same(1) by (simp add: find_schedule_def)
    from cspD [OF live_reconcile_apply [OF laws h wf this tgt pass] o2] o2 show thesis by (auto intro: that)
  qed
  then show ?thesis using rd out ev by (simp add: Reconcile_def)
qed

lemma Reconcile_keeps_schedule:
  assumes laws: "kube_laws (rc_Client r) content" and own: "owner_law (rc_Client r)"
    and ss: "find_schedule (content (st_api s)) ns n = Some ss"
    and run: "Reconcile r ctx ns n s = Some (out, s')"
  shows "\<exists>t. find_schedule (content (st_api s')) ns n = Some t"
  using laws own TrueI TrueI run
proof (cases rule: Reconcile_split [where Q = "\<lambda>_. True"])
  case stopped
  then show ?thesis using ss by (simp add: find_schedule_def)
next
  case (acted ss' now ws res s1)
  let ?c1 = "content (st_api s1)"
  have wf: "cluster_wf ?c1" using kube_lawsD(19) [OF laws] by simp
  have f: "find_schedule ?c1 (ss_Namespace ss') (ss_Name ss') = Some ss'"
    using acted(1-3,9) by (simp add: find_schedule_def)
  have "csp content (reconcile_apply r ctx ss' now ws res) ?c1 (\<lambda>_ cl'. \<exists>t. find_schedule cl' ns n = Some t)"
    by (rule csp_reconcile_apply [OF laws wf f,
          where M = "\<lambda>refs out cl'. cl_schedule cl' = cl_schedule ?c1"],
        rule csp_Apply_frame [OF laws wf])
      (use f acted(2,3) in \<open>auto simp: frame_def entry_upd_def find_schedule_def\<close>)
  from cspD [OF this acted(7)] show ?thesis .
qed

text \<open>
  C4: Liveness: with an API that answers, a pass of an admissible schedule that is no dry run returns,
  reports no error, asks for no repetition and stores a status, from any state that earlier passes may
  have left, however they failed: of every wanted workload the original is stored or recorded. If its phase is not \<open>Asleep\<close>, all wanted workloads are
  their originals again. If it is \<open>Asleep\<close>, the wanted workloads are asleep, those whose sleep an earlier pass left unfinished
  included; but for a StatefulSet or a Job held back by its guard, a DaemonSet whose own node selector
  carries the sentinel key, and a CronJob, Job or HPA that is awake with an entry in the store.
\<close>

theorem healthy_reconcile_completes:
  assumes "kube_laws (rc_Client r) content" and "kube_healthy (rc_Client r) content"
    and "owner_law (rc_Client r)" and "owner_total (rc_Client r)"
    and "\<not> sp_DryRun (ss_Spec sch)" and "resolvable (rc_Client r) (sp_Target (ss_Spec sch))"
    and "k_LoadLocation (rc_Client r) (sp_Timezone (ss_Spec sch)) = Some loc" and "offsets_within_a_day loc"
    and "find_schedule (content (st_api s)) (ss_Namespace sch) (ss_Name sch) = Some sch"
    and "all_at_hand r sch (content (st_api s))"
  shows "\<exists>cr s' t. Reconcile r ctx (ss_Namespace sch) (ss_Name sch) s = Some (Inr cr, s') \<and> \<not> cr_Requeue cr
    \<and> find_schedule (content (st_api s')) (ss_Namespace sch) (ss_Name sch) = Some t
    \<and> (\<forall>x. obj_wf x \<and> wanted (rc_Client r) (ss_Spec sch) x \<and>
            safe_cl (reconcile_store r) sch x (content (st_api s)) \<longrightarrow>
         (if ss_Phase (ss_Status t) = ''Asleep''
          then settled (reconcile_store r) sch x (content (st_api s)) \<and> sleepable sch x \<longrightarrow>
            slept_obj sch x (content (st_api s'))
          else restored_cl (reconcile_store r) sch x (content (st_api s'))))"
proof -
  let ?cl = "content (st_api s)"
  obtain cr s' where run: "Reconcile r ctx (ss_Namespace sch) (ss_Name sch) s = Some (Inr cr, s')" "\<not> cr_Requeue cr"
    using healthy_returns [OF assms] by blast
  have dns: "dns_cluster ?cl" using assms(10) by (simp add: all_at_hand_def)
  have tr: "tracked r sch x ?cl" if "safe_cl (reconcile_store r) sch x ?cl" for x
    using that dns assms(9) by (simp add: tracked_def)
  obtain t where t: "find_schedule (content (st_api s')) (ss_Namespace sch) (ss_Name sch) = Some t"
    using Reconcile_keeps_schedule [OF assms(1,3,9) run(1)] by blast
  have given: "restored_cl (reconcile_store r) sch x (content (st_api s'))"
    if "ss_Phase (ss_Status t) \<noteq> ''Asleep''" "obj_wf x" "wanted (rc_Client r) (ss_Spec sch) x"
      "safe_cl (reconcile_store r) sch x ?cl" for x
    by (rule Reconcile_tracked(2) [OF assms(1,3,5) that(2) tr [OF that(4)] run(1) refl run(2) that(3) t])
      (use that(1) in \<open>simp add: phase_defs\<close>)
  have asleep: "slept_obj sch x (content (st_api s'))"
    if "ss_Phase (ss_Status t) = ''Asleep''" "obj_wf x" "wanted (rc_Client r) (ss_Spec sch) x"
      "settled (reconcile_store r) sch x ?cl" "sleepable sch x" for x
    by (rule Reconcile_asleep [OF assms(1,3,5) that(2,3,5,4) dns assms(9) run t])
      (use that(1) in \<open>simp add: phase_defs\<close>)
  show ?thesis
    by (intro exI [of _ cr] exI [of _ s'] exI [of _ t]) (use run t given asleep in auto)
qed

text \<open>
  A night's pass was cut short: the Deployment sleeps and its original is recorded, the HPA was not
  reached. The API answers again, and it is day. Or the pass was cut short after the Deployment's
  original was recorded and before it was patched, and it is still night.
\<close>

definition calm_reconciler :: "mem reconciler" where
  "calm_reconciler = mem_reconciler\<lparr>rc_Client := calm_client\<rparr>"

definition cut_short :: mem where
  "cut_short = idle_mem\<lparr>
     mm_objs := [KHPA demo_hpa, KDeployment (demo_deployment\<lparr>dp_Replicas := Some 0\<rparr>)],
     mm_secrets := [\<lparr>sec_Name = secretName office_hours, sec_Namespace = ''nyx-system'', sec_Labels = [],
       sec_Data = [(key_for (KDeployment demo_deployment), ''3'')], sec_Version = 1\<rparr>],
     mm_version := 1, mm_clock := 378000 * d_Second\<rparr>"

definition still_night :: mem where
  "still_night = cut_short\<lparr>mm_objs := [KHPA demo_hpa, KDeployment demo_deployment], mm_clock := 345600 * d_Second\<rparr>"

lemma calm_reconciler_env:
  "kube_laws (rc_Client calm_reconciler) mem_content" "kube_healthy (rc_Client calm_reconciler) mem_content"
  "owner_law (rc_Client calm_reconciler)" "owner_total (rc_Client calm_reconciler)"
  "\<not> sp_DryRun (ss_Spec office_hours)" "resolvable (rc_Client calm_reconciler) (sp_Target (ss_Spec office_hours))"
  "k_LoadLocation (rc_Client calm_reconciler) (sp_Timezone (ss_Spec office_hours)) = Some utc_location"
  "offsets_within_a_day utc_location"
proof -
  have c: "rc_Client calm_reconciler = calm_client" by (simp add: calm_reconciler_def)
  show "kube_laws (rc_Client calm_reconciler) mem_content" "kube_healthy (rc_Client calm_reconciler) mem_content"
    by (simp_all only: c calm_kube_laws calm_kube_healthy)
  show "owner_law (rc_Client calm_reconciler)" "owner_total (rc_Client calm_reconciler)"
    by (auto simp: c owner_law_def owner_total_def calm_client_def mem_client_def)
  show "\<not> sp_DryRun (ss_Spec office_hours)" "resolvable (rc_Client calm_reconciler) (sp_Target (ss_Spec office_hours))"
    by (simp_all add: resolvable_def office_hours_def TargetModeNamespaces_def)
  show "k_LoadLocation (rc_Client calm_reconciler) (sp_Timezone (ss_Spec office_hours)) = Some utc_location"
    by (simp add: c calm_client_def mem_client_def office_hours_def go_LoadLocation_def)
  show "offsets_within_a_day utc_location" by (simp add: offsets_within_a_day_def utc_location_def tx_location_def)
qed

lemma cut_short_safe:
  assumes "x = KHPA demo_hpa \<or> x = KDeployment demo_deployment" and "m = cut_short \<or> m = still_night"
  shows "safe_cl (reconcile_store calm_reconciler) office_hours x (mem_content (st_api (mem_state m)))"
    and "obj_wf x"
proof -
  let ?cl = "mem_content (st_api (mem_state m))" and ?st = "reconcile_store calm_reconciler"
  have d: "cl_obj (mem_content (st_api (mem_state cut_short))) (key_of (KDeployment demo_deployment))
      = Some (doze office_hours (KDeployment demo_deployment))"
    and n: "cl_obj (mem_content (st_api (mem_state still_night))) (key_of (KDeployment demo_deployment))
      = Some (KDeployment demo_deployment)"
    by code_simp+
  have h: "cl_obj ?cl (key_of (KHPA demo_hpa)) = Some (KHPA demo_hpa)"
    "entry ?st office_hours (key_for (KHPA demo_hpa)) ?cl = None"
    and e: "entry ?st office_hours (key_for (KDeployment demo_deployment)) ?cl = Some (enc (KDeployment demo_deployment))"
    using assms(2) by (elim disjE; simp only:; code_simp)+
  have w: "obj_wf (KHPA demo_hpa)" "obj_wf (KDeployment demo_deployment)" by code_simp+
  show "safe_cl ?st office_hours x ?cl" "obj_wf x"
    using assms h d n e w unfolding safe_cl_def by blast+
qed

lemma office_wants_hpa: "wanted c (ss_Spec office_hours) (KHPA demo_hpa)"
proof -
  let ?x = "KHPA demo_hpa"
  have "tg_Mode (sp_Target (ss_Spec office_hours)) = TargetModeNamespaces"
    "om_Namespace (meta_of ?x) \<in> set (tg_Namespaces (sp_Target (ss_Spec office_hours)))"
    "kind_of ?x \<in> set supported_kinds" "sp_Kinds (ss_Spec office_hours) = []"
    "\<not> isExcluded (excludeSet (sp_ExcludeRefs (ss_Spec office_hours))) (ref_of ?x)" by code_simp+
  then show ?thesis unfolding wanted_def in_target_def by blast
qed

lemma cut_short_at_hand:
  assumes "m = cut_short \<or> m = still_night"
  shows "all_at_hand calm_reconciler office_hours (mem_content (st_api (mem_state m)))"
proof -
  have "\<forall>y \<in> set (map stored (mm_objs m)). dns_ref (ref_of y)
      \<and> (ref_of y = ref_of (KHPA demo_hpa) \<or> ref_of y = ref_of (KDeployment demo_deployment))"
    using assms by (elim disjE; simp only:; code_simp)
  then show ?thesis
    unfolding all_at_hand_def dns_cluster_def using mem_objs_only cut_short_safe [OF _ assms] by metis
qed

definition after_cut :: "mem \<Rightarrow> ((go_error + ctrl_result) \<times> mem state) option" where
  "after_cut m = Reconcile calm_reconciler None ''team-a'' ''office'' (mem_state m)"

lemma after_cut_phase:
  assumes "after_cut m = Some (Inr cr, s)" and "find_schedule (mem_content (st_api s)) ''team-a'' ''office'' = Some t"
  shows "m = cut_short \<Longrightarrow> ss_Phase (ss_Status t) = ''Awake''"
    and "m = still_night \<Longrightarrow> ss_Phase (ss_Status t) = ''Asleep''"
proof -
  let ?P = "\<lambda>m p. case after_cut m of Some (Inr cr, s) \<Rightarrow> map_option (\<lambda>t. ss_Phase (ss_Status t))
       (find_schedule (mem_content (st_api s)) ''team-a'' ''office'') = Some p | _ \<Rightarrow> False"
  have p: "?P cut_short ''Awake''" "?P still_night ''Asleep''" by code_simp+
  have eq: "?P m p = (ss_Phase (ss_Status t) = p)" for p
    unfolding assms(1) option.case prod.case sum.case assms(2) option.map option.inject ..
  show "m = cut_short \<Longrightarrow> ss_Phase (ss_Status t) = ''Awake''" using p(1) eq [of "''Awake''"] by (simp only:)
  show "m = still_night \<Longrightarrow> ss_Phase (ss_Status t) = ''Asleep''" using p(2) eq [of "''Asleep''"] by (simp only:)
qed

abbreviation "two_workloads \<equiv> {KHPA demo_hpa, KDeployment demo_deployment}"

lemma cut_short_wanted:
  assumes "y \<in> two_workloads" and "m = cut_short \<or> m = still_night"
  shows "obj_wf y \<and> wanted (rc_Client calm_reconciler) (ss_Spec office_hours) y
    \<and> safe_cl (reconcile_store calm_reconciler) office_hours y (mem_content (st_api (mem_state m)))"
  using assms(1) cut_short_safe [of y m, OF _ assms(2)] office_wants [of "rc_Client calm_reconciler"]
    office_wants_hpa [of "rc_Client calm_reconciler"] by blast

lemma still_night_settled:
  assumes "y \<in> two_workloads"
  shows "settled (reconcile_store calm_reconciler) office_hours y (mem_content (st_api (mem_state still_night)))
    \<and> sleepable office_hours y"
proof -
  have "entry (reconcile_store calm_reconciler) office_hours (key_for (KHPA demo_hpa))
      (mem_content (st_api (mem_state still_night))) = None" by code_simp
  then show ?thesis using assms cut_short_safe(1) [of y still_night] by (auto simp: settled_def)
qed

text \<open>
  By day the workloads are their originals again. By night both are asleep, the Deployment with its
  interrupted sleep too.
\<close>

theorem healthy_reconcile_completes_witness:
  "(\<exists>cr s'. after_cut cut_short = Some (Inr cr, s') \<and> \<not> cr_Requeue cr
      \<and> (\<forall>x \<in> {KHPA demo_hpa, KDeployment demo_deployment}.
           \<exists>y. cl_obj (mem_content (st_api s')) (key_of x) = Some y \<and> norm_obj y = norm_obj x))
   \<and> (\<exists>cr s'. after_cut still_night = Some (Inr cr, s') \<and> \<not> cr_Requeue cr
      \<and> (\<forall>x \<in> {KHPA demo_hpa, KDeployment demo_deployment}. slept_obj office_hours x (mem_content (st_api s'))))"
proof -
  let ?R = calm_reconciler and ?S = office_hours and ?C = "\<lambda>s. mem_content (st_api s)"
  have n: "ss_Namespace ?S = ''team-a''" "ss_Name ?S = ''office''" by (simp_all add: office_hours_def)
  have main: "\<exists>cr s' t. after_cut m = Some (Inr cr, s') \<and> \<not> cr_Requeue cr
      \<and> find_schedule (?C s') ''team-a'' ''office'' = Some t
      \<and> (\<forall>y \<in> two_workloads. if ss_Phase (ss_Status t) = ''Asleep''
         then settled (reconcile_store ?R) ?S y (?C (mem_state m)) \<and> sleepable ?S y \<longrightarrow> slept_obj ?S y (?C s')
         else restored_cl (reconcile_store ?R) ?S y (?C s'))"
    if m: "m = cut_short \<or> m = still_night" for m
  proof -
    have ss: "find_schedule (?C (mem_state m)) ''team-a'' ''office'' = Some ?S"
      using m by (elim disjE; simp only:; code_simp)
    note ready = cut_short_wanted [OF _ m]
    from healthy_reconcile_completes [OF calm_reconciler_env _ cut_short_at_hand [OF m], unfolded n, OF ss, of None]
    obtain cr s' t where "after_cut m = Some (Inr cr, s')" "\<not> cr_Requeue cr"
      "find_schedule (?C s') ''team-a'' ''office'' = Some t"
      and all: "\<And>y. obj_wf y \<and> wanted (rc_Client ?R) (ss_Spec ?S) y \<and> safe_cl (reconcile_store ?R) ?S y (?C (mem_state m)) \<Longrightarrow>
        if ss_Phase (ss_Status t) = ''Asleep''
        then settled (reconcile_store ?R) ?S y (?C (mem_state m)) \<and> sleepable ?S y \<longrightarrow> slept_obj ?S y (?C s')
        else restored_cl (reconcile_store ?R) ?S y (?C s')"
      unfolding after_cut_def by blast
    with all [OF ready] show ?thesis by blast
  qed
  obtain cr s' t where d: "after_cut cut_short = Some (Inr cr, s')" "\<not> cr_Requeue cr"
    "find_schedule (?C s') ''team-a'' ''office'' = Some t"
    and all: "\<forall>y \<in> two_workloads. \<not> ss_Phase (ss_Status t) = ''Asleep'' \<longrightarrow> restored_cl (reconcile_store ?R) ?S y (?C s')"
    using main [OF disjI1 [OF refl]] by metis
  have day: "\<forall>x \<in> two_workloads. \<exists>y. cl_obj (?C s') (key_of x) = Some y \<and> norm_obj y = norm_obj x"
    using all after_cut_phase(1) [OF d(1,3)] unfolding restored_cl_def by fastforce
  obtain cr2 s2 t2 where e: "after_cut still_night = Some (Inr cr2, s2)" "\<not> cr_Requeue cr2"
    "find_schedule (?C s2) ''team-a'' ''office'' = Some t2"
    and all2: "\<forall>y \<in> two_workloads. ss_Phase (ss_Status t2) = ''Asleep'' \<longrightarrow> slept_obj ?S y (?C s2)"
    using main [OF disjI2 [OF refl]] still_night_settled by metis
  have "\<forall>x \<in> two_workloads. slept_obj ?S x (?C s2)" using all2 after_cut_phase(2) [OF e(1,3)] by blast
  with d(1,2) day e(1,2) show ?thesis by blast
qed

end
