(* ===== verification/Workload_Idempotent.thy ===== *)
theory Workload_Idempotent
  imports Workload_Recovery
begin

text \<open>
  Idempotency: what a successful attempt on a workload leaves is at rest, an attempt on a workload at
  rest changes nothing, and so a pass that follows a successful one of the same kind changes nothing.
\<close>

section \<open>At rest\<close>

text \<open>Nothing is left to do for the stored object \<open>y\<close>.\<close>

fun rested :: "'w store \<Rightarrow> sleep_schedule \<Rightarrow> bool \<Rightarrow> kobj \<Rightarrow> cluster \<Rightarrow> bool" where
  "rested st sch False y cl \<longleftrightarrow> entry st sch (key_for y) cl = None"
| "rested st sch True (KDaemonSet d) cl \<longleftrightarrow> map_of (selector_entries (ds_NodeSelector d)) sentinelKey \<noteq> None"
| "rested st sch True (KStatefulSet s) cl \<longleftrightarrow> pvcDeletionRisk s \<and> \<not> allowsPVCDeletion s sch
     \<or> entry st sch (key_for (KStatefulSet s)) cl \<noteq> None \<and> replicasOf (sts_Replicas s) = sp_SleepReplicas (ss_Spec sch)"
| "rested st sch True (KDeployment d) cl \<longleftrightarrow>
     entry st sch (key_for (KDeployment d)) cl \<noteq> None \<and> replicasOf (dp_Replicas d) = sp_SleepReplicas (ss_Spec sch)"
| "rested st sch True (KJob j) cl \<longleftrightarrow> 0 < sint (jb_Active j) \<or> entry st sch (key_for (KJob j)) cl \<noteq> None"
| "rested st sch True y cl \<longleftrightarrow> entry st sch (key_for y) cl \<noteq> None"

definition at_rest :: "'w store \<Rightarrow> sleep_schedule \<Rightarrow> bool \<Rightarrow> wref \<Rightarrow> cluster \<Rightarrow> bool" where
  "at_rest st sch asleep ref cl \<longleftrightarrow> (\<forall>y. cl_obj cl (ref_key ref) = Some y \<longrightarrow> rested st sch asleep y cl)"

lemma rested_entry:
  "entry st sch (key_for y) cl' = entry st sch (key_for y) cl \<Longrightarrow> rested st sch asleep y cl \<Longrightarrow> rested st sch asleep y cl'"
  by (cases "(st, sch, asleep, y, cl)" rule: rested.cases) simp_all

lemma stored_kind:
  assumes "cluster_wf cl" and "cl_obj cl (ref_key ref) = Some y"
  shows "kind_of y = wr_Kind ref" and "key_of y = ref_key ref"
  using assms by (auto simp: cluster_wf_def ref_key_def key_of_def)

text \<open>The key that a handler computes from its ref and what it loaded.\<close>

lemma key_of_loaded:
  assumes "key_of y = ref_key ref"
  shows "Key (wr_Kind ref) (wr_Namespace ref) (wr_Name ref) (om_UID (meta_of y)) = key_for y"
  using assms by (simp add: key_of_def ref_key_def key_for_def)

text \<open>A load that finds nothing says that nothing is stored.\<close>

lemma nothing_stored:
  assumes "cluster_wf cl"
  shows "wr_Kind ref = KindDeployment \<Longrightarrow> find_deployment cl (wr_Namespace ref) (wr_Name ref) = None \<Longrightarrow> cl_obj cl (ref_key ref) = None"
    and "wr_Kind ref = KindStatefulSet \<Longrightarrow> find_stateful_set cl (wr_Namespace ref) (wr_Name ref) = None \<Longrightarrow> cl_obj cl (ref_key ref) = None"
    and "wr_Kind ref = KindCronJob \<Longrightarrow> find_cron_job cl (wr_Namespace ref) (wr_Name ref) = None \<Longrightarrow> cl_obj cl (ref_key ref) = None"
    and "wr_Kind ref = KindJob \<Longrightarrow> find_job cl (wr_Namespace ref) (wr_Name ref) = None \<Longrightarrow> cl_obj cl (ref_key ref) = None"
    and "wr_Kind ref = KindDaemonSet \<Longrightarrow> find_daemon_set cl (wr_Namespace ref) (wr_Name ref) = None \<Longrightarrow> cl_obj cl (ref_key ref) = None"
    and "wr_Kind ref = KindHPA \<Longrightarrow> find_hpa cl (wr_Namespace ref) (wr_Name ref) = None \<Longrightarrow> cl_obj cl (ref_key ref) = None"
proof -
  have kind: "kind_of y = wr_Kind ref" if "cl_obj cl (ref_key ref) = Some y" for y
    using assms that by (auto simp: cluster_wf_def ref_key_def key_of_def)
  have none: "cl_obj cl (ref_key ref) = None" if "\<And>y. cl_obj cl (ref_key ref) = Some y \<Longrightarrow> kind_of y = wr_Kind ref \<Longrightarrow> False"
    using that kind by (cases "cl_obj cl (ref_key ref)") auto
  note finds = find_deployment_def find_stateful_set_def find_cron_job_def find_job_def find_daemon_set_def find_hpa_def
  show "wr_Kind ref = KindDeployment \<Longrightarrow> find_deployment cl (wr_Namespace ref) (wr_Name ref) = None \<Longrightarrow> cl_obj cl (ref_key ref) = None"
    and "wr_Kind ref = KindStatefulSet \<Longrightarrow> find_stateful_set cl (wr_Namespace ref) (wr_Name ref) = None \<Longrightarrow> cl_obj cl (ref_key ref) = None"
    and "wr_Kind ref = KindCronJob \<Longrightarrow> find_cron_job cl (wr_Namespace ref) (wr_Name ref) = None \<Longrightarrow> cl_obj cl (ref_key ref) = None"
    and "wr_Kind ref = KindJob \<Longrightarrow> find_job cl (wr_Namespace ref) (wr_Name ref) = None \<Longrightarrow> cl_obj cl (ref_key ref) = None"
    and "wr_Kind ref = KindDaemonSet \<Longrightarrow> find_daemon_set cl (wr_Namespace ref) (wr_Name ref) = None \<Longrightarrow> cl_obj cl (ref_key ref) = None"
    and "wr_Kind ref = KindHPA \<Longrightarrow> find_hpa cl (wr_Namespace ref) (wr_Name ref) = None \<Longrightarrow> cl_obj cl (ref_key ref) = None"
    by (rule none, rename_tac y, case_tac y; simp add: ref_key_def kind_defs finds)+
qed

lemma stored_at:
  assumes "cluster_wf cl"
  shows "wr_Kind ref = KindDeployment \<Longrightarrow> find_deployment cl (wr_Namespace ref) (wr_Name ref) = Some y0 \<Longrightarrow>
      cl_obj cl (ref_key ref) = Some (KDeployment y0) \<and> key_of (KDeployment y0) = ref_key ref"
    and "wr_Kind ref = KindStatefulSet \<Longrightarrow> find_stateful_set cl (wr_Namespace ref) (wr_Name ref) = Some y1 \<Longrightarrow>
      cl_obj cl (ref_key ref) = Some (KStatefulSet y1) \<and> key_of (KStatefulSet y1) = ref_key ref"
    and "wr_Kind ref = KindCronJob \<Longrightarrow> find_cron_job cl (wr_Namespace ref) (wr_Name ref) = Some y2 \<Longrightarrow>
      cl_obj cl (ref_key ref) = Some (KCronJob y2) \<and> key_of (KCronJob y2) = ref_key ref"
    and "wr_Kind ref = KindJob \<Longrightarrow> find_job cl (wr_Namespace ref) (wr_Name ref) = Some y3 \<Longrightarrow>
      cl_obj cl (ref_key ref) = Some (KJob y3) \<and> key_of (KJob y3) = ref_key ref"
    and "wr_Kind ref = KindDaemonSet \<Longrightarrow> find_daemon_set cl (wr_Namespace ref) (wr_Name ref) = Some y4 \<Longrightarrow>
      cl_obj cl (ref_key ref) = Some (KDaemonSet y4) \<and> key_of (KDaemonSet y4) = ref_key ref"
    and "wr_Kind ref = KindHPA \<Longrightarrow> find_hpa cl (wr_Namespace ref) (wr_Name ref) = Some y5 \<Longrightarrow>
      cl_obj cl (ref_key ref) = Some (KHPA y5) \<and> key_of (KHPA y5) = ref_key ref"
  using found_obj [OF assms] by (simp_all add: ref_key_def kind_defs)

lemma load_kind:
  assumes "get_law content look get"
    and "look cl ns n = None \<Longrightarrow> cl_obj cl k = None"
    and "\<And>x. look cl ns n = Some x \<Longrightarrow> cl_obj cl k = Some (K x) \<and> key_of (K x) = k"
    and "\<And>e. P (Inl e) cl" and "cl_obj cl k = None \<Longrightarrow> P (Inr None) cl"
    and "\<And>d. cl_obj cl k = Some (K d) \<Longrightarrow> key_of (K d) = k \<Longrightarrow> P (Inr (Some d)) cl"
  shows "csp content (load_or_nil (call (get ns n))) cl P"
  by (rule csp_load [OF assms(1)]) (use assms(2-6) in auto)

lemma csp_stored_load:
  assumes laws: "kube_laws c content" and wf: "cluster_wf cl"
  shows "wr_Kind ref = KindDeployment \<Longrightarrow> (\<And>e. P (Inl e) cl) \<Longrightarrow> (cl_obj cl (ref_key ref) = None \<Longrightarrow> P (Inr None) cl) \<Longrightarrow>
      (\<And>d. cl_obj cl (ref_key ref) = Some (KDeployment d) \<Longrightarrow> key_of (KDeployment d) = ref_key ref \<Longrightarrow>
        P (Inr (Some (deployment_replica_obj d))) cl) \<Longrightarrow> csp content (loadDeployment c ref) cl P"
    and "wr_Kind ref = KindStatefulSet \<Longrightarrow> (\<And>e. P (Inl e) cl) \<Longrightarrow> (cl_obj cl (ref_key ref) = None \<Longrightarrow> P (Inr None) cl) \<Longrightarrow>
      (\<And>d. cl_obj cl (ref_key ref) = Some (KStatefulSet d) \<Longrightarrow> key_of (KStatefulSet d) = ref_key ref \<Longrightarrow>
        P (Inr (Some (stateful_set_replica_obj d))) cl) \<Longrightarrow> csp content (loadStatefulSet c ref) cl P"
    and "wr_Kind ref = KindCronJob \<Longrightarrow> (\<And>e. Q (Inl e) cl) \<Longrightarrow> (cl_obj cl (ref_key ref) = None \<Longrightarrow> Q (Inr None) cl) \<Longrightarrow>
      (\<And>d. cl_obj cl (ref_key ref) = Some (KCronJob d) \<Longrightarrow> key_of (KCronJob d) = ref_key ref \<Longrightarrow>
        Q (Inr (Some d)) cl) \<Longrightarrow> csp content (loadCronJob c ref) cl Q"
    and "wr_Kind ref = KindJob \<Longrightarrow> (\<And>e. R (Inl e) cl) \<Longrightarrow> (cl_obj cl (ref_key ref) = None \<Longrightarrow> R (Inr None) cl) \<Longrightarrow>
      (\<And>d. cl_obj cl (ref_key ref) = Some (KJob d) \<Longrightarrow> key_of (KJob d) = ref_key ref \<Longrightarrow>
        R (Inr (Some d)) cl) \<Longrightarrow> csp content (loadJob c ref) cl R"
    and "wr_Kind ref = KindDaemonSet \<Longrightarrow> (\<And>e. S (Inl e) cl) \<Longrightarrow> (cl_obj cl (ref_key ref) = None \<Longrightarrow> S (Inr None) cl) \<Longrightarrow>
      (\<And>d. cl_obj cl (ref_key ref) = Some (KDaemonSet d) \<Longrightarrow> key_of (KDaemonSet d) = ref_key ref \<Longrightarrow>
        S (Inr (Some d)) cl) \<Longrightarrow> csp content (getDaemonSet c ref) cl S"
    and "wr_Kind ref = KindHPA \<Longrightarrow> (\<And>e. T (Inl e) cl) \<Longrightarrow> (cl_obj cl (ref_key ref) = None \<Longrightarrow> T (Inr None) cl) \<Longrightarrow>
      (\<And>d. cl_obj cl (ref_key ref) = Some (KHPA d) \<Longrightarrow> key_of (KHPA d) = ref_key ref \<Longrightarrow>
        T (Inr (Some d)) cl) \<Longrightarrow> csp content (loadHPA c ref) cl T"
    and "wr_Kind ref = KindStatefulSet \<Longrightarrow> (\<And>e. U (Inl e) cl) \<Longrightarrow> (cl_obj cl (ref_key ref) = None \<Longrightarrow> U (Inr None) cl) \<Longrightarrow>
      (\<And>d. cl_obj cl (ref_key ref) = Some (KStatefulSet d) \<Longrightarrow> key_of (KStatefulSet d) = ref_key ref \<Longrightarrow>
        U (Inr (Some d)) cl) \<Longrightarrow>
      csp content (load_or_nil (call (k_get_stateful_set c (wr_Namespace ref) (wr_Name ref)))) cl U"
  unfolding loadDeployment_def loadStatefulSet_def loadCronJob_def loadJob_def getDaemonSet_def loadHPA_def
proof (goal_cases)
  case 1
  note k = nothing_stored(1) [OF wf 1(1)] stored_at(1) [OF wf 1(1)]
  show ?case by (rule csp_bind, rule load_kind [OF kube_lawsD(10) [OF laws] k]) (use 1 in \<open>auto intro!: csp_rules\<close>)
next
  case 2
  note k = nothing_stored(2) [OF wf 2(1)] stored_at(2) [OF wf 2(1)]
  show ?case by (rule csp_bind, rule load_kind [OF kube_lawsD(11) [OF laws] k]) (use 2 in \<open>auto intro!: csp_rules\<close>)
next
  case 3
  note k = nothing_stored(3) [OF wf 3(1)] stored_at(3) [OF wf 3(1)]
  show ?case by (rule load_kind [OF kube_lawsD(13) [OF laws] k]) (use 3 in \<open>auto intro!: csp_rules\<close>)
next
  case 4
  note k = nothing_stored(4) [OF wf 4(1)] stored_at(4) [OF wf 4(1)]
  show ?case by (rule load_kind [OF kube_lawsD(14) [OF laws] k]) (use 4 in \<open>auto intro!: csp_rules\<close>)
next
  case 5
  note k = nothing_stored(5) [OF wf 5(1)] stored_at(5) [OF wf 5(1)]
  show ?case by (rule load_kind [OF kube_lawsD(12) [OF laws] k]) (use 5 in \<open>auto intro!: csp_rules\<close>)
next
  case 6
  note k = nothing_stored(6) [OF wf 6(1)] stored_at(6) [OF wf 6(1)]
  show ?case by (rule load_kind [OF kube_lawsD(15) [OF laws] k]) (use 6 in \<open>auto intro!: csp_rules\<close>)
next
  case 7
  note k = nothing_stored(2) [OF wf 7(1)] stored_at(2) [OF wf 7(1)]
  show ?case by (rule load_kind [OF kube_lawsD(11) [OF laws] k]) (use 7 in \<open>auto intro!: csp_rules\<close>)
qed

section \<open>Nothing to do, nothing done\<close>

lemma csp_option:
  "(ox = None \<Longrightarrow> csp content m cl P) \<Longrightarrow> (\<And>x. ox = Some x \<Longrightarrow> csp content (f x) cl P) \<Longrightarrow>
   csp content (case ox of None \<Rightarrow> m | Some x \<Rightarrow> f x) cl P"
  by (cases ox) simp_all

definition finds :: "('w \<Rightarrow> cluster) \<Rightarrow> 'w kube \<Rightarrow> 'w load_func \<Rightarrow> wref \<Rightarrow> cluster \<Rightarrow> bool" where
  "finds content c load ref cl \<longleftrightarrow> (\<forall>P. (\<forall>e. P (Inl e) cl) \<longrightarrow>
     (cl_obj cl (ref_key ref) = None \<longrightarrow> P (Inr None) cl) \<longrightarrow>
     (\<forall>y. cl_obj cl (ref_key ref) = Some y \<longrightarrow> key_of y = ref_key ref \<longrightarrow> replica_kind y \<longrightarrow>
        P (Inr (Some (replica_obj_of y))) cl) \<longrightarrow>
     csp content (load c ref) cl P)"

lemma finds_own:
  assumes "kube_laws c content" and "cluster_wf cl"
  shows "wr_Kind ref = KindDeployment \<Longrightarrow> finds content c loadDeployment ref cl"
    and "wr_Kind ref = KindStatefulSet \<Longrightarrow> finds content c loadStatefulSet ref cl"
  unfolding finds_def
  by (intro allI impI csp_stored_load(1) [OF assms]; fastforce)
    (intro allI impI csp_stored_load(2) [OF assms]; fastforce)

text \<open>With no entry, restoring does nothing.\<close>

definition unrecorded :: "'w store \<Rightarrow> sleep_schedule \<Rightarrow> wref \<Rightarrow> cluster \<Rightarrow> bool" where
  "unrecorded st sch ref cl \<longleftrightarrow> (\<forall>y. cl_obj cl (ref_key ref) = Some y \<longrightarrow> entry st sch (key_for y) cl = None)"

lemma unrecorded_rest: "at_rest st sch False ref cl = unrecorded st sch ref cl"
  by (simp add: at_rest_def unrecorded_def)

lemma csp_no_entry:
  assumes "kube_laws (sr_Client st) content" and "entry st sch key cl = None" and "F None = return_p ()"
  shows "csp content (bind_p (GetRaw st sch key) F) cl (\<lambda>_ cl'. cl' = cl)"
  by (rule csp_bind, rule csp_GetRaw [OF assms(1)]) (use assms(2,3) in \<open>auto intro!: csp_rules\<close>)

lemma csp_has_entry:
  assumes "kube_laws (sr_Client st) content" and "entry st sch key cl \<noteq> None" and "\<And>v. F (Some v) = return_p ()"
  shows "csp content (bind_p (GetRaw st sch key) F) cl (\<lambda>_ cl'. cl' = cl)"
  by (rule csp_bind, rule csp_GetRaw [OF assms(1)]) (use assms(2,3) in \<open>auto intro!: csp_rules\<close>)

lemma restoreReplica_rest:
  assumes laws: "kube_laws (sr_Client st) content" and find: "finds content (sr_Client st) load ref cl"
    and rest: "unrecorded st sch ref cl"
  shows "csp content (restoreReplica load (sr_Client st) ctx rec st sch ref) cl (\<lambda>_ cl'. cl' = cl)"
  unfolding restoreReplica_def Let_def
proof (rule csp_bind, rule find [unfolded finds_def, rule_format], goal_cases)
  case (3 y)
  note key = key_of_loaded [OF 3(2)]
  have e: "entry st sch (key_for y) cl = None" using rest 3(1) by (simp add: unrecorded_def)
  show ?case unfolding sum.case option.case replica_facts(9) [OF 3(3)] key
    by (rule csp_bind, rule csp_Get [OF laws]) (use e in \<open>auto intro!: csp_rules\<close>)
qed (auto intro!: csp_rules)

definition replica_rest :: "'w store \<Rightarrow> sleep_schedule \<Rightarrow> wref \<Rightarrow> cluster \<Rightarrow> bool" where
  "replica_rest st sch ref cl \<longleftrightarrow> (\<forall>y. cl_obj cl (ref_key ref) = Some y \<longrightarrow>
     entry st sch (key_for y) cl \<noteq> None \<and> replica_count y = sp_SleepReplicas (ss_Spec sch))"

lemma sleepReplica_rest:
  assumes laws: "kube_laws (sr_Client st) content" and find: "finds content (sr_Client st) load ref cl"
    and rest: "replica_rest st sch ref cl"
  shows "csp content (sleepReplica load (sr_Client st) ctx rec st sch ref) cl (\<lambda>_ cl'. cl' = cl)"
  unfolding sleepReplica_def Let_def
proof (rule csp_bind, rule find [unfolded finds_def, rule_format], goal_cases)
  case (3 y)
  note key = key_of_loaded [OF 3(2)] and r = rest [unfolded replica_rest_def, rule_format, OF 3(1)]
  show ?case unfolding sum.case option.case replica_facts(9,10) [OF 3(3)] key
    by (rule csp_bind, rule csp_Get [OF laws])
      (use r in \<open>auto simp: patchReplicas_def replica_facts(10) [OF 3(3)] intro!: csp_rules\<close>)
qed (auto intro!: csp_rules)

lemma suspend_rest:
  assumes laws: "kube_laws (sr_Client st) content" and key: "key_of y = ref_key ref" "so_uid w = om_UID (meta_of y)"
  shows "entry st sch (key_for y) cl = None \<Longrightarrow>
      csp content (restoreSuspend (sr_Client st) ctx rec st sch ref w) cl (\<lambda>_ cl'. cl' = cl)"
    and "entry st sch (key_for y) cl \<noteq> None \<Longrightarrow>
      csp content (sleepSuspend (sr_Client st) ctx rec st sch ref w) cl (\<lambda>_ cl'. cl' = cl)"
  unfolding restoreSuspend_def sleepSuspend_def Let_def key(2) key_of_loaded [OF key(1)]
  by (rule csp_no_entry [OF laws]; simp) (rule csp_has_entry [OF laws]; simp)

lemma restore_rest:
  assumes laws: "kube_laws (sr_Client st) content" and wf: "cluster_wf cl" and h: "h \<in> set default_handlers"
    and kind: "wr_Kind ref = h_Kind h" and u: "unrecorded st sch ref cl"
  shows "csp content (h_Restore h (sr_Client st) ctx rec st sch ref) cl (\<lambda>_ cl'. cl' = cl)"
  using h
proof (cases rule: default_handler_cases)
  case 1 then show ?thesis using restoreReplica_rest [OF laws finds_own(1) [OF laws wf] u] kind by (simp add: handlers)
next
  case 2 then show ?thesis using restoreReplica_rest [OF laws finds_own(2) [OF laws wf] u] kind by (simp add: handlers)
next
  case 3
  then have k: "wr_Kind ref = KindDaemonSet" using kind by (simp add: handlers)
  show ?thesis unfolding 3 handlers handler.simps daemonSet_Restore_def Let_def
  proof (rule csp_bind, rule csp_stored_load(5) [OF laws wf k], goal_cases)
    case (3 d)
    show ?case unfolding sum.case option.case using key_of_loaded [OF 3(2)] u 3(1)
      by (intro csp_no_entry [OF laws]) (simp_all add: unrecorded_def)
  qed (auto intro!: csp_rules)
next
  case 4
  then have k: "wr_Kind ref = KindCronJob" using kind by (simp add: handlers)
  show ?thesis unfolding 4 handlers handler.simps cronJob_Restore_def
  proof (rule csp_bind, rule csp_stored_load(3) [OF laws wf k], goal_cases)
    case (3 d)
    then show ?case using suspend_rest(1) [OF laws 3(2)] u
      by (simp add: unrecorded_def cronJobSuspendObj_def)
  qed (auto intro!: csp_rules)
next
  case 5
  then have k: "wr_Kind ref = KindJob" using kind by (simp add: handlers)
  show ?thesis unfolding 5 handlers handler.simps job_Restore_def
  proof (rule csp_bind, rule csp_stored_load(4) [OF laws wf k], goal_cases)
    case (3 d)
    then show ?case using suspend_rest(1) [OF laws 3(2)] u
      by (simp add: unrecorded_def jobSuspendObj_def)
  qed (auto intro!: csp_rules)
next
  case 6
  then have k: "wr_Kind ref = KindHPA" using kind by (simp add: handlers)
  show ?thesis unfolding 6 handlers handler.simps hpa_Restore_def Let_def
  proof (rule csp_bind, rule csp_stored_load(6) [OF laws wf k], goal_cases)
    case (3 d)
    show ?case unfolding sum.case option.case using key_of_loaded [OF 3(2)] u 3(1)
      by (intro csp_no_entry [OF laws]) (simp_all add: unrecorded_def)
  qed (auto intro!: csp_rules)
qed

lemma sleep_rest:
  assumes laws: "kube_laws (sr_Client st) content" and wf: "cluster_wf cl" and h: "h \<in> set default_handlers"
    and kind: "wr_Kind ref = h_Kind h" and rest: "at_rest st sch True ref cl"
  shows "csp content (h_Sleep h (sr_Client st) ctx rec st sch ref) cl (\<lambda>_ cl'. cl' = cl)"
  using h
proof (cases rule: default_handler_cases)
  case 1
  then have k: "wr_Kind ref = KindDeployment" using kind by (simp add: handlers)
  have "entry st sch (key_for y) cl \<noteq> None \<and> replica_count y = sp_SleepReplicas (ss_Spec sch)"
    if "cl_obj cl (ref_key ref) = Some y" for y
    using stored_kind [OF wf that] k rest that by (cases y) (auto simp: at_rest_def kind_defs)
  then have "replica_rest st sch ref cl" by (simp add: replica_rest_def)
  then show ?thesis using 1 sleepReplica_rest [OF laws finds_own(1) [OF laws wf k]] by (simp add: handlers)
next
  case 2
  then have k: "wr_Kind ref = KindStatefulSet" using kind by (simp add: handlers)
  show ?thesis unfolding 2 handlers handler.simps statefulSet_Sleep_def
  proof (rule csp_bind, rule csp_stored_load(7) [OF laws wf k], goal_cases)
    case (3 s)
    show ?case unfolding sum.case option.case
    proof (rule csp_if, rule csp_warn, rule refl)
      assume "\<not> (pvcDeletionRisk s \<and> \<not> allowsPVCDeletion s sch)"
      then have "replica_rest st sch ref cl" using 3(1) rest by (auto simp: at_rest_def replica_rest_def)
      then show "csp content (sleepReplica loadStatefulSet (sr_Client st) ctx rec st sch ref) cl (\<lambda>_ cl'. cl' = cl)"
        by (rule sleepReplica_rest [OF laws finds_own(2) [OF laws wf k]])
    qed
  qed (auto intro!: csp_rules)
next
  case 3
  then have k: "wr_Kind ref = KindDaemonSet" using kind by (simp add: handlers)
  show ?thesis unfolding 3 handlers handler.simps daemonSet_Sleep_def
    by (rule csp_bind, rule csp_stored_load(5) [OF laws wf k])
      (use rest in \<open>auto simp: at_rest_def intro!: csp_rules\<close>)
next
  case 4
  then have k: "wr_Kind ref = KindCronJob" using kind by (simp add: handlers)
  show ?thesis unfolding 4 handlers handler.simps cronJob_Sleep_def
  proof (rule csp_bind, rule csp_stored_load(3) [OF laws wf k], goal_cases)
    case (3 d)
    then show ?case using suspend_rest(2) [OF laws 3(2)] rest
      by (simp add: at_rest_def cronJobSuspendObj_def)
  qed (auto intro!: csp_rules)
next
  case 5
  then have k: "wr_Kind ref = KindJob" using kind by (simp add: handlers)
  show ?thesis unfolding 5 handlers handler.simps job_Sleep_def
  proof (rule csp_bind, rule csp_stored_load(4) [OF laws wf k], goal_cases)
    case (3 d)
    then show ?case using suspend_rest(2) [OF laws 3(2)] rest
      by (auto simp: at_rest_def jobSuspendObj_def intro!: csp_if csp_warn)
  qed (auto intro!: csp_rules)
next
  case 6
  then have k: "wr_Kind ref = KindHPA" using kind by (simp add: handlers)
  show ?thesis unfolding 6 handlers handler.simps hpa_Sleep_def Let_def
  proof (rule csp_bind, rule csp_stored_load(6) [OF laws wf k], goal_cases)
    case (3 d)
    show ?case unfolding sum.case option.case using key_of_loaded [OF 3(2)] rest 3(1)
      by (intro csp_has_entry [OF laws]) (simp_all add: at_rest_def)
  qed (auto intro!: csp_rules)
qed

section \<open>What success leaves\<close>

lemma key_for_stored: "key_for (stored x) = key_for x"
  by (cases x) (simp_all add: key_for_def)

lemma csp_patch_report_delete:
  assumes laws: "kube_laws (sr_Client st) content" and y: "cl_obj cl (ref_key ref) = Some y" "key_of y = ref_key ref"
    and new: "key_of new = ref_key ref" "key_for new = key_for y"
  shows "csp content (bind_p (call (k_patch (sr_Client st) y new)) (\<lambda>_. bind_p (emit rec new r1 m1) (\<lambda>_.
      bind_p (Record (sr_Client st) ctx rec sch k1 n1 n2 a1 t1) (\<lambda>_. Delete_entry st sch (key_for y))))) cl
    (\<lambda>r cl'. r = Inr () \<longrightarrow> unrecorded st sch ref cl')"
proof (rule csp_bind, rule csp_patch [OF laws], goal_cases)
  case 1 then show ?case using y by simp
next
  case (2 e) then show ?case by simp
next
  case 3
  have gone: "unrecorded st sch ref cl'" if "entry_upd st sch (key_for y) None (put_obj (stored new) cl) cl'" for cl'
    using entry_updD [OF that] new by (simp add: unrecorded_def put_obj_at key_for_stored)
  show ?case unfolding sum.case
    by (rule csp_bind, rule csp_emit, unfold sum.case, rule csp_bind, rule csp_Record, unfold sum.case,
        rule csp_Delete [OF laws]) (use gone in simp_all)
qed

lemma csp_patch_report:
  assumes laws: "kube_laws c content" and y: "cl_obj cl (ref_key ref) = Some y" "key_of y = ref_key ref"
    and new: "key_of new = ref_key ref"
  shows "csp content (bind_p (call (k_patch c y new)) (\<lambda>_. bind_p (emit rec new r1 m1) (\<lambda>_.
      Record c ctx rec sch k1 n1 n2 a1 t1))) cl
    (\<lambda>r cl'. r = Inr () \<longrightarrow> cl' = put_obj (stored new) cl)"
proof (rule csp_bind, rule csp_patch [OF laws], goal_cases)
  case 1 then show ?case using y by simp
next
  case (2 e) then show ?case by simp
next
  case 3
  show ?case unfolding sum.case
    by (rule csp_bind, rule csp_emit, unfold sum.case, rule csp_Record) simp
qed

lemma restoreReplica_rests:
  assumes laws: "kube_laws (sr_Client st) content" and find: "finds content (sr_Client st) load ref cl"
    and dry: "\<not> sp_DryRun (ss_Spec sch)"
  shows "csp content (restoreReplica load (sr_Client st) ctx rec st sch ref) cl
    (\<lambda>r cl'. r = Inr () \<longrightarrow> unrecorded st sch ref cl')"
  unfolding restoreReplica_def Let_def
proof (rule csp_bind, rule find [unfolded finds_def, rule_format], goal_cases)
  case (3 y)
  have at: "cl_obj cl (key_of y) = Some y" using 3 by simp
  have del: "csp content (Delete_entry st sch (key_for y)) cl' (\<lambda>r cl'. r = Inr () \<longrightarrow> unrecorded st sch ref cl')"
    if "cl_obj cl' (ref_key ref) = Some z" "key_for z = key_for y" for cl' z
    by (rule csp_Delete [OF laws]) (use that in \<open>auto simp: unrecorded_def entry_updD\<close>)
  show ?case unfolding sum.case option.case replica_facts(9) [OF 3(3)] key_of_loaded [OF 3(2)]
  proof (rule csp_bind, rule csp_Get [OF laws], goal_cases)
    case 2 then show ?case using 3(1) by (auto simp: unrecorded_def intro!: csp_rules)
  next
    case (3 raw n)
    show ?case unfolding sum.case option.case if_not_P [OF dry] using dry
      by (simp only: not_True_eq_False simp_thms, intro csp_bind csp_patchReplicas [OF laws \<open>replica_kind y\<close> at])
        (use \<open>cl_obj cl (ref_key ref) = Some y\<close> \<open>key_of y = ref_key ref\<close> replica_facts(5,6) [OF \<open>replica_kind y\<close>]
          in \<open>auto intro!: del simp: put_obj_at\<close>)
  qed simp
qed (auto intro!: csp_rules simp: unrecorded_def)

lemma sleepReplica_rests:
  assumes laws: "kube_laws (sr_Client st) content" and find: "finds content (sr_Client st) load ref cl"
    and dry: "\<not> sp_DryRun (ss_Spec sch)"
  shows "csp content (sleepReplica load (sr_Client st) ctx rec st sch ref) cl
    (\<lambda>r cl'. r = Inr () \<longrightarrow> replica_rest st sch ref cl')" (is "csp _ _ _ ?P")
  unfolding sleepReplica_def Let_def
proof (rule csp_bind, rule find [unfolded finds_def, rule_format], goal_cases)
  case (3 y)
  let ?z = "sp_SleepReplicas (ss_Spec sch)"
  note rf = replica_facts [OF 3(3)]
  have patch: "csp content (patchReplicas (sr_Client st) ctx rec sch ref (replica_obj_of y) ?z False ''Slept'') cl' ?P"
    if "cl_obj cl' = cl_obj cl" "entry st sch (key_for y) cl' \<noteq> None" for cl'
    by (rule csp_patchReplicas [OF laws 3(3)])
      (use that 3(1,2) rf(5,6,12) in \<open>auto simp: put_obj_at replica_rest_def\<close>)
  show ?case unfolding sum.case option.case rf(9,10) key_of_loaded [OF 3(2)]
  proof (rule csp_bind, rule csp_Get [OF laws], goal_cases)
    case 2
    show ?case unfolding sum.case
      by (rule csp_bind, rule csp_if; (unfold Set_replicas_def, rule csp_SetRaw [OF laws])?)
        (use dry 2 in \<open>auto intro!: patch simp: entry_updD\<close>)
  next
    case (3 raw n)
    then show ?case using patch [of cl] dry by (auto intro!: csp_rules)
  qed simp
qed (auto intro!: csp_rules simp: replica_rest_def)

text \<open>The entry of what is stored is recorded.\<close>

definition recorded :: "'w store \<Rightarrow> sleep_schedule \<Rightarrow> wref \<Rightarrow> cluster \<Rightarrow> bool" where
  "recorded st sch ref cl \<longleftrightarrow> (\<forall>y. cl_obj cl (ref_key ref) = Some y \<longrightarrow> entry st sch (key_for y) cl \<noteq> None)"

lemma csp_record_patch:
  assumes laws: "kube_laws (sr_Client st) content" and y: "cl_obj cl (ref_key ref) = Some y" "key_of y = ref_key ref"
    and new: "key_of new = ref_key ref" "key_for new = key_for y"
  shows "csp content (bind_p (SetRaw st sch (key_for y) v) (\<lambda>_.
      bind_p (call (k_patch (sr_Client st) y new)) (\<lambda>_. bind_p (emit rec new r1 m1) (\<lambda>_.
      Record (sr_Client st) ctx rec sch k1 n1 n2 a1 t1)))) cl
    (\<lambda>r cl'. r = Inr () \<longrightarrow> recorded st sch ref cl')"
proof (rule csp_bind, rule csp_SetRaw [OF laws], goal_cases)
  case (2 cl')
  have at: "cl_obj cl' (ref_key ref) = Some y" using y(1) entry_updD(1) [OF 2] by simp
  have e: "entry st sch (key_for y) cl' \<noteq> None" using entry_updD(2) [OF 2] by (simp split: option.splits)
  show ?case unfolding sum.case
    by (rule csp_mono [OF csp_patch_report [OF laws at y(2) new(1)]])
      (use e new in \<open>simp add: recorded_def put_obj_at key_for_stored\<close>)
qed simp

lemma suspend_rests:
  assumes laws: "kube_laws (sr_Client st) content" and y: "cl_obj cl (ref_key ref) = Some y" "key_of y = ref_key ref"
    and w: "so_obj w = y" "so_uid w = om_UID (meta_of y)" "\<And>v. key_of (so_setSuspend w v) = key_of y"
      "\<And>v. key_for (so_setSuspend w v) = key_for y"
    and dry: "\<not> sp_DryRun (ss_Spec sch)"
  shows "csp content (sleepSuspend (sr_Client st) ctx rec st sch ref w) cl (\<lambda>r cl'. r = Inr () \<longrightarrow> recorded st sch ref cl')"
    and "csp content (restoreSuspend (sr_Client st) ctx rec st sch ref w) cl (\<lambda>r cl'. r = Inr () \<longrightarrow> unrecorded st sch ref cl')"
proof -
  note k = key_of_loaded [OF y(2)]
  show "csp content (sleepSuspend (sr_Client st) ctx rec st sch ref w) cl (\<lambda>r cl'. r = Inr () \<longrightarrow> recorded st sch ref cl')"
    unfolding sleepSuspend_def Let_def w(1,2) k
  proof (rule csp_bind, rule csp_GetRaw [OF laws], goal_cases)
    case 2
    show ?case unfolding sum.case if_not_P [OF dry]
      by (rule csp_if, rule csp_return, use y in \<open>simp add: recorded_def\<close>,
          rule csp_record_patch [OF laws y]) (use w y in simp_all)
  qed simp
  show "csp content (restoreSuspend (sr_Client st) ctx rec st sch ref w) cl (\<lambda>r cl'. r = Inr () \<longrightarrow> unrecorded st sch ref cl')"
    unfolding restoreSuspend_def Let_def w(1,2) k
  proof (rule csp_bind, rule csp_GetRaw [OF laws], goal_cases)
    case 2
    have undo: "csp content (bind_p (call (k_patch (sr_Client st) y (so_setSuspend w b))) (\<lambda>_.
        bind_p (emit rec (so_setSuspend w b) r1 m1) (\<lambda>_. bind_p (Record (sr_Client st) ctx rec sch k1 n1 n2 a1 t1) (\<lambda>_.
        Delete_entry st sch (key_for y))))) cl (\<lambda>r cl'. r = Inr () \<longrightarrow> unrecorded st sch ref cl')" for b r1 m1 k1 n1 n2 a1 t1
      by (rule csp_patch_report_delete [OF laws y]) (use w y in simp_all)
    show ?case unfolding sum.case if_not_P [OF dry]
      by (rule csp_option, rule csp_return, use y in \<open>simp add: unrecorded_def\<close>,
          rule csp_option, rule csp_throw, simp, rule undo)
  qed simp
qed

lemma restore_rests:
  assumes laws: "kube_laws (sr_Client st) content" and wf: "cluster_wf cl" and h: "h \<in> set default_handlers"
    and kind: "wr_Kind ref = h_Kind h" and dry: "\<not> sp_DryRun (ss_Spec sch)"
  shows "csp content (h_Restore h (sr_Client st) ctx rec st sch ref) cl (\<lambda>r cl'. r = Inr () \<longrightarrow> unrecorded st sch ref cl')"
  using h
proof (cases rule: default_handler_cases)
  case 1 then show ?thesis using restoreReplica_rests [OF laws finds_own(1) [OF laws wf] dry] kind by (simp add: handlers)
next
  case 2 then show ?thesis using restoreReplica_rests [OF laws finds_own(2) [OF laws wf] dry] kind by (simp add: handlers)
next
  case 3
  then have k: "wr_Kind ref = KindDaemonSet" using kind by (simp add: handlers)
  show ?thesis unfolding 3 handlers handler.simps daemonSet_Restore_def Let_def
  proof (rule csp_bind, rule csp_stored_load(5) [OF laws wf k], goal_cases)
    case (3 d)
    have key: "Key (wr_Kind ref) (wr_Namespace ref) (wr_Name ref) (om_UID (ds_Meta d)) = key_for (KDaemonSet d)"
      using key_of_loaded [OF 3(2)] by simp
    have new: "key_of (KDaemonSet (d\<lparr>ds_NodeSelector := m\<rparr>)) = ref_key ref"
      "key_for (KDaemonSet (d\<lparr>ds_NodeSelector := m\<rparr>)) = key_for (KDaemonSet d)" for m
      using 3(2) by (simp_all add: key_of_def key_for_def)
    show ?case unfolding sum.case option.case key if_not_P [OF dry]
      by (rule csp_bind, rule csp_GetRaw [OF laws]; unfold sum.case;
          (rule csp_option, rule csp_return, use 3 in \<open>simp add: unrecorded_def\<close>,
           rule csp_option, rule csp_throw, simp, rule csp_patch_report_delete [OF laws 3 new])?) simp
  qed (auto intro!: csp_rules simp: unrecorded_def)
next
  case 4
  then have k: "wr_Kind ref = KindCronJob" using kind by (simp add: handlers)
  show ?thesis unfolding 4 handlers handler.simps cronJob_Restore_def
  proof (rule csp_bind, rule csp_stored_load(3) [OF laws wf k], goal_cases)
    case (3 d)
    show ?case unfolding sum.case option.case
      by (rule suspend_rests(2) [OF laws 3]) (simp_all add: cronJobSuspendObj_def key_of_def key_for_def dry)
  qed (auto intro!: csp_rules simp: unrecorded_def)
next
  case 5
  then have k: "wr_Kind ref = KindJob" using kind by (simp add: handlers)
  show ?thesis unfolding 5 handlers handler.simps job_Restore_def
  proof (rule csp_bind, rule csp_stored_load(4) [OF laws wf k], goal_cases)
    case (3 d)
    show ?case unfolding sum.case option.case
      by (rule suspend_rests(2) [OF laws 3]) (simp_all add: jobSuspendObj_def key_of_def key_for_def dry)
  qed (auto intro!: csp_rules simp: unrecorded_def)
next
  case 6
  then have k: "wr_Kind ref = KindHPA" using kind by (simp add: handlers)
  show ?thesis unfolding 6 handlers handler.simps hpa_Restore_def Let_def
  proof (rule csp_bind, rule csp_stored_load(6) [OF laws wf k], goal_cases)
    case (3 d)
    have key: "Key (wr_Kind ref) (wr_Namespace ref) (wr_Name ref) (om_UID (hp_Meta d)) = key_for (KHPA d)"
      using key_of_loaded [OF 3(2)] by simp
    have new: "key_of (KHPA (d\<lparr>hp_MinReplicas := m, hp_MaxReplicas := n\<rparr>)) = ref_key ref"
      "key_for (KHPA (d\<lparr>hp_MinReplicas := m, hp_MaxReplicas := n\<rparr>)) = key_for (KHPA d)" for m n
      using 3(2) by (simp_all add: key_of_def key_for_def)
    show ?case unfolding sum.case option.case key if_not_P [OF dry]
      by (rule csp_bind, rule csp_GetRaw [OF laws]; unfold sum.case;
          (rule csp_option, rule csp_return, use 3 in \<open>simp add: unrecorded_def\<close>,
           rule csp_option, rule csp_throw, simp, unfold case_prod_beta, rule csp_patch_report_delete [OF laws 3 new])?) simp
  qed (auto intro!: csp_rules simp: unrecorded_def)
qed

lemma rest_of_kind:
  assumes "cluster_wf cl"
  shows "wr_Kind ref = KindDeployment \<or> wr_Kind ref = KindStatefulSet \<Longrightarrow> replica_rest st sch ref cl \<Longrightarrow>
      at_rest st sch True ref cl"
    and "wr_Kind ref = KindCronJob \<or> wr_Kind ref = KindJob \<or> wr_Kind ref = KindHPA \<Longrightarrow>
      recorded st sch ref cl \<Longrightarrow> at_rest st sch True ref cl"
proof -
  have *: "at_rest st sch True ref cl"
    if "\<And>y. cl_obj cl (ref_key ref) = Some y \<Longrightarrow> kind_of y = wr_Kind ref \<Longrightarrow> rested st sch True y cl"
    using that stored_kind [OF assms] by (auto simp: at_rest_def)
  show "at_rest st sch True ref cl"
    if "wr_Kind ref = KindDeployment \<or> wr_Kind ref = KindStatefulSet" "replica_rest st sch ref cl"
  proof (rule *)
    fix y assume "cl_obj cl (ref_key ref) = Some y" "kind_of y = wr_Kind ref"
    with that show "rested st sch True y cl" by (cases y) (auto simp: replica_rest_def kind_defs)
  qed
  show "at_rest st sch True ref cl"
    if "wr_Kind ref = KindCronJob \<or> wr_Kind ref = KindJob \<or> wr_Kind ref = KindHPA" "recorded st sch ref cl"
  proof (rule *)
    fix y assume "cl_obj cl (ref_key ref) = Some y" "kind_of y = wr_Kind ref"
    with that show "rested st sch True y cl" by (cases y) (auto simp: recorded_def kind_defs)
  qed
qed

lemma sleep_rests:
  assumes laws: "kube_laws (sr_Client st) content" and wf: "cluster_wf cl" and h: "h \<in> set default_handlers"
    and kind: "wr_Kind ref = h_Kind h" and dry: "\<not> sp_DryRun (ss_Spec sch)"
  shows "csp content (h_Sleep h (sr_Client st) ctx rec st sch ref) cl
    (\<lambda>r cl'. r = Inr () \<longrightarrow> cluster_wf cl' \<longrightarrow> at_rest st sch True ref cl')"
  using h
proof (cases rule: default_handler_cases)
  case 1
  then have k: "wr_Kind ref = KindDeployment" using kind by (simp add: handlers)
  show ?thesis unfolding 1 handlers handler.simps
    by (rule csp_mono [OF sleepReplica_rests [OF laws finds_own(1) [OF laws wf k] dry]]) (simp add: rest_of_kind k)
next
  case 2
  then have k: "wr_Kind ref = KindStatefulSet" using kind by (simp add: handlers)
  show ?thesis unfolding 2 handlers handler.simps statefulSet_Sleep_def
  proof (rule csp_bind, rule csp_stored_load(7) [OF laws wf k], goal_cases)
    case (3 s)
    show ?case unfolding sum.case option.case
      by (rule csp_if, rule csp_warn, use 3 in \<open>simp add: at_rest_def\<close>,
          rule csp_mono [OF sleepReplica_rests [OF laws finds_own(2) [OF laws wf k] dry]]) (simp add: rest_of_kind k)
  qed (auto intro!: csp_rules simp: at_rest_def)
next
  case 3
  then have k: "wr_Kind ref = KindDaemonSet" using kind by (simp add: handlers)
  show ?thesis unfolding 3 handlers handler.simps daemonSet_Sleep_def Let_def
  proof (rule csp_bind, rule csp_stored_load(5) [OF laws wf k], goal_cases)
    case (3 d)
    let ?new = "KDaemonSet (d\<lparr>ds_NodeSelector := Some (sentinel_selector (ds_NodeSelector d))\<rparr>)"
    have new: "key_of ?new = ref_key ref" using 3(2) by (simp add: key_of_def)
    have "sentinel_selector (ds_NodeSelector d) \<noteq> []" using sentinel_present [of "ds_NodeSelector d"] by auto
    then have rest: "at_rest st sch True ref (put_obj (stored ?new) cl')" for cl'
      using new sentinel_present [of "ds_NodeSelector d"] by (simp add: at_rest_def put_obj_at selector_entries_def)
    have tail: "csp content (bind_p (call (k_patch (sr_Client st) (KDaemonSet d) ?new)) (\<lambda>_.
        bind_p (emit rec ?new r1 m1) (\<lambda>_. Record (sr_Client st) ctx rec sch k1 n1 n2 a1 t1))) cl'
        (\<lambda>r cl'. r = Inr () \<longrightarrow> cluster_wf cl' \<longrightarrow> at_rest st sch True ref cl')"
      if "cl_obj cl' = cl_obj cl" for cl' r1 m1 k1 n1 n2 a1 t1
      by (rule csp_mono [OF csp_patch_report [OF laws _ 3(2) new]]) (use that 3(1) rest in simp_all)
    show ?case unfolding sum.case option.case if_not_P [OF dry]
    proof (rule csp_if, rule csp_return, use 3 in \<open>simp add: at_rest_def\<close>, rule csp_bind, rule csp_GetRaw [OF laws],
        goal_cases)
      case 2
      show ?case unfolding sum.case
      proof (rule csp_bind, rule csp_if, goal_cases)
        case 1
        show ?case by (rule csp_SetRaw [OF laws]; unfold sum.case; (rule tail)?) (simp_all add: entry_updD)
      next
        case 2
        show ?case by (rule csp_return, unfold sum.case, rule tail, rule refl)
      qed
    qed simp
  qed (auto intro!: csp_rules simp: at_rest_def)
next
  case 4
  then have k: "wr_Kind ref = KindCronJob" using kind by (simp add: handlers)
  show ?thesis unfolding 4 handlers handler.simps cronJob_Sleep_def
  proof (rule csp_bind, rule csp_stored_load(3) [OF laws wf k], goal_cases)
    case (3 d)
    show ?case unfolding sum.case option.case
      by (rule csp_mono [OF suspend_rests(1) [OF laws 3]])
        (simp_all add: cronJobSuspendObj_def key_of_def key_for_def dry rest_of_kind k)
  qed (auto intro!: csp_rules simp: at_rest_def)
next
  case 5
  then have k: "wr_Kind ref = KindJob" using kind by (simp add: handlers)
  show ?thesis unfolding 5 handlers handler.simps job_Sleep_def
  proof (rule csp_bind, rule csp_stored_load(4) [OF laws wf k], goal_cases)
    case (3 d)
    show ?case unfolding sum.case option.case
    proof (rule csp_if, rule csp_warn, use 3 in \<open>simp add: at_rest_def\<close>)
      show "csp content (sleepSuspend (sr_Client st) ctx rec st sch ref (jobSuspendObj d)) cl
          (\<lambda>r cl'. r = Inr () \<longrightarrow> cluster_wf cl' \<longrightarrow> at_rest st sch True ref cl')"
        by (rule csp_mono [OF suspend_rests(1) [OF laws 3]])
          (simp_all add: jobSuspendObj_def key_of_def key_for_def dry rest_of_kind k)
    qed
  qed (auto intro!: csp_rules simp: at_rest_def)
next
  case 6
  then have k: "wr_Kind ref = KindHPA" using kind by (simp add: handlers)
  show ?thesis unfolding 6 handlers handler.simps hpa_Sleep_def Let_def
  proof (rule csp_bind, rule csp_stored_load(6) [OF laws wf k], goal_cases)
    case (3 d)
    have key: "Key (wr_Kind ref) (wr_Namespace ref) (wr_Name ref) (om_UID (hp_Meta d)) = key_for (KHPA d)"
      using key_of_loaded [OF 3(2)] by simp
    have new: "key_of (KHPA (d\<lparr>hp_MinReplicas := m, hp_MaxReplicas := n\<rparr>)) = ref_key ref"
      "key_for (KHPA (d\<lparr>hp_MinReplicas := m, hp_MaxReplicas := n\<rparr>)) = key_for (KHPA d)" for m n
      using 3(2) by (simp_all add: key_of_def key_for_def)
    show ?case unfolding sum.case option.case key if_not_P [OF dry]
    proof (rule csp_bind, rule csp_GetRaw [OF laws], goal_cases)
      case 2
      have tail: "csp content (bind_p (SetRaw st sch (key_for (KHPA d)) v) (\<lambda>_.
          bind_p (call (k_patch (sr_Client st) (KHPA d) (KHPA (d\<lparr>hp_MinReplicas := m, hp_MaxReplicas := n\<rparr>)))) (\<lambda>_.
          bind_p (emit rec (KHPA (d\<lparr>hp_MinReplicas := m, hp_MaxReplicas := n\<rparr>)) r1 m1) (\<lambda>_.
          Record (sr_Client st) ctx rec sch k1 n1 n2 a1 t1)))) cl
          (\<lambda>r cl'. r = Inr () \<longrightarrow> cluster_wf cl' \<longrightarrow> at_rest st sch True ref cl')" for v m n r1 m1 k1 n1 n2 a1 t1
        by (rule csp_mono [OF csp_record_patch [OF laws 3 new]]) (simp add: rest_of_kind k)
      show ?case unfolding sum.case
        by (rule csp_if, rule csp_return, use 3 in \<open>simp add: at_rest_def\<close>, rule csp_bind, rule csp_when,
            rule csp_warn; unfold sum.case, rule tail)
    qed simp
  qed (auto intro!: csp_rules simp: at_rest_def)
qed

section \<open>Passes\<close>

text \<open>An attempt on another workload leaves what is at rest at rest.\<close>

lemma other_rests:
  assumes laws: "kube_laws (sr_Client st) content" and dry: "\<not> sp_DryRun (ss_Spec sch)"
    and dns: "dns_ref ref" "dns_ref other" "ref \<noteq> other" and wf: "cluster_wf cl"
    and h: "h \<in> set default_handlers" "wr_Kind ref = h_Kind h" and rest: "at_rest st sch asleep other cl"
  shows "csp content ((if asleep then h_Sleep h else h_Restore h) (sr_Client st) ctx rec st sch ref) cl
    (\<lambda>_ cl'. at_rest st sch asleep other cl')"
proof -
  have by_frame: "csp content ((if asleep then h_Sleep h else h_Restore h) (sr_Client st) ctx rec st sch ref) cl (\<lambda>_ cl'. Q cl')"
    if "frame st sch ref Q" "Q cl" for Q
    using handler_frame [OF laws h that wf] by (cases asleep) simp_all
  show ?thesis
  proof (cases "cl_obj cl (ref_key other)")
    case None
    have "ref_key ref \<noteq> ref_key other" using dns(3) by (cases ref; cases other) (auto simp: ref_key_def)
    then have "frame st sch ref (\<lambda>cl'. cl_obj cl' (ref_key other) = None)"
      by (auto simp: frame_def entry_upd_def put_obj_at)
    from by_frame [OF this None] show ?thesis by (rule csp_mono) (simp add: at_rest_def)
  next
    case (Some y)
    note k = stored_kind [OF wf Some]
    have r: "ref_of y = other" using k by (cases other) (simp add: ref_of_def key_of_def ref_key_def)
    have "frame st sch ref (\<lambda>cl'. cl_obj cl' (key_of y) = Some y \<and> rested st sch asleep y cl')"
      by (rule frame_other [OF dns(1)]) (use dns r in \<open>auto intro: rested_entry\<close>)
    from by_frame [OF this] Some k rest show ?thesis
      by (elim meta_impE) (auto simp: at_rest_def elim!: csp_mono)
  qed
qed

lemma handler_rests:
  assumes laws: "kube_laws (sr_Client st) content" and dry: "\<not> sp_DryRun (ss_Spec sch)" and wf: "cluster_wf cl"
    and h: "h \<in> set default_handlers" "wr_Kind ref = h_Kind h"
  shows "csp content ((if asleep then h_Sleep h else h_Restore h) (sr_Client st) ctx rec st sch ref) cl
    (\<lambda>r cl'. r = Inr () \<longrightarrow> at_rest st sch asleep ref cl')"
proof (cases asleep)
  case True
  show ?thesis unfolding if_P [OF True]
    by (rule csp_wf [OF laws], rule csp_mono [OF sleep_rests [OF laws wf h dry]]) (simp add: True)
next
  case False
  then show ?thesis using restore_rests [OF laws wf h dry] by (simp add: unrecorded_rest)
qed

lemma apply_refs_rests:
  fixes sl :: "'w sleeper"
  assumes laws: "kube_laws (sl_Client sl) content" and st: "sr_Client (sl_Store sl) = sl_Client sl"
    and dry: "\<not> sp_DryRun (ss_Spec sch)" and "\<forall>ref \<in> set refs. dns_ref ref" and dns: "dns_ref ref" and "cluster_wf cl"
  shows "csp content (apply_refs sl Default_registry ctx sch asleep refs) cl
    (\<lambda>r cl'. r = Inr () \<longrightarrow> ref \<in> set refs \<or> at_rest (sl_Store sl) sch asleep ref cl \<longrightarrow>
       at_rest (sl_Store sl) sch asleep ref cl')"
  using assms(4,6)
proof (induction refs arbitrary: cl)
  case Nil
  then show ?case by (auto intro!: csp_rules)
next
  case (Cons ref2 refs)
  let ?st = "sl_Store sl"
  show ?case
  proof (cases "registry_Get (Default_registry :: 'w registry) (wr_Kind ref2)")
    case None
    then show ?thesis by (auto intro!: csp_rules)
  next
    case (Some h)
    from Default_registry_Get [OF Some] have h: "h \<in> set default_handlers" "wr_Kind ref2 = h_Kind h" by auto
    let ?m = "(if asleep then h_Sleep h else h_Restore h) (sl_Client sl) ctx (sl_Recorder sl) ?st sch ref2"
    have step: "csp content ?m cl (\<lambda>r cl'. r = Inr () \<longrightarrow> ref = ref2 \<or> at_rest ?st sch asleep ref cl \<longrightarrow>
        at_rest ?st sch asleep ref cl')"
    proof (cases "ref = ref2")
      case True
      then show ?thesis
        using handler_rests [of ?st, unfolded st, OF laws dry Cons.prems(2) h] by (auto elim!: csp_mono)
    next
      case False
      show ?thesis
      proof (cases "at_rest ?st sch asleep ref cl")
        case True
        have "csp content ?m cl (\<lambda>_ cl'. at_rest ?st sch asleep ref cl')"
          by (rule other_rests [of ?st, unfolded st, OF laws dry _ dns _ Cons.prems(2) h True])
            (use Cons.prems(1) False in auto)
        then show ?thesis by (rule csp_mono) simp
      next
        case False
        with \<open>ref \<noteq> ref2\<close> show ?thesis by (simp add: csp_def wp_def case_prod_beta)
      qed
    qed
    show ?thesis unfolding apply_refs.simps Some option.case
    proof (rule csp_bind, rule csp_wf [OF laws], rule csp_mono [OF step], goal_cases)
      case (1 r cl')
      show ?case
      proof (cases r)
        case (Inr u)
        have "csp content (apply_refs sl Default_registry ctx sch asleep refs) cl'
          (\<lambda>r cl''. r = Inr () \<longrightarrow> ref \<in> set refs \<or> at_rest ?st sch asleep ref cl' \<longrightarrow> at_rest ?st sch asleep ref cl'')"
          if "cluster_wf cl'" using Cons.IH [of cl'] Cons.prems(1) that by simp
        then show ?thesis unfolding Inr sum.case using 1 Inr by (auto elim!: csp_mono)
      qed simp
    qed
  qed
qed

lemma apply_refs_at_rest:
  fixes sl :: "'w sleeper"
  assumes laws: "kube_laws (sl_Client sl) content" and st: "sr_Client (sl_Store sl) = sl_Client sl"
    and "\<forall>ref \<in> set refs. at_rest (sl_Store sl) sch asleep ref cl" and wf: "cluster_wf cl"
  shows "csp content (apply_refs sl Default_registry ctx sch asleep refs) cl (\<lambda>_ cl'. cl' = cl)"
  using assms(3)
proof (induction refs)
  case Nil
  then show ?case by (auto intro!: csp_rules)
next
  case (Cons ref refs)
  show ?case
  proof (cases "registry_Get (Default_registry :: 'w registry) (wr_Kind ref)")
    case None
    then show ?thesis by (auto intro!: csp_rules)
  next
    case (Some h)
    from Default_registry_Get [OF Some] have h: "h \<in> set default_handlers" "wr_Kind ref = h_Kind h" by auto
    have "csp content ((if asleep then h_Sleep h else h_Restore h) (sl_Client sl) ctx (sl_Recorder sl) (sl_Store sl) sch ref) cl
        (\<lambda>_ cl'. cl' = cl)"
    proof (cases asleep)
      case True
      with sleep_rest [of "sl_Store sl", unfolded st, OF laws wf h] Cons.prems show ?thesis by simp
    next
      case False
      with restore_rest [of "sl_Store sl", unfolded st, OF laws wf h] Cons.prems show ?thesis
        by (simp add: unrecorded_rest)
    qed
    then show ?thesis unfolding apply_refs.simps Some option.case
      by (intro csp_bind, elim csp_mono) (use Cons in \<open>auto split: sum.split\<close>)
  qed
qed

text \<open>
  C11: Idempotency: once a pass has succeeded, another pass of the same kind over the same workloads
  changes nothing in the cluster, however it ends: no workload is patched twice, no checkpoint is
  recorded or cleared again. Nothing is assumed of the state in which the first pass began.
\<close>

theorem second_pass_changes_nothing:
  assumes "kube_laws (sl_Client sl) content" and "sr_Client (sl_Store sl) = sl_Client sl"
    and "sleeper_registry sl = Default_registry" and "\<not> sp_DryRun (ss_Spec sch)"
    and "\<forall>ref \<in> set refs. dns_ref ref"
    and "Apply sl ctx sch asleep refs s = (Inr (), s1)"
    and "content (st_api s2) = content (st_api s1)"
    and "Apply sl ctx' sch asleep refs s2 = (r, s3)"
  shows "content (st_api s3) = content (st_api s1)"
proof -
  have wf: "cluster_wf (content w)" for w using kube_lawsD(19) [OF assms(1)] by simp
  have "at_rest (sl_Store sl) sch asleep ref (content (st_api s1))" if "ref \<in> set refs" for ref
    using cspD [OF apply_refs_rests [OF assms(1,2,4,5) _ wf] assms(6) [unfolded Apply_def assms(3)]] that assms(5)
    by blast
  then have "\<forall>ref \<in> set refs. at_rest (sl_Store sl) sch asleep ref (content (st_api s2))" by (simp add: assms(7))
  from cspD [OF apply_refs_at_rest [OF assms(1,2) this wf] assms(8) [unfolded Apply_def assms(3)]]
  show ?thesis by (simp add: assms(7))
qed

theorem second_pass_changes_nothing_witness:
  "let s1 = snd (Apply mem_sleeper None office_hours True demo_refs (mem_state (demo_mem [])));
       s2 = snd (Apply mem_sleeper None office_hours True demo_refs s1)
   in cl_obj (mem_content (st_api s1)) (key_of (KDeployment demo_deployment))
        = Some (KDeployment (demo_deployment\<lparr>dp_Replicas := Some 0\<rparr>))
      \<and> mem_content (st_api s2) = mem_content (st_api s1)"
proof -
  let ?a = "Apply mem_sleeper None office_hours True demo_refs (mem_state (demo_mem []))"
  have d: "\<forall>ref \<in> set demo_refs. dns_ref ref" and r: "fst ?a = Inr ()"
    and o: "cl_obj (mem_content (st_api (snd ?a))) (key_of (KDeployment demo_deployment))
        = Some (KDeployment (demo_deployment\<lparr>dp_Replicas := Some 0\<rparr>))"
    by code_simp+
  from second_pass_changes_nothing [OF mem_sleeper_env d result_split [OF r] refl prod.collapse [symmetric]] o
  show ?thesis unfolding Let_def by metis
qed

end
