(* ===== verification/Reconcile_Idempotent.thy ===== *)
theory Reconcile_Idempotent
  imports Reconcile_Passes Workload_Idempotent
begin

text \<open>
  Repeated passes: with the clock standing still and a wake value that is stamped or absent, a pass that
  follows a successful one changes nothing in the cluster.
\<close>

section \<open>Reading changes nothing\<close>

text \<open>The wake value, if there is one, is without effect or active with its expiry stamped.\<close>

definition wake_settled :: "string gomap \<Rightarrow> instant \<Rightarrow> duration \<Rightarrow> duration \<Rightarrow> bool" where
  "wake_settled data now def maxd \<longleftrightarrow>
     (case map_of data WakeKey of
        None \<Rightarrow> True
      | Some raw \<Rightarrow>
          (case ParseEntry raw of
             Inl _ \<Rightarrow> True
           | Inr e \<Rightarrow>
               (case Resolve_wake e now def maxd of
                  Inl _ \<Rightarrow> True
                | Inr res \<Rightarrow> now < rs_Expiry res \<and> \<not> rs_Changed res)))"

abbreviation settled_wake :: "sleep_schedule \<Rightarrow> instant \<Rightarrow> cluster \<Rightarrow> bool" where
  "settled_wake ss now cl \<equiv>
     (\<exists>cm. find_cm cl (ss_Namespace ss) (WakeConfigMapName (ss_Name ss)) = Some cm
       \<and> wake_settled (cm_Data cm) now (fst (temporaryWakeBounds ss)) (snd (temporaryWakeBounds ss)))"

lemma csp_wake_settled:
  assumes laws: "kube_laws (rc_Client r) content" and "settled_wake ss now cl"
  shows "csp content (processWakeEntries r ctx ss now) cl (\<lambda>_ cl'. cl' = cl)"
proof -
  obtain cm where cm: "find_cm cl (ss_Namespace ss) (WakeConfigMapName (ss_Name ss)) = Some cm"
    and s: "wake_settled (cm_Data cm) now (fst (temporaryWakeBounds ss)) (snd (temporaryWakeBounds ss))"
    using assms(2) by blast
  have event: "csp content (bind_p (schedule_event r ss ty r1 m1) (\<lambda>_. return_p ws)) cl (\<lambda>_ cl'. cl' = cl)" for ty r1 m1 ws
    by (rule csp_bind, rule csp_event, unfold sum.case, rule csp_return, rule refl)
  have act: "csp content (applyWake r ctx ss now cm res) cl (\<lambda>_ cl'. cl' = cl)"
    if "now < rs_Expiry res" "\<not> rs_Changed res" for res
  proof -
    have n: "(\<not> time_After (rs_Expiry res) now) = False" using that(1) by (simp add: time_After_def)
    show ?thesis unfolding applyWake_def Let_def n if_False
      by (rule csp_bind, rule csp_when, rule csp_event; unfold sum.case, rule csp_bind, rule csp_when;
          (simp only: that)?; unfold sum.case, rule csp_bind, rule csp_event, unfold sum.case, rule csp_bind,
          rule csp_Record, unfold sum.case, rule csp_return, rule refl)
  qed
  show ?thesis unfolding processWakeEntries_def
  proof (rule csp_try, rule csp_get [OF kube_lawsD(7) [OF laws]], goal_cases)
    case (1 e) then show ?case by (auto intro!: csp_rules)
  next
    case (2 cm')
    then have e: "cm' = cm" using cm by simp
    show ?case unfolding sum.case e using s
      by (auto simp: wake_settled_def split: option.splits sum.splits prod.splits intro!: csp_return event act)
  qed
qed

lemma csp_read_settled:
  assumes laws: "kube_laws (rc_Client r) content" and ss: "find_schedule cl ns n = Some ss"
    and clock: "\<forall>w. clock r w = now" and wake: "settled_wake ss now cl"
  shows "csp content (reconcile_read r ctx ns n) cl (\<lambda>_ cl'. cl' = cl)"
  unfolding reconcile_read_def
proof (rule csp_try, rule csp_get [OF kube_lawsD(1) [OF laws]], goal_cases)
  case (1 e)
  then show ?case using ss by (auto intro!: csp_rules simp: isNotFound_def)
next
  case (2 ss')
  then have e: "ss' = ss" using ss by simp
  have ensure: "csp content (ensureWakeConfigMap r ss) cl (\<lambda>_ cl'. cl' = cl)"
    unfolding ensureWakeConfigMap_def Let_def
    by (rule csp_try, rule csp_get [OF kube_lawsD(7) [OF laws]])
      (use wake in \<open>auto intro!: csp_rules simp: isNotFound_def\<close>)
  show ?case unfolding sum.case e
  proof (rule csp_bind, rule csp_mono [OF ensure], goal_cases)
    case (1 r' cl')
    have "csp content (bind_p (reconciler_now r) (\<lambda>now. bind_p (processWakeEntries r ctx ss now) (\<lambda>ws.
        return_p (Some (ss, now, ws))))) cl (\<lambda>_ cl'. cl' = cl)"
      by (rule csp_bind, rule csp_clock, unfold sum.case, rule csp_bind, rule csp_mono, rule csp_wake_settled [OF laws])
        (use clock wake in \<open>auto intro!: csp_rules split: sum.split\<close>)
    then show ?case using 1 by (simp split: sum.split)
  qed
qed

lemma Reconcile_settled:
  fixes r :: "'w reconciler"
  assumes laws: "kube_laws (rc_Client r) content" and own: "owner_law (rc_Client r)"
    and clock: "\<forall>w. clock r w = now" and ss: "find_schedule (content (st_api s)) ns n = Some ss"
    and wake: "settled_wake ss now (content (st_api s))"
    and run: "Reconcile r ctx ns n s = Some (out, s')"
  obtains (failed) e where "content (st_api s') = content (st_api s)" and "out = Inl e"
    | (acted) res s1 where "Evaluate (k_LoadLocation (rc_Client r)) (ss_Spec ss) now = Some (Inr res)"
      and "reconcile_apply r ctx ss now (wake_of (content (st_api s)) ss now) res s1 = (out, s')"
      and "content (st_api s1) = content (st_api s)"
proof -
  obtain o1 s1 where o1: "reconcile_read r ctx ns n s = (o1, s1)" by fastforce
  have wf: "cluster_wf (content (st_api s))" using kube_lawsD(19) [OF laws] by simp
  have same: "content (st_api s1) = content (st_api s)"
    by (rule cspD [OF csp_read_settled [OF laws ss clock wake] o1])
  have "read_result r ns n (\<lambda>_. True) (content (st_api s)) o1 (content (st_api s1))"
    by (rule cspD [OF csp_read [OF laws own wf] o1]) simp_all
  note rd = this [unfolded read_result_def]
  show thesis
  proof (cases o1)
    case (Inl e)
    with run o1 same show thesis by (intro failed [of e]) (simp_all add: Reconcile_def)
  next
    case (Inr got)
    show thesis
    proof (cases got)
      case None
      with rd Inr ss show thesis by simp
    next
      case (Some a)
      with rd Inr ss clock have a: "a = (ss, now, wake_of (content (st_api s)) ss now)" by (cases a) auto
      from run o1 Inr Some a consider e where "out = Inl e" "s' = s1"
        | res where "Evaluate (k_LoadLocation (rc_Client r)) (ss_Spec ss) now = Some (Inr res)"
            "reconcile_apply r ctx ss now (wake_of (content (st_api s)) ss now) res s1 = (out, s')"
        by (auto simp: Reconcile_def split: option.splits sum.splits)
      then show thesis
      proof cases
        case 1 with same show thesis by (intro failed [of e]) simp_all
      next
        case 2 with same show thesis by (intro acted)
      qed
    qed
  qed
qed

section \<open>Acting twice\<close>

lemma rested_status: "rested st (ss\<lparr>ss_Status := x\<rparr>) asleep y cl = rested st ss asleep y cl"
  by (cases "(st, ss, asleep, y, cl)" rule: rested.cases) (simp_all add: secretName_def allowsPVCDeletion_def)

lemma at_rest_same:
  assumes "cl_obj cl' = cl_obj cl" and "cl_secret cl' = cl_secret cl"
  shows "at_rest st (ss\<lparr>ss_Status := x\<rparr>) asleep ref cl' = at_rest st ss asleep ref cl"
proof -
  have e: "entry st ss k cl' = entry st ss k cl" for k
    using assms(2) by (simp add: secret_entry_def find_secret_def)
  have "rested st ss asleep y cl' = rested st ss asleep y cl" for y
    using rested_entry [OF e] rested_entry [OF e [symmetric]] by blast
  then show ?thesis by (simp add: at_rest_def rested_status assms(1))
qed

lemma wake_same:
  assumes "cl_cm cl' = cl_cm cl"
  shows "settled_wake (ss\<lparr>ss_Status := x\<rparr>) now cl' = settled_wake ss now cl"
    and "wake_of cl' (ss\<lparr>ss_Status := x\<rparr>) now = wake_of cl ss now"
  using assms by (simp_all add: find_cm_def temporaryWakeBounds_def wake_of_def wake_data_def)

lemma csp_Apply_settles:
  fixes r :: "'w reconciler"
  assumes laws: "kube_laws (rc_Client r) content" and dry: "\<not> sp_DryRun (ss_Spec sch)"
    and wf: "cluster_wf cl" and dns: "dns_cluster cl" and refs: "set refs = stored_refs cl W"
  shows "csp content (Apply (reconcile_sleeper r a f) ctx sch asleep refs) cl (\<lambda>out cl'.
    cl_schedule cl' = cl_schedule cl \<and> cl_cm cl' = cl_cm cl
    \<and> (out = Inr () \<longrightarrow>
        (\<forall>ref \<in> stored_refs cl' W. at_rest (reconcile_store r) sch asleep ref cl')))"
proof -
  let ?sl = "reconcile_sleeper r a f"
  have sl: "kube_laws (sl_Client ?sl) content" "sr_Client (sl_Store ?sl) = sl_Client ?sl"
    "sl_Store ?sl = reconcile_store r" "sleeper_registry ?sl = Default_registry"
    using laws by (simp_all add: reconcile_sleeper_def reconcile_store_def sleeper_registry_def)
  have rdns: "\<forall>ref \<in> set refs. dns_ref ref" by (rule targets_dns [OF dns, where P = W]) (simp add: refs)
  have frame: "csp content (Apply ?sl ctx sch asleep refs) cl
      (\<lambda>_ cl'. \<forall>k. k \<notin> ref_key ` set refs \<longrightarrow> cl_obj cl' k = cl_obj cl k)"
    by (rule csp_Apply_frame [OF laws wf]) (auto simp: frame_def entry_upd_def put_obj_at)
  have rests: "csp content (apply_refs ?sl Default_registry c sch asleep refs) cl
      (\<lambda>r' cl'. \<forall>ref \<in> set refs. r' = Inr () \<longrightarrow> at_rest (reconcile_store r) sch asleep ref cl')" for c
  proof (rule csp_all)
    fix ref assume ref: "ref \<in> set refs"
    show "csp content (apply_refs ?sl Default_registry c sch asleep refs) cl
        (\<lambda>r' cl'. r' = Inr () \<longrightarrow> at_rest (reconcile_store r) sch asleep ref cl')"
      by (rule csp_mono, rule apply_refs_rests [OF sl(1,2) dry rdns rdns [rule_format, OF ref] wf])
        (use ref sl(3) in simp)
  qed
  have known: "ref \<in> set refs"
    if "ref \<in> stored_refs cl' W" "\<forall>k. k \<notin> ref_key ` set refs \<longrightarrow> cl_obj cl' k = cl_obj cl k" for ref cl'
  proof -
    from that(1) obtain y where y: "cl_obj cl' (key_of y) = Some y" "W y" "ref = ref_of y" by (auto simp: stored_refs_def)
    show ?thesis
    proof (cases "key_of y \<in> ref_key ` set refs")
      case True
      then obtain ref' where "ref' \<in> set refs" "ref_key ref' = ref_key (ref_of y)"
        by (auto simp: ref_key_def key_of_def ref_of_def)
      moreover from this(2) have "ref' = ref_of y"
        unfolding ref_key_def by (intro wref.equality) simp_all
      ultimately show ?thesis using y(3) by simp
    next
      case False
      with that(2) y(1) have "cl_obj cl (key_of y) = Some y" by metis
      then have "ref_of y \<in> stored_refs cl W" using y(2) unfolding stored_refs_def by blast
      then show ?thesis using refs y(3) by simp
    qed
  qed
  show ?thesis unfolding Apply_def sl(4)
    by (rule csp_mono [OF csp_conj [OF frame [unfolded Apply_def sl(4)] csp_conj [OF
          apply_keeps_names [OF sl(1,2) rdns dns wf] rests]]])
      (use known in auto)
qed

text \<open>What a successful pass leaves: the status, and every wanted workload at rest.\<close>

definition left_at_rest ::
  "'w reconciler \<Rightarrow> sleep_schedule \<Rightarrow> eval_result \<Rightarrow> wake_state \<Rightarrow> cluster \<Rightarrow> cluster \<Rightarrow> bool"
where
  "left_at_rest r ss res ws cl cl' \<longleftrightarrow>
     cl_cm cl' = cl_cm cl
     \<and> find_schedule cl' (ss_Namespace ss) (ss_Name ss) = Some (ss\<lparr>ss_Status := (ss_Status ss)
          \<lparr>ss_Phase := effective_phase res (0 < ws_ActiveCount ws), ss_NextTransition := next_status res,
           ss_ActiveWakes := of_nat (ws_ActiveCount ws)\<rparr>\<rparr>)
     \<and> (\<forall>ref \<in> stored_refs cl' (wanted (rc_Client r) (ss_Spec ss)).
          at_rest (reconcile_store r) ss (\<not> er_Awake res \<and> \<not> 0 < ws_ActiveCount ws) ref cl')"

lemma reconcile_apply_leaves:
  fixes r :: "'w reconciler"
  assumes laws: "kube_laws (rc_Client r) content" and wf: "cluster_wf cl" and dns: "dns_cluster cl"
    and dry: "\<not> sp_DryRun (ss_Spec ss)" and f: "find_schedule cl (ss_Namespace ss) (ss_Name ss) = Some ss"
  shows "csp content (reconcile_apply r ctx ss now ws res) cl
    (\<lambda>out cl'. \<forall>cr. out = Inr cr \<longrightarrow> \<not> cr_Requeue cr \<longrightarrow> left_at_rest r ss res ws cl cl')"
proof (rule csp_reconcile_apply [OF laws wf f, where M = "\<lambda>refs out cl'. cl_schedule cl' = cl_schedule cl
      \<and> cl_cm cl' = cl_cm cl \<and> (out = Inr () \<longrightarrow> (\<forall>ref \<in> stored_refs cl' (wanted (rc_Client r) (ss_Spec ss)).
          at_rest (reconcile_store r) ss (\<not> er_Awake res \<and> \<not> 0 < ws_ActiveCount ws) ref cl'))"], goal_cases)
  case (1 refs asleep forced)
  show ?case by (rule csp_mono [OF csp_Apply_settles [OF laws dry wf dns 1(1)]]) (use 1(2,3) in auto)
next
  case (6 refs cl')
  let ?c = "put_status ss (effective_phase res (0 < ws_ActiveCount ws)) (next_status res)
    (of_nat (ws_ActiveCount ws)) cl'"
  have same: "cl_obj ?c = cl_obj cl'" "cl_secret ?c = cl_secret cl'" by simp_all
  have refs: "stored_refs ?c W = stored_refs cl' W" for W by (simp add: stored_refs_def)
  have rest: "at_rest (reconcile_store r) ss a ref ?c = at_rest (reconcile_store r) ss a ref cl'" for a ref
    using at_rest_same [OF same, where ss = ss and x = "ss_Status ss"] by simp
  show ?case unfolding left_at_rest_def refs rest using 6(2) by (simp add: find_schedule_def)
qed simp_all

lemma reconcile_apply_at_rest:
  fixes r :: "'w reconciler"
  assumes laws: "kube_laws (rc_Client r) content" and wf: "cluster_wf cl"
    and left: "left_at_rest r ss res ws cl0 cl"
    and ss: "find_schedule cl (ss_Namespace ss) (ss_Name ss) = Some ss2"
  shows "csp content (reconcile_apply r ctx ss2 now ws res) cl (\<lambda>_ cl'. cl' = cl)"
proof -
  have ss2: "ss2 = ss\<lparr>ss_Status := (ss_Status ss)
          \<lparr>ss_Phase := effective_phase res (0 < ws_ActiveCount ws), ss_NextTransition := next_status res,
           ss_ActiveWakes := of_nat (ws_ActiveCount ws)\<rparr>\<rparr>" using left ss by (simp add: left_at_rest_def)
  have f: "find_schedule cl (ss_Namespace ss2) (ss_Name ss2) = Some ss2" using ss by (simp add: ss2)
  have rest: "at_rest (reconcile_store r) ss2 (\<not> er_Awake res \<and> \<not> 0 < ws_ActiveCount ws) ref cl"
    if "ref \<in> stored_refs cl (wanted (rc_Client r) (ss_Spec ss2))" for ref
    unfolding ss2 at_rest_same [OF refl refl] using left that by (simp add: left_at_rest_def ss2)
  show ?thesis
  proof (rule csp_reconcile_apply [OF laws wf f, where M = "\<lambda>_ _ cl'. cl' = cl"], goal_cases)
    case (1 refs asleep forced)
    let ?sl = "reconcile_sleeper r asleep forced"
    have sl: "kube_laws (sl_Client ?sl) content" "sr_Client (sl_Store ?sl) = sl_Client ?sl"
      "sl_Store ?sl = reconcile_store r" "sleeper_registry ?sl = Default_registry"
      using laws by (simp_all add: reconcile_sleeper_def reconcile_store_def sleeper_registry_def)
    have "\<forall>ref \<in> set refs. at_rest (sl_Store ?sl) ss2 asleep ref cl"
      unfolding sl(3) using rest 1 by simp
    from apply_refs_at_rest [OF sl(1,2) this wf] show ?case unfolding Apply_def sl(4) .
  next
    case (6 refs cl')
    have "put_status ss2 (ss_Phase (ss_Status ss2)) (ss_NextTransition (ss_Status ss2)) (ss_ActiveWakes (ss_Status ss2)) cl
        = cl" using f by (simp add: find_schedule_def fun_upd_idem)
    then show ?case using 6(2) by (simp add: ss2)
  qed simp_all
qed

text \<open>
  C5: No hot loop: with the clock standing still and the wake value stamped or absent, a pass that
  follows a successful one changes nothing in the cluster, neither a workload nor a checkpoint, the wake
  ConfigMap or the status, however it ends.
\<close>

theorem repeated_reconcile_changes_nothing:
  assumes "kube_laws (rc_Client r) content" and "owner_law (rc_Client r)" and "\<forall>w. clock r w = now"
    and "find_schedule (content (st_api s)) ns n = Some ss" and "\<not> sp_DryRun (ss_Spec ss)"
    and "dns_cluster (content (st_api s))" and "settled_wake ss now (content (st_api s))"
    and "Reconcile r ctx ns n s = Some (Inr cr, s1)" and "\<not> cr_Requeue cr"
    and "content (st_api s2) = content (st_api s1)" and "Reconcile r ctx' ns n s2 = Some (out, s3)"
  shows "content (st_api s3) = content (st_api s1)"
proof -
  let ?cl = "content (st_api s)" and ?cl2 = "content (st_api s1)"
  have wf: "cluster_wf (content w)" for w using kube_lawsD(19) [OF assms(1)] by simp
  have k: "ss_Namespace ss = ns" "ss_Name ss = n"
    using wf [of "st_api s"] assms(4) by (auto simp: cluster_wf_def find_schedule_def)
  have f: "find_schedule ?cl (ss_Namespace ss) (ss_Name ss) = Some ss" using assms(4) k by simp
  define ws where "ws = wake_of ?cl ss now"
  from assms(1-4,7,8) obtain res s0 where ev: "Evaluate (k_LoadLocation (rc_Client r)) (ss_Spec ss) now = Some (Inr res)"
    and app: "reconcile_apply r ctx ss now ws res s0 = (Inr cr, s1)" and s0: "content (st_api s0) = ?cl"
    by (cases rule: Reconcile_settled) (auto simp: ws_def)
  have left: "left_at_rest r ss res ws ?cl ?cl2"
    using cspD [OF reconcile_apply_leaves [OF assms(1) wf assms(6,5) f, folded s0] app] assms(9) by (simp add: s0)
  then have cm: "cl_cm ?cl2 = cl_cm ?cl" by (simp add: left_at_rest_def)
  from left obtain x where f2: "find_schedule ?cl2 ns n = Some (ss\<lparr>ss_Status := x\<rparr>)"
    by (simp add: left_at_rest_def k)
  let ?ss = "ss\<lparr>ss_Status := x\<rparr>"
  have wake: "settled_wake ?ss now ?cl2" "wake_of ?cl2 ?ss now = ws"
    using assms(7) unfolding wake_same [OF cm] ws_def by simp_all
  from assms(1-3) f2 [folded assms(10)] wake(1) [folded assms(10)] assms(11) show ?thesis
  proof (cases rule: Reconcile_settled [where s = s2 and ss = ?ss])
    case (acted res' s20)
    have "res' = res" using acted(1) ev by simp
    note app2 = acted(2) [unfolded this assms(10) wake(2)]
    have "csp content (reconcile_apply r ctx' ?ss now ws res) ?cl2 (\<lambda>_ cl'. cl' = ?cl2)"
      by (rule reconcile_apply_at_rest [OF assms(1) wf left]) (simp add: f2 k)
    from cspD [OF this [folded assms(10), folded acted(3)] app2] show ?thesis by (simp add: assms(10) acted(3))
  qed (simp_all add: assms(10))
qed

text \<open>A night with the wake ConfigMap in place, and the same pass once more.\<close>

definition still_mem :: mem where
  "still_mem = idle_mem\<lparr>mm_cms := [(wake_cm [])\<lparr>cm_Data := []\<rparr>], mm_version := 3\<rparr>"

definition once :: "((go_error + ctrl_result) \<times> mem state) option" where
  "once = Reconcile (clocked 345600) None ''team-a'' ''office'' (mem_state still_mem)"

lemma once_passes:
  "\<exists>cr s. once = Some (Inr cr, s) \<and> \<not> cr_Requeue cr
     \<and> cl_obj (mem_content (st_api s)) (key_of (KDeployment demo_deployment)) =
         Some (KDeployment (demo_deployment\<lparr>dp_Replicas := Some 0\<rparr>))
     \<and> (\<exists>cr' s'. Reconcile (clocked 345600) None ''team-a'' ''office'' s = Some (Inr cr', s'))"
proof -
  have "case once of Some (Inr cr, s) \<Rightarrow> \<not> cr_Requeue cr
      \<and> cl_obj (mem_content (st_api s)) (key_of (KDeployment demo_deployment)) =
         Some (KDeployment (demo_deployment\<lparr>dp_Replicas := Some 0\<rparr>))
      \<and> (case Reconcile (clocked 345600) None ''team-a'' ''office'' s of Some (Inr cr', s') \<Rightarrow> True | _ \<Rightarrow> False)
    | _ \<Rightarrow> False"
    by code_simp
  from returned [OF this] obtain cr s where o: "once = Some (Inr cr, s)" "\<not> cr_Requeue cr"
    "cl_obj (mem_content (st_api s)) (key_of (KDeployment demo_deployment)) =
       Some (KDeployment (demo_deployment\<lparr>dp_Replicas := Some 0\<rparr>))"
    "case Reconcile (clocked 345600) None ''team-a'' ''office'' s of Some (Inr cr', s') \<Rightarrow> True | _ \<Rightarrow> False"
    by blast
  from returned [OF o(4)] have "\<exists>cr' s'. Reconcile (clocked 345600) None ''team-a'' ''office'' s = Some (Inr cr', s')"
    by blast
  with o(1-3) show ?thesis by blast
qed

theorem repeated_reconcile_changes_nothing_witness:
  "\<exists>cr s cr' s'. once = Some (Inr cr, s)
     \<and> cl_obj (mem_content (st_api s)) (key_of (KDeployment demo_deployment)) =
         Some (KDeployment (demo_deployment\<lparr>dp_Replicas := Some 0\<rparr>))
     \<and> Reconcile (clocked 345600) None ''team-a'' ''office'' s = Some (Inr cr', s')
     \<and> mem_content (st_api s') = mem_content (st_api s)"
proof -
  let ?s = "mem_state still_mem"
  from once_passes obtain cr s cr' s' where o: "once = Some (Inr cr, s)" "\<not> cr_Requeue cr"
    "cl_obj (mem_content (st_api s)) (key_of (KDeployment demo_deployment)) =
       Some (KDeployment (demo_deployment\<lparr>dp_Replicas := Some 0\<rparr>))"
    "Reconcile (clocked 345600) None ''team-a'' ''office'' s = Some (Inr cr', s')" by blast
  have ss: "find_schedule (mem_content (st_api ?s)) ''team-a'' ''office'' = Some office_hours"
    and dry: "\<not> sp_DryRun (ss_Spec office_hours)"
    and cm: "map_option cm_Data (find_cm (mem_content (st_api ?s)) (ss_Namespace office_hours)
      (WakeConfigMapName (ss_Name office_hours))) = Some []" by code_simp+
  have dns: "dns_cluster (mem_content (st_api ?s))"
    using idle_dns by (simp add: dns_cluster_def still_mem_def mem_content_def mem_state_def)
  have wake: "settled_wake office_hours (345600 * d_Second) (mem_content (st_api ?s))"
    using cm by (auto simp: wake_settled_def)
  from repeated_reconcile_changes_nothing [OF clocked_laws ss dry dns wake o(1) [unfolded once_def] o(2) refl o(4)] o
  show ?thesis by blast
qed

end
