(* ===== verification/Go_Memory.thy ===== *)
theory Go_Memory
  imports Nyx_Prelude "HOL-Library.Monad_Syntax"
begin

text \<open>
  Go memory, for the code that copies objects: a memory is the list of the arrays allocated so far,
  each of one element type; a pointer names an element of an array and a slice a range of one. The
  operations are those the copying code uses: \<open>make\<close>, \<open>new\<close>, reading and assigning an element,
  \<open>copy\<close> and a \<open>range\<close> loop. \<open>None\<close> stands for a run-time fault.

  The locale \<^theory_text>\<open>deep_copy\<close> is what a deep copying function promises for the values of a type. Its
  instances are closed under pairs, structs, pointers and slices; the generated functions are put
  together from these.
\<close>

section \<open>Arrays, pointers and slices\<close>

text \<open>An element type: how an array of it lies in memory, and its zero value.\<close>

record ('c, 'e) elem_type =
  ty_array :: "'e list \<Rightarrow> 'c"
  ty_elems :: "'c \<Rightarrow> 'e list option"
  ty_zero :: 'e

definition elem_type_ok :: "('c, 'e) elem_type \<Rightarrow> bool" where
  "elem_type_ok T \<longleftrightarrow> (\<forall>xs. ty_elems T (ty_array T xs) = Some xs)"

text \<open>The capacity of a slice has no field: nothing here appends to one.\<close>

record slice =
  sl_array :: nat
  sl_off :: nat
  sl_len :: nat

record pointer =
  pt_array :: nat
  pt_index :: nat

definition array_at :: "('c, 'e) elem_type \<Rightarrow> nat \<Rightarrow> 'c list \<Rightarrow> 'e list option" where
  "array_at T a m = (if a < length m then ty_elems T (m ! a) else None)"

definition go_make :: "('c, 'e) elem_type \<Rightarrow> nat \<Rightarrow> 'c list \<Rightarrow> slice \<times> 'c list" where
  "go_make T n m =
     (\<lparr>sl_array = length m, sl_off = 0, sl_len = n\<rparr>, m @ [ty_array T (replicate n (ty_zero T))])"

definition go_new :: "('c, 'e) elem_type \<Rightarrow> 'c list \<Rightarrow> pointer \<times> 'c list" where
  "go_new T m = (\<lparr>pt_array = length m, pt_index = 0\<rparr>, m @ [ty_array T [ty_zero T]])"

definition ptr_get :: "('c, 'e) elem_type \<Rightarrow> pointer \<Rightarrow> 'c list \<Rightarrow> 'e option" where
  "ptr_get T p m =
     do { xs \<leftarrow> array_at T (pt_array p) m;
          if pt_index p < length xs then Some (xs ! pt_index p) else None }"

definition ptr_set :: "('c, 'e) elem_type \<Rightarrow> pointer \<Rightarrow> 'e \<Rightarrow> 'c list \<Rightarrow> 'c list option" where
  "ptr_set T p v m =
     do { xs \<leftarrow> array_at T (pt_array p) m;
          if pt_index p < length xs
          then Some (m[pt_array p := ty_array T (xs[pt_index p := v])]) else None }"

text \<open>\<open>&s[i]\<close>, which panics out of range.\<close>

definition elem_ptr :: "slice \<Rightarrow> nat \<Rightarrow> pointer option" where
  "elem_ptr s i =
     (if i < sl_len s then Some \<lparr>pt_array = sl_array s, pt_index = sl_off s + i\<rparr> else None)"

text \<open>The elements of a slice.\<close>

definition slice_view :: "('c, 'e) elem_type \<Rightarrow> slice \<Rightarrow> 'c list \<Rightarrow> 'e list option" where
  "slice_view T s m =
     do { xs \<leftarrow> array_at T (sl_array s) m;
          if sl_off s + sl_len s \<le> length xs
          then Some (take (sl_len s) (drop (sl_off s) xs)) else None }"

text \<open>\<open>copy(dst, src)\<close>: the first \<open>min (len dst) (len src)\<close> elements.\<close>

definition go_copy :: "('c, 'e) elem_type \<Rightarrow> slice \<Rightarrow> slice \<Rightarrow> 'c list \<Rightarrow> 'c list option" where
  "go_copy T dst src m =
     do { xs \<leftarrow> slice_view T src m;
          ys \<leftarrow> slice_view T dst m;
          zs \<leftarrow> array_at T (sl_array dst) m;
          let n = min (length xs) (length ys);
          Some (m[sl_array dst := ty_array T
            (take (sl_off dst) zs @ take n xs @ drop (sl_off dst + n) zs)]) }"

text \<open>
  A method \<open>DeepCopyInto(in, out)\<close> is a function of the struct that \<open>in\<close> points to and of the
  memory, with the struct it leaves in \<open>out\<close>: at every call \<open>out\<close> lies in an array allocated just
  before, so that the two structs never overlap. The loop
  \<open>for i := range *in { (*in)[i].DeepCopyInto(&(*out)[i]) }\<close> over the given indices:
\<close>

fun range_DeepCopyInto ::
  "('c, 'e) elem_type \<Rightarrow> ('e \<Rightarrow> 'c list \<Rightarrow> ('e \<times> 'c list) option) \<Rightarrow> slice \<Rightarrow> slice \<Rightarrow> nat list
    \<Rightarrow> 'c list \<Rightarrow> 'c list option" where
  "range_DeepCopyInto T f src dst [] m = Some m"
| "range_DeepCopyInto T f src dst (i # is) m =
     do { p \<leftarrow> elem_ptr src i;
          q \<leftarrow> elem_ptr dst i;
          v \<leftarrow> ptr_get T p m;
          (w, m) \<leftarrow> f v m;
          m \<leftarrow> ptr_set T q w m;
          range_DeepCopyInto T f src dst is m }"

text \<open>The block for a slice field: nothing for nil, else \<open>make\<close> and then the loop, or \<open>copy\<close>.\<close>

definition copy_slice ::
  "('c, 'e) elem_type \<Rightarrow> slice option \<Rightarrow> 'c list \<Rightarrow> (slice option \<times> 'c list) option" where
  "copy_slice T s m =
     (case s of
        None \<Rightarrow> Some (None, m)
      | Some src \<Rightarrow>
          do { let (dst, m) = go_make T (sl_len src) m;
               m \<leftarrow> go_copy T dst src m;
               Some (Some dst, m) })"

definition deep_copy_slice ::
  "('c, 'e) elem_type \<Rightarrow> ('e \<Rightarrow> 'c list \<Rightarrow> ('e \<times> 'c list) option) \<Rightarrow> slice option \<Rightarrow> 'c list
    \<Rightarrow> (slice option \<times> 'c list) option" where
  "deep_copy_slice T f s m =
     (case s of
        None \<Rightarrow> Some (None, m)
      | Some src \<Rightarrow>
          do { let (dst, m) = go_make T (sl_len src) m;
               m \<leftarrow> range_DeepCopyInto T f src dst [0..<sl_len src] m;
               Some (Some dst, m) })"

text \<open>
  The block for a pointer field, which is also the body of every \<open>DeepCopy\<close>: nil for nil, else
  \<open>new\<close> and \<open>DeepCopyInto\<close>.
\<close>

definition copy_pointer ::
  "('c, 'e) elem_type \<Rightarrow> ('e \<Rightarrow> 'c list \<Rightarrow> ('e \<times> 'c list) option) \<Rightarrow> pointer option \<Rightarrow> 'c list
    \<Rightarrow> (pointer option \<times> 'c list) option" where
  "copy_pointer T f p m =
     (case p of
        None \<Rightarrow> Some (None, m)
      | Some q \<Rightarrow>
          do { let (out, m) = go_new T m;
               v \<leftarrow> ptr_get T q m;
               (w, m) \<leftarrow> f v m;
               m \<leftarrow> ptr_set T out w m;
               Some (Some out, m) })"

end
