(* ===== verification/Deep_Copy.thy ===== *)
theory Deep_Copy
  imports Api_Types Go_Memory
begin

text \<open>
  The types of \<open>api/v1alpha1\<close> as they lie in memory, with their slices and pointers, and the
  generated methods of \<open>zz_generated.deepcopy.go\<close>. The types of \<open>apimachinery\<close> and their own deep
  copies are third-party code: one type variable for the values and a record for the methods.
\<close>

section \<open>The structs\<close>

text \<open>A slice or a pointer is \<open>None\<close> where it is nil. \<open>ResourceRef\<close> and \<open>TemporaryWake\<close> are flat.\<close>

record type_meta =
  ty_Kind :: string
  ty_APIVersion :: string

record awake_window_mem =
  wm_Days :: "slice option"
  wm_From :: string
  wm_To :: string

record target_mem =
  tm_Mode :: string
  tm_Namespaces :: "slice option"
  tm_Selector :: "pointer option"

record spec_mem =
  pm_Timezone :: string
  pm_Awake :: "slice option"
  pm_Target :: target_mem
  pm_Kinds :: "slice option"
  pm_ExcludeRefs :: "slice option"
  pm_SleepReplicas :: int32
  pm_TemporaryWake :: "pointer option"
  pm_DryRun :: bool

record status_mem =
  um_Phase :: string
  um_NextTransition :: "pointer option"
  um_ActiveWakes :: int32
  um_ArgocdManaged :: bool
  um_Conditions :: "slice option"

record 'x schedule_mem =
  sm_TypeMeta :: type_meta
  sm_ObjectMeta :: 'x
  sm_Spec :: spec_mem
  sm_Status :: status_mem

record 'x schedule_list_mem =
  lm_TypeMeta :: type_meta
  lm_ListMeta :: 'x
  lm_Items :: "slice option"

section \<open>Memory\<close>

text \<open>An array of Go memory, by the type of its elements; a \<open>Day\<close> is a string.\<close>

datatype 'x cell =
    StringArray "string list"
  | ResourceRefArray "resource_ref list"
  | TemporaryWakeArray "temporary_wake list"
  | AwakeWindowArray "awake_window_mem list"
  | TargetArray "target_mem list"
  | SpecArray "spec_mem list"
  | StatusArray "status_mem list"
  | ScheduleArray "'x schedule_mem list"
  | ScheduleListArray "'x schedule_list_mem list"
  | MetaArray "'x list"

type_synonym ('v, 'x) copier = "'v \<Rightarrow> 'x cell list \<Rightarrow> ('v \<times> 'x cell list) option"

record 'x apimachinery_methods =
  am_ObjectMeta_zero :: 'x
  am_ListMeta_zero :: 'x
  am_LabelSelector_zero :: 'x
  am_Condition_zero :: 'x
  am_Time_zero :: 'x
  am_ObjectMeta_DeepCopyInto :: "('x, 'x) copier"
  am_ListMeta_DeepCopyInto :: "('x, 'x) copier"
  am_LabelSelector_DeepCopyInto :: "('x, 'x) copier"
  am_Condition_DeepCopyInto :: "('x, 'x) copier"
  am_Time_DeepCopy :: "(pointer option, 'x) copier"

text \<open>Zero values of the structs.\<close>

definition target_zero :: target_mem where
  "target_zero = \<lparr>tm_Mode = '''', tm_Namespaces = None, tm_Selector = None\<rparr>"

definition spec_zero :: spec_mem where
  "spec_zero = \<lparr>pm_Timezone = '''', pm_Awake = None, pm_Target = target_zero, pm_Kinds = None,
     pm_ExcludeRefs = None, pm_SleepReplicas = 0, pm_TemporaryWake = None, pm_DryRun = False\<rparr>"

definition status_zero :: status_mem where
  "status_zero = \<lparr>um_Phase = '''', um_NextTransition = None, um_ActiveWakes = 0,
     um_ArgocdManaged = False, um_Conditions = None\<rparr>"

section \<open>Element types\<close>

definition string_type :: "('x cell, string) elem_type" where
  "string_type = \<lparr>ty_array = StringArray,
     ty_elems = (\<lambda>c. case c of StringArray xs \<Rightarrow> Some xs | _ \<Rightarrow> None), ty_zero = ''''\<rparr>"

definition resource_ref_type :: "('x cell, resource_ref) elem_type" where
  "resource_ref_type = \<lparr>ty_array = ResourceRefArray,
     ty_elems = (\<lambda>c. case c of ResourceRefArray xs \<Rightarrow> Some xs | _ \<Rightarrow> None),
     ty_zero = \<lparr>rr_Kind = '''', rr_Name = '''', rr_Namespace = ''''\<rparr>\<rparr>"

definition temporary_wake_type :: "('x cell, temporary_wake) elem_type" where
  "temporary_wake_type = \<lparr>ty_array = TemporaryWakeArray,
     ty_elems = (\<lambda>c. case c of TemporaryWakeArray xs \<Rightarrow> Some xs | _ \<Rightarrow> None),
     ty_zero = \<lparr>tw_MaxDuration = 0, tw_DefaultDuration = 0\<rparr>\<rparr>"

definition awake_window_type :: "('x cell, awake_window_mem) elem_type" where
  "awake_window_type = \<lparr>ty_array = AwakeWindowArray,
     ty_elems = (\<lambda>c. case c of AwakeWindowArray xs \<Rightarrow> Some xs | _ \<Rightarrow> None),
     ty_zero = \<lparr>wm_Days = None, wm_From = '''', wm_To = ''''\<rparr>\<rparr>"

definition target_type :: "('x cell, target_mem) elem_type" where
  "target_type = \<lparr>ty_array = TargetArray,
     ty_elems = (\<lambda>c. case c of TargetArray xs \<Rightarrow> Some xs | _ \<Rightarrow> None),
     ty_zero = target_zero\<rparr>"

definition spec_type :: "('x cell, spec_mem) elem_type" where
  "spec_type = \<lparr>ty_array = SpecArray,
     ty_elems = (\<lambda>c. case c of SpecArray xs \<Rightarrow> Some xs | _ \<Rightarrow> None),
     ty_zero = spec_zero\<rparr>"

definition status_type :: "('x cell, status_mem) elem_type" where
  "status_type = \<lparr>ty_array = StatusArray,
     ty_elems = (\<lambda>c. case c of StatusArray xs \<Rightarrow> Some xs | _ \<Rightarrow> None),
     ty_zero = status_zero\<rparr>"

definition schedule_type :: "'x apimachinery_methods \<Rightarrow> ('x cell, 'x schedule_mem) elem_type" where
  "schedule_type A = \<lparr>ty_array = ScheduleArray,
     ty_elems = (\<lambda>c. case c of ScheduleArray xs \<Rightarrow> Some xs | _ \<Rightarrow> None),
     ty_zero = \<lparr>sm_TypeMeta = \<lparr>ty_Kind = '''', ty_APIVersion = ''''\<rparr>,
       sm_ObjectMeta = am_ObjectMeta_zero A, sm_Spec = spec_zero,
       sm_Status = status_zero\<rparr>\<rparr>"

definition schedule_list_type ::
  "'x apimachinery_methods \<Rightarrow> ('x cell, 'x schedule_list_mem) elem_type" where
  "schedule_list_type A = \<lparr>ty_array = ScheduleListArray,
     ty_elems = (\<lambda>c. case c of ScheduleListArray xs \<Rightarrow> Some xs | _ \<Rightarrow> None),
     ty_zero = \<lparr>lm_TypeMeta = \<lparr>ty_Kind = '''', ty_APIVersion = ''''\<rparr>,
       lm_ListMeta = am_ListMeta_zero A, lm_Items = None\<rparr>\<rparr>"

text \<open>Arrays of the types of \<open>apimachinery\<close>, given the zero value of the type.\<close>

definition meta_type :: "'x \<Rightarrow> ('x cell, 'x) elem_type" where
  "meta_type z = \<lparr>ty_array = MetaArray,
     ty_elems = (\<lambda>c. case c of MetaArray xs \<Rightarrow> Some xs | _ \<Rightarrow> None), ty_zero = z\<rparr>"

section \<open>The generated methods\<close>

definition AwakeWindow_DeepCopyInto :: "(awake_window_mem, 'x) copier" where
  "AwakeWindow_DeepCopyInto inp m =
     do { let out = inp;
          (days, m) \<leftarrow> copy_slice string_type (wm_Days inp) m;
          Some (out\<lparr>wm_Days := days\<rparr>, m) }"

definition AwakeWindow_DeepCopy :: "(pointer option, 'x) copier" where
  "AwakeWindow_DeepCopy = copy_pointer awake_window_type AwakeWindow_DeepCopyInto"

definition ResourceRef_DeepCopyInto :: "(resource_ref, 'x) copier" where
  "ResourceRef_DeepCopyInto inp m = Some (inp, m)"

definition ResourceRef_DeepCopy :: "(pointer option, 'x) copier" where
  "ResourceRef_DeepCopy = copy_pointer resource_ref_type ResourceRef_DeepCopyInto"

definition TemporaryWake_DeepCopyInto :: "(temporary_wake, 'x) copier" where
  "TemporaryWake_DeepCopyInto inp m =
     do { let out = inp;
          let out = out\<lparr>tw_MaxDuration := tw_MaxDuration inp\<rparr>;
          let out = out\<lparr>tw_DefaultDuration := tw_DefaultDuration inp\<rparr>;
          Some (out, m) }"

definition TemporaryWake_DeepCopy :: "(pointer option, 'x) copier" where
  "TemporaryWake_DeepCopy = copy_pointer temporary_wake_type TemporaryWake_DeepCopyInto"

definition Target_DeepCopyInto :: "'x apimachinery_methods \<Rightarrow> (target_mem, 'x) copier" where
  "Target_DeepCopyInto A inp m =
     do { let out = inp;
          (namespaces, m) \<leftarrow> copy_slice string_type (tm_Namespaces inp) m;
          let out = out\<lparr>tm_Namespaces := namespaces\<rparr>;
          (selector, m) \<leftarrow> copy_pointer (meta_type (am_LabelSelector_zero A))
            (am_LabelSelector_DeepCopyInto A) (tm_Selector inp) m;
          Some (out\<lparr>tm_Selector := selector\<rparr>, m) }"

definition Target_DeepCopy :: "'x apimachinery_methods \<Rightarrow> (pointer option, 'x) copier" where
  "Target_DeepCopy A = copy_pointer target_type (Target_DeepCopyInto A)"

text \<open>The wake section is copied by \<open>**out = **in\<close>, without its method.\<close>

definition SleepScheduleSpec_DeepCopyInto :: "'x apimachinery_methods \<Rightarrow> (spec_mem, 'x) copier" where
  "SleepScheduleSpec_DeepCopyInto A inp m =
     do { let out = inp;
          (awake, m) \<leftarrow> deep_copy_slice awake_window_type AwakeWindow_DeepCopyInto (pm_Awake inp) m;
          let out = out\<lparr>pm_Awake := awake\<rparr>;
          (target, m) \<leftarrow> Target_DeepCopyInto A (pm_Target inp) m;
          let out = out\<lparr>pm_Target := target\<rparr>;
          (kinds, m) \<leftarrow> copy_slice string_type (pm_Kinds inp) m;
          let out = out\<lparr>pm_Kinds := kinds\<rparr>;
          (refs, m) \<leftarrow> copy_slice resource_ref_type (pm_ExcludeRefs inp) m;
          let out = out\<lparr>pm_ExcludeRefs := refs\<rparr>;
          (wake, m) \<leftarrow> copy_pointer temporary_wake_type (\<lambda>v m. Some (v, m)) (pm_TemporaryWake inp) m;
          Some (out\<lparr>pm_TemporaryWake := wake\<rparr>, m) }"

definition SleepScheduleSpec_DeepCopy :: "'x apimachinery_methods \<Rightarrow> (pointer option, 'x) copier" where
  "SleepScheduleSpec_DeepCopy A = copy_pointer spec_type (SleepScheduleSpec_DeepCopyInto A)"

definition SleepScheduleStatus_DeepCopyInto :: "'x apimachinery_methods \<Rightarrow> (status_mem, 'x) copier" where
  "SleepScheduleStatus_DeepCopyInto A inp m =
     do { let out = inp;
          (next, m) \<leftarrow> (if um_NextTransition inp \<noteq> None
                       then am_Time_DeepCopy A (um_NextTransition inp) m
                       else Some (um_NextTransition out, m));
          let out = out\<lparr>um_NextTransition := next\<rparr>;
          (conditions, m) \<leftarrow> deep_copy_slice (meta_type (am_Condition_zero A))
            (am_Condition_DeepCopyInto A) (um_Conditions inp) m;
          Some (out\<lparr>um_Conditions := conditions\<rparr>, m) }"

definition SleepScheduleStatus_DeepCopy :: "'x apimachinery_methods \<Rightarrow> (pointer option, 'x) copier" where
  "SleepScheduleStatus_DeepCopy A = copy_pointer status_type (SleepScheduleStatus_DeepCopyInto A)"

definition SleepSchedule_DeepCopyInto :: "'x apimachinery_methods \<Rightarrow> ('x schedule_mem, 'x) copier" where
  "SleepSchedule_DeepCopyInto A inp m =
     do { let out = inp;
          let out = out\<lparr>sm_TypeMeta := sm_TypeMeta inp\<rparr>;
          (meta, m) \<leftarrow> am_ObjectMeta_DeepCopyInto A (sm_ObjectMeta inp) m;
          let out = out\<lparr>sm_ObjectMeta := meta\<rparr>;
          (spec, m) \<leftarrow> SleepScheduleSpec_DeepCopyInto A (sm_Spec inp) m;
          let out = out\<lparr>sm_Spec := spec\<rparr>;
          (status, m) \<leftarrow> SleepScheduleStatus_DeepCopyInto A (sm_Status inp) m;
          Some (out\<lparr>sm_Status := status\<rparr>, m) }"

definition SleepSchedule_DeepCopy :: "'x apimachinery_methods \<Rightarrow> (pointer option, 'x) copier" where
  "SleepSchedule_DeepCopy A = copy_pointer (schedule_type A) (SleepSchedule_DeepCopyInto A)"

definition SleepScheduleList_DeepCopyInto ::
  "'x apimachinery_methods \<Rightarrow> ('x schedule_list_mem, 'x) copier" where
  "SleepScheduleList_DeepCopyInto A inp m =
     do { let out = inp;
          let out = out\<lparr>lm_TypeMeta := lm_TypeMeta inp\<rparr>;
          (meta, m) \<leftarrow> am_ListMeta_DeepCopyInto A (lm_ListMeta inp) m;
          let out = out\<lparr>lm_ListMeta := meta\<rparr>;
          (items, m) \<leftarrow> deep_copy_slice (schedule_type A) (SleepSchedule_DeepCopyInto A) (lm_Items inp) m;
          Some (out\<lparr>lm_Items := items\<rparr>, m) }"

definition SleepScheduleList_DeepCopy :: "'x apimachinery_methods \<Rightarrow> (pointer option, 'x) copier" where
  "SleepScheduleList_DeepCopy A = copy_pointer (schedule_list_type A) (SleepScheduleList_DeepCopyInto A)"

text \<open>
  A \<open>runtime.Object\<close> interface holds a pointer and its type; \<open>None\<close> is the nil interface, which an
  interface that holds a nil pointer is not.
\<close>

datatype runtime_object =
    ScheduleObject "pointer option"
  | ScheduleListObject "pointer option"

definition SleepSchedule_DeepCopyObject ::
  "'x apimachinery_methods \<Rightarrow> pointer option \<Rightarrow> 'x cell list
    \<Rightarrow> (runtime_object option \<times> 'x cell list) option" where
  "SleepSchedule_DeepCopyObject A inp m =
     do { (c, m) \<leftarrow> SleepSchedule_DeepCopy A inp m;
          if c \<noteq> None then Some (Some (ScheduleObject c), m) else Some (None, m) }"

definition SleepScheduleList_DeepCopyObject ::
  "'x apimachinery_methods \<Rightarrow> pointer option \<Rightarrow> 'x cell list
    \<Rightarrow> (runtime_object option \<times> 'x cell list) option" where
  "SleepScheduleList_DeepCopyObject A inp m =
     do { (c, m) \<leftarrow> SleepScheduleList_DeepCopy A inp m;
          if c \<noteq> None then Some (Some (ScheduleListObject c), m) else Some (None, m) }"

end
