(* ===== verification/Memory_Copy.thy ===== *)
theory Memory_Copy
  imports Go_Memory
begin

text \<open>
  What a deep copy promises, as a locale, and the constructions under which the promise is closed:
  flat values, pairs, structs, pointers and slices. A type is seen through three functions of a value
  and the memory: whether all it refers to is there (\<open>valid\<close>), the arrays that it refers to
  (\<open>reach\<close>), and what it says when every reference is followed (\<open>content\<close>).
\<close>

section \<open>The interface\<close>

definition agree_on :: "nat set \<Rightarrow> 'c list \<Rightarrow> 'c list \<Rightarrow> bool" where
  "agree_on A m m' \<longleftrightarrow> (\<forall>a \<in> A. a < length m' \<and> m' ! a = m ! a)"

lemma agree_on_mono: "agree_on A m m' \<Longrightarrow> B \<subseteq> A \<Longrightarrow> agree_on B m m'"
  by (auto simp: agree_on_def)

lemma agree_on_Un: "agree_on (A \<union> B) m m' \<longleftrightarrow> agree_on A m m' \<and> agree_on B m m'"
  by (auto simp: agree_on_def)

lemma agree_on_insert:
  "agree_on (insert a A) m m' \<longleftrightarrow> a < length m' \<and> m' ! a = m ! a \<and> agree_on A m m'"
  by (auto simp: agree_on_def)

lemma agree_on_UN: "agree_on (\<Union>x \<in> S. F x) m m' \<longleftrightarrow> (\<forall>x \<in> S. agree_on (F x) m m')"
  by (auto simp: agree_on_def)

lemma agree_on_append: "A \<subseteq> {..<length m} \<Longrightarrow> agree_on A m (m @ r)"
  by (auto simp: agree_on_def nth_append)

text \<open>Between two memories nothing is changed but the arrays of a set, and what is new.\<close>

definition changes_only :: "nat set \<Rightarrow> 'c list \<Rightarrow> 'c list \<Rightarrow> bool" where
  "changes_only R m m' \<longleftrightarrow> agree_on ({..<length m} - R) m m'"

text \<open>A view depends on the arrays it reaches only.\<close>

locale memory_view =
  fixes valid :: "'v \<Rightarrow> 'c list \<Rightarrow> bool"
    and reach :: "'v \<Rightarrow> 'c list \<Rightarrow> nat set"
    and content :: "'v \<Rightarrow> 'c list \<Rightarrow> 'k"
  assumes reach_bound: "valid v m \<Longrightarrow> reach v m \<subseteq> {..<length m}"
    and valid_frame: "valid v m \<Longrightarrow> agree_on (reach v m) m m' \<Longrightarrow> valid v m'"
    and reach_frame: "valid v m \<Longrightarrow> agree_on (reach v m) m m' \<Longrightarrow> reach v m' = reach v m"
    and content_frame: "valid v m \<Longrightarrow> agree_on (reach v m) m m' \<Longrightarrow> content v m' = content v m"

text \<open>
  A deep copy does not fault, leaves the memory there is as it was, says the same as the original,
  and reaches only arrays that it allocated.
\<close>

definition copied ::
  "('v \<Rightarrow> 'c list \<Rightarrow> bool) \<Rightarrow> ('v \<Rightarrow> 'c list \<Rightarrow> nat set) \<Rightarrow> ('v \<Rightarrow> 'c list \<Rightarrow> 'k)
    \<Rightarrow> 'v \<Rightarrow> 'c list \<Rightarrow> ('v \<times> 'c list) option \<Rightarrow> bool" where
  "copied valid reach content v m res \<longleftrightarrow>
     (\<exists>w r. res = Some (w, m @ r) \<and> valid w (m @ r) \<and> content w (m @ r) = content v m
        \<and> reach w (m @ r) \<subseteq> {length m..})"

locale deep_copy = memory_view valid reach content
  for valid :: "'v \<Rightarrow> 'c list \<Rightarrow> bool"
    and reach :: "'v \<Rightarrow> 'c list \<Rightarrow> nat set"
    and content :: "'v \<Rightarrow> 'c list \<Rightarrow> 'k" +
  fixes dcopy :: "'v \<Rightarrow> 'c list \<Rightarrow> ('v \<times> 'c list) option"
  assumes copies: "valid v m \<Longrightarrow> copied valid reach content v m (dcopy v m)"
begin

lemma copy_returns:
  assumes "valid v m"
  obtains w r where "dcopy v m = Some (w, m @ r)" "valid w (m @ r)"
    "content w (m @ r) = content v m" "reach w (m @ r) \<subseteq> {length m..<length m + length r}"
proof -
  obtain w r where w: "dcopy v m = Some (w, m @ r)" "valid w (m @ r)"
    "content w (m @ r) = content v m" "reach w (m @ r) \<subseteq> {length m..}"
    using copies [OF assms] unfolding copied_def by blast
  have "reach w (m @ r) \<subseteq> {..<length (m @ r)}" by (rule reach_bound [OF w(2)])
  then have "reach w (m @ r) \<subseteq> {length m..<length m + length r}" using w(4) by fastforce
  with w(1-3) show thesis by (rule that)
qed

text \<open>Whatever is stored in the arrays of the copy later, the original keeps its content.\<close>

lemma original_unaffected:
  assumes "valid v m" and "dcopy v m = Some (w, m')"
    and "changes_only (reach w m') m' m''"
  shows "valid v m'' \<and> content v m'' = content v m"
proof -
  obtain r where m': "m' = m @ r" and fresh: "reach w m' \<subseteq> {length m..<length m + length r}"
    using copy_returns [OF assms(1)] assms(2) by (metis option.inject prod.inject)
  have "agree_on (reach v m) m' m''"
    by (rule agree_on_mono [OF assms(3) [unfolded changes_only_def]]) (use reach_bound [OF assms(1)] fresh m' in fastforce)
  then have "agree_on (reach v m) m m''"
    using reach_bound [OF assms(1)] unfolding m' agree_on_def by (auto simp: nth_append subset_iff)
  then show ?thesis using assms(1) by (simp add: valid_frame content_frame)
qed

text \<open>And conversely.\<close>

lemma copy_unaffected:
  assumes "valid v m" and "dcopy v m = Some (w, m')"
    and "changes_only (reach v m) m' m''"
  shows "valid w m'' \<and> content w m'' = content v m"
proof -
  obtain r where m': "m' = m @ r" and w: "valid w m'" "content w m' = content v m"
    and fresh: "reach w m' \<subseteq> {length m..<length m + length r}"
    using copy_returns [OF assms(1)] assms(2) by (metis option.inject prod.inject)
  have "agree_on (reach w m') m' m''"
    by (rule agree_on_mono [OF assms(3) [unfolded changes_only_def]])
      (use fresh reach_bound [OF assms(1)] reach_bound [OF w(1)] in fastforce)
  then show ?thesis using w by (simp add: valid_frame content_frame)
qed

end

lemma copiedI:
  "res = Some (w, m @ r) \<Longrightarrow> valid w (m @ r) \<Longrightarrow> content w (m @ r) = content v m
    \<Longrightarrow> reach w (m @ r) \<subseteq> {length m..} \<Longrightarrow> copied valid reach content v m res"
  by (auto simp: copied_def)

section \<open>Flat values, pairs and structs\<close>

definition flat_valid :: "'v \<Rightarrow> 'c list \<Rightarrow> bool" where "flat_valid v m = True"
definition flat_reach :: "'v \<Rightarrow> 'c list \<Rightarrow> nat set" where "flat_reach v m = {}"
definition flat_content :: "'v \<Rightarrow> 'c list \<Rightarrow> 'v" where "flat_content v m = v"
definition flat_copy :: "'v \<Rightarrow> 'c list \<Rightarrow> ('v \<times> 'c list) option" where "flat_copy v m = Some (v, m)"

lemmas flat_defs = flat_valid_def flat_reach_def flat_content_def flat_copy_def

interpretation flat: deep_copy flat_valid flat_reach flat_content flat_copy
  by unfold_locales (auto simp: flat_defs copied_def)

definition pair_valid where "pair_valid val1 val2 v m = (val1 (fst v) m \<and> val2 (snd v) m)"
definition pair_reach where "pair_reach rch1 rch2 v m = rch1 (fst v) m \<union> rch2 (snd v) m"
definition pair_content where "pair_content con1 con2 v m = (con1 (fst v) m, con2 (snd v) m)"
definition pair_copy where
  "pair_copy f g v m = do { (a, m) \<leftarrow> f (fst v) m; (b, m) \<leftarrow> g (snd v) m; Some ((a, b), m) }"

lemmas pair_defs = pair_valid_def pair_reach_def pair_content_def pair_copy_def

lemma pair_view:
  assumes "memory_view val1 rch1 con1" and "memory_view val2 rch2 con2"
  shows "memory_view (pair_valid val1 val2) (pair_reach rch1 rch2) (pair_content con1 con2)"
proof
  note v1 = assms(1) and v2 = assms(2)
  fix v m m' assume val: "pair_valid val1 val2 v m"
  then have val1: "val1 (fst v) m" and val2: "val2 (snd v) m" by (simp_all add: pair_defs)
  show "pair_reach rch1 rch2 v m \<subseteq> {..<length m}"
    using memory_view.reach_bound [OF v1 val1] memory_view.reach_bound [OF v2 val2]
    by (simp add: pair_defs)
  assume "agree_on (pair_reach rch1 rch2 v m) m m'"
  then have same: "agree_on (rch1 (fst v) m) m m'" "agree_on (rch2 (snd v) m) m m'"
    by (simp_all add: pair_defs agree_on_Un)
  show "pair_valid val1 val2 v m'"
    using memory_view.valid_frame [OF v1 val1 same(1)] memory_view.valid_frame [OF v2 val2 same(2)]
    by (simp add: pair_defs)
  show "pair_reach rch1 rch2 v m' = pair_reach rch1 rch2 v m"
    using memory_view.reach_frame [OF v1 val1 same(1)] memory_view.reach_frame [OF v2 val2 same(2)]
    by (simp add: pair_defs)
  show "pair_content con1 con2 v m' = pair_content con1 con2 v m"
    using memory_view.content_frame [OF v1 val1 same(1)]
      memory_view.content_frame [OF v2 val2 same(2)]
    by (simp add: pair_defs)
qed

lemma pair_deep_copy:
  assumes f: "deep_copy val1 rch1 con1 f" and g: "deep_copy val2 rch2 con2 g"
  shows "deep_copy (pair_valid val1 val2) (pair_reach rch1 rch2) (pair_content con1 con2)
    (pair_copy f g)"
proof (intro deep_copy.intro deep_copy_axioms.intro)
  note v1 = deep_copy.axioms(1) [OF f] and v2 = deep_copy.axioms(1) [OF g]
  show "memory_view (pair_valid val1 val2) (pair_reach rch1 rch2) (pair_content con1 con2)"
    by (rule pair_view [OF v1 v2])
  fix v m assume "pair_valid val1 val2 v m"
  then have val: "val1 (fst v) m" "val2 (snd v) m" by (simp_all add: pair_defs)
  obtain a r where a: "f (fst v) m = Some (a, m @ r)" "val1 a (m @ r)"
    "con1 a (m @ r) = con1 (fst v) m" "rch1 a (m @ r) \<subseteq> {length m..<length m + length r}"
    by (rule deep_copy.copy_returns [OF f val(1)])
  have same: "agree_on (rch2 (snd v) m) m (m @ r)"
    by (rule agree_on_append) (rule memory_view.reach_bound [OF v2 val(2)])
  obtain b s where b: "g (snd v) (m @ r) = Some (b, (m @ r) @ s)" "val2 b ((m @ r) @ s)"
    "con2 b ((m @ r) @ s) = con2 (snd v) (m @ r)"
    "rch2 b ((m @ r) @ s) \<subseteq> {length (m @ r)..<length (m @ r) + length s}"
    by (rule deep_copy.copy_returns [OF g memory_view.valid_frame [OF v2 val(2) same]])
  have kept: "agree_on (rch1 a (m @ r)) (m @ r) ((m @ r) @ s)"
    by (rule agree_on_append) (rule memory_view.reach_bound [OF v1 a(2)])
  show "copied (pair_valid val1 val2) (pair_reach rch1 rch2) (pair_content con1 con2) v m
    (pair_copy f g v m)"
  proof (rule copiedI)
    show "pair_copy f g v m = Some ((a, b), m @ r @ s)" using a(1) b(1) by (simp add: pair_defs)
    show "pair_valid val1 val2 (a, b) (m @ r @ s)"
      using memory_view.valid_frame [OF v1 a(2) kept] b(2) by (simp add: pair_defs)
    show "pair_content con1 con2 (a, b) (m @ r @ s) = pair_content con1 con2 v m"
      using memory_view.content_frame [OF v1 a(2) kept] a(3) b(3)
        memory_view.content_frame [OF v2 val(2) same] by (simp add: pair_defs)
    show "pair_reach rch1 rch2 (a, b) (m @ r @ s) \<subseteq> {length m..}"
      using memory_view.reach_frame [OF v1 a(2) kept] a(4) b(4) by (auto simp: pair_defs)
  qed
qed

text \<open>
  A struct: the fields that hold references (\<open>parts\<close>), and what is left (\<open>rest\<close>). Its copy assigns
  the whole struct, then every such field.
\<close>

definition struct_valid where "struct_valid parts val v m = val (parts v) m"
definition struct_reach where "struct_reach parts rch v m = rch (parts v) m"
definition struct_content where "struct_content rest parts con v m = (rest v, con (parts v) m)"
definition struct_copy where
  "struct_copy parts build f v m = do { (p, m) \<leftarrow> f (parts v) m; Some (build v p, m) }"

lemmas struct_defs = struct_valid_def struct_reach_def struct_content_def struct_copy_def

lemma struct_view:
  assumes "memory_view val rch con"
  shows "memory_view (struct_valid parts val) (struct_reach parts rch) (struct_content rest parts con)"
  unfolding struct_defs
  by (intro memory_view.intro, erule memory_view.reach_bound [OF assms],
      erule (1) memory_view.valid_frame [OF assms], erule (1) memory_view.reach_frame [OF assms],
      drule (1) memory_view.content_frame [OF assms], simp)

lemma struct_deep_copy:
  assumes f: "deep_copy val rch con f"
    and build: "\<And>v p. parts (build v p) = p" "\<And>v p. rest (build v p) = rest v"
  shows "deep_copy (struct_valid parts val) (struct_reach parts rch) (struct_content rest parts con)
    (struct_copy parts build f)"
proof (intro deep_copy.intro deep_copy_axioms.intro)
  show "memory_view (struct_valid parts val) (struct_reach parts rch) (struct_content rest parts con)"
    by (rule struct_view [OF deep_copy.axioms(1) [OF f]])
  fix v m assume "struct_valid parts val v m"
  then have "copied val rch con (parts v) m (f (parts v) m)"
    by (intro deep_copy.copies [OF f]) (simp add: struct_defs)
  then show "copied (struct_valid parts val) (struct_reach parts rch)
    (struct_content rest parts con) v m (struct_copy parts build f v m)"
    by (auto simp: copied_def struct_defs build)
qed

section \<open>Pointers\<close>

definition ptr_valid where
  "ptr_valid T val p m =
     (case p of None \<Rightarrow> True
      | Some q \<Rightarrow> (case ptr_get T q m of None \<Rightarrow> False | Some v \<Rightarrow> val v m))"

definition ptr_reach where
  "ptr_reach T rch p m =
     (case p of None \<Rightarrow> {}
      | Some q \<Rightarrow> insert (pt_array q) (case ptr_get T q m of None \<Rightarrow> {} | Some v \<Rightarrow> rch v m))"

definition ptr_content where
  "ptr_content T con p m = Option.bind p (\<lambda>q. map_option (\<lambda>v. con v m) (ptr_get T q m))"

lemmas ptr_defs = ptr_valid_def ptr_reach_def ptr_content_def

lemma array_at_bound: "array_at T a m = Some xs \<Longrightarrow> a < length m"
  by (simp add: array_at_def split: if_splits)

lemma ptr_get_bound: "ptr_get T q m = Some v \<Longrightarrow> pt_array q < length m"
  by (cases "pt_array q < length m") (simp_all add: ptr_get_def array_at_def)

lemma ptr_get_frame:
  "pt_array q < length m \<Longrightarrow> pt_array q < length m' \<Longrightarrow> m' ! pt_array q = m ! pt_array q
    \<Longrightarrow> ptr_get T q m' = ptr_get T q m"
  by (simp add: ptr_get_def array_at_def)

lemma ptr_valid_Some:
  "ptr_valid T val (Some q) m \<longleftrightarrow> (\<exists>v. ptr_get T q m = Some v \<and> val v m)"
  by (simp add: ptr_valid_def split: option.split)

lemma ptr_view:
  assumes "memory_view val rch con"
  shows "memory_view (ptr_valid T val) (ptr_reach T rch) (ptr_content T con)"
proof
  fix p m m' assume val: "ptr_valid T val p m"
  show bound: "ptr_reach T rch p m \<subseteq> {..<length m}"
    using val by (auto simp: ptr_defs split: option.splits
      dest: ptr_get_bound subsetD [OF memory_view.reach_bound [OF assms]])
  assume same: "agree_on (ptr_reach T rch p m) m m'"
  have "ptr_valid T val p m' \<and> ptr_reach T rch p m' = ptr_reach T rch p m
    \<and> ptr_content T con p m' = ptr_content T con p m"
  proof (cases p)
    case (Some q)
    then obtain v where v: "ptr_get T q m = Some v" "val v m" using val by (auto simp: ptr_valid_Some)
    have sub: "agree_on (rch v m) m m'" and q: "ptr_get T q m' = Some v"
      using same v(1) ptr_get_frame [OF ptr_get_bound [OF v(1)], of m' T]
      by (auto simp: Some ptr_defs agree_on_insert)
    show ?thesis
      using v q memory_view.valid_frame [OF assms v(2) sub] memory_view.reach_frame [OF assms v(2) sub]
        memory_view.content_frame [OF assms v(2) sub] by (simp add: Some ptr_defs)
  qed (simp add: ptr_defs)
  then show "ptr_valid T val p m'" "ptr_reach T rch p m' = ptr_reach T rch p m"
    "ptr_content T con p m' = ptr_content T con p m" by simp_all
qed

lemma array_at_mid [simp]:
  "elem_type_ok T \<Longrightarrow> array_at T (length m) (m @ ty_array T xs # r) = Some xs"
  by (simp add: array_at_def elem_type_ok_def)

lemma ptr_set_new:
  "elem_type_ok T \<Longrightarrow>
   ptr_set T \<lparr>pt_array = length m, pt_index = 0\<rparr> v (m @ ty_array T [z] # r)
     = Some (m @ ty_array T [v] # r)"
  by (simp add: ptr_set_def)

lemma ptr_get_new:
  "elem_type_ok T \<Longrightarrow>
   ptr_get T \<lparr>pt_array = length m, pt_index = 0\<rparr> (m @ ty_array T [v] # r) = Some v"
  by (simp add: ptr_get_def)

text \<open>Arrays past a position stay as they are when the one at the position is overwritten.\<close>

lemma agree_on_overwrite:
  assumes "A \<subseteq> {Suc (length m)..<Suc (length m + length r)}"
  shows "agree_on A (m @ x # r) (m @ y # r @ s)"
proof -
  have "a - Suc (length m) < length r \<and> Suc (length m) \<le> a" if "a \<in> A" for a
    using subsetD [OF assms that] by auto
  then show ?thesis by (fastforce simp: agree_on_def nth_append nth_Cons split: nat.split)
qed

lemma ptr_deep_copy:
  assumes T: "elem_type_ok T" and f: "deep_copy val rch con f"
  shows "deep_copy (ptr_valid T val) (ptr_reach T rch) (ptr_content T con) (copy_pointer T f)"
proof (intro deep_copy.intro deep_copy_axioms.intro)
  note view = deep_copy.axioms(1) [OF f]
  show "memory_view (ptr_valid T val) (ptr_reach T rch) (ptr_content T con)"
    by (rule ptr_view [OF view])
  fix p m assume val: "ptr_valid T val p m"
  show "copied (ptr_valid T val) (ptr_reach T rch) (ptr_content T con) p m (copy_pointer T f p m)"
  proof (cases p)
    case None
    then show ?thesis by (auto simp: copied_def ptr_defs copy_pointer_def)
  next
    case (Some q)
    let ?z = "ty_array T [ty_zero T]"
    obtain v where v: "ptr_get T q m = Some v" "val v m" using val by (auto simp: Some ptr_valid_Some)
    have q: "ptr_get T q (m @ [?z]) = Some v"
      using v(1) ptr_get_bound [OF v(1)] by (subst ptr_get_frame [of _ m]) (auto simp: nth_append)
    have same: "agree_on (rch v m) m (m @ [?z])"
      by (rule agree_on_append) (rule memory_view.reach_bound [OF view v(2)])
    obtain w r where w: "f v (m @ [?z]) = Some (w, (m @ [?z]) @ r)" "val w ((m @ [?z]) @ r)"
      "con w ((m @ [?z]) @ r) = con v (m @ [?z])"
      "rch w ((m @ [?z]) @ r) \<subseteq> {length (m @ [?z])..<length (m @ [?z]) + length r}"
      by (rule deep_copy.copy_returns [OF f memory_view.valid_frame [OF view v(2) same]])
    let ?m = "m @ ty_array T [w] # r"
    have kept: "agree_on (rch w ((m @ [?z]) @ r)) ((m @ [?z]) @ r) ?m"
      using agree_on_overwrite [of "rch w ((m @ [?z]) @ r)" m r ?z "ty_array T [w]" "[]"] w(4) by simp
    show ?thesis
    proof (rule copiedI)
      let ?p = "Some \<lparr>pt_array = length m, pt_index = 0\<rparr>"
      show "copy_pointer T f p m = Some (?p, ?m)"
        using q w(1) by (simp add: copy_pointer_def Some go_new_def ptr_set_new [OF T])
      show "ptr_valid T val ?p ?m"
        using memory_view.valid_frame [OF view w(2) kept] by (simp add: ptr_defs ptr_get_new [OF T])
      show "ptr_content T con ?p ?m = ptr_content T con p m"
        using memory_view.content_frame [OF view w(2) kept] w(3)
          memory_view.content_frame [OF view v(2) same] v(1)
        by (simp add: ptr_defs ptr_get_new [OF T] Some)
      show "ptr_reach T rch ?p ?m \<subseteq> {length m..}"
        using memory_view.reach_frame [OF view w(2) kept] w(4)
        by (auto simp: ptr_defs ptr_get_new [OF T])
    qed
  qed
qed

section \<open>Slices\<close>

definition slice_valid where
  "slice_valid T val s m =
     (case s of None \<Rightarrow> True
      | Some sl \<Rightarrow> (case slice_view T sl m of None \<Rightarrow> False | Some vs \<Rightarrow> list_all (\<lambda>v. val v m) vs))"

definition slice_reach where
  "slice_reach T rch s m =
     (case s of None \<Rightarrow> {}
      | Some sl \<Rightarrow> insert (sl_array sl)
          (case slice_view T sl m of None \<Rightarrow> {} | Some vs \<Rightarrow> (\<Union>v \<in> set vs. rch v m)))"

definition slice_content where
  "slice_content T con s m =
     Option.bind s (\<lambda>sl. map_option (map (\<lambda>v. con v m)) (slice_view T sl m))"

lemmas slice_defs = slice_valid_def slice_reach_def slice_content_def

lemma slice_view_bound: "slice_view T sl m = Some vs \<Longrightarrow> sl_array sl < length m"
  by (cases "sl_array sl < length m") (simp_all add: slice_view_def array_at_def)

lemma slice_view_frame:
  "sl_array sl < length m \<Longrightarrow> sl_array sl < length m' \<Longrightarrow> m' ! sl_array sl = m ! sl_array sl
    \<Longrightarrow> slice_view T sl m' = slice_view T sl m"
  by (simp add: slice_view_def array_at_def)

lemma slice_valid_Some:
  "slice_valid T val (Some sl) m \<longleftrightarrow>
     (\<exists>vs. slice_view T sl m = Some vs \<and> (\<forall>v \<in> set vs. val v m))"
  by (simp add: slice_valid_def list_all_iff split: option.split)

lemma slice_mem_view:
  assumes "memory_view val rch con"
  shows "memory_view (slice_valid T val) (slice_reach T rch) (slice_content T con)"
proof
  fix s m m' assume val: "slice_valid T val s m"
  show "slice_reach T rch s m \<subseteq> {..<length m}"
    using val by (auto simp: slice_defs list_all_iff split: option.splits
      dest: slice_view_bound subsetD [OF memory_view.reach_bound [OF assms]])
  assume same: "agree_on (slice_reach T rch s m) m m'"
  have "slice_valid T val s m' \<and> slice_reach T rch s m' = slice_reach T rch s m
    \<and> slice_content T con s m' = slice_content T con s m"
  proof (cases s)
    case (Some sl)
    then obtain vs where vs: "slice_view T sl m = Some vs" and val: "\<And>v. v \<in> set vs \<Longrightarrow> val v m"
      using val by (auto simp: slice_valid_Some)
    have sub: "agree_on (rch v m) m m'" if "v \<in> set vs" for v
      using same vs that by (auto simp: Some slice_defs agree_on_insert agree_on_UN)
    have sl: "slice_view T sl m' = Some vs"
      using same vs slice_view_frame [OF slice_view_bound [OF vs], of m' T]
      by (simp add: Some slice_defs agree_on_insert)
    have elems: "val v m'" "rch v m' = rch v m" "con v m' = con v m" if "v \<in> set vs" for v
      using memory_view.valid_frame [OF assms val [OF that] sub [OF that]]
        memory_view.reach_frame [OF assms val [OF that] sub [OF that]]
        memory_view.content_frame [OF assms val [OF that] sub [OF that]] by auto
    show ?thesis using vs sl elems by (simp add: Some slice_defs list_all_iff)
  qed (simp add: slice_defs)
  then show "slice_valid T val s m'" "slice_reach T rch s m' = slice_reach T rch s m"
    "slice_content T con s m' = slice_content T con s m" by simp_all
qed

text \<open>A freshly made slice.\<close>

lemma slice_view_new:
  "elem_type_ok T \<Longrightarrow> length xs = n \<Longrightarrow>
   slice_view T \<lparr>sl_array = length m, sl_off = 0, sl_len = n\<rparr> (m @ ty_array T xs # r) = Some xs"
  by (simp add: slice_view_def)

lemma copy_slice_copies:
  assumes T: "elem_type_ok T"
  shows "deep_copy (slice_valid T flat_valid) (slice_reach T flat_reach)
    (slice_content T flat_content) (copy_slice T)"
proof (intro deep_copy.intro deep_copy_axioms.intro)
  show "memory_view (slice_valid T flat_valid) (slice_reach T flat_reach) (slice_content T flat_content)"
    by (rule slice_mem_view) (rule flat.memory_view_axioms)
  fix s m assume val: "slice_valid T flat_valid s m"
  show "copied (slice_valid T flat_valid) (slice_reach T flat_reach) (slice_content T flat_content)
    s m (copy_slice T s m)"
  proof (cases s)
    case None
    then show ?thesis by (auto simp: copied_def slice_defs copy_slice_def)
  next
    case (Some sl)
    let ?n = "sl_len sl" and ?z = "ty_array T (replicate (sl_len sl) (ty_zero T))"
    let ?d = "\<lparr>sl_array = length m, sl_off = 0, sl_len = ?n\<rparr>"
    obtain vs where vs: "slice_view T sl m = Some vs" using val by (auto simp: Some slice_valid_Some)
    then have len: "length vs = ?n" by (auto simp: slice_view_def bind_eq_Some_conv split: if_splits)
    have src: "slice_view T sl (m @ [?z]) = Some vs"
      using vs slice_view_bound [OF vs] by (subst slice_view_frame [of _ m]) (auto simp: nth_append)
    have "go_copy T ?d sl (m @ [?z]) = Some (m @ [ty_array T vs])"
      using src len slice_view_new [OF T, of "replicate ?n (ty_zero T)" ?n m "[]"]
        array_at_mid [OF T, of m "replicate ?n (ty_zero T)" "[]"]
      by (simp add: go_copy_def)
    then have "copy_slice T s m = Some (Some ?d, m @ [ty_array T vs])"
      by (simp add: Some copy_slice_def go_make_def)
    then show ?thesis
      by (rule copiedI) (use vs len slice_view_new [OF T, of vs ?n m "[]"] in
        \<open>simp_all add: slice_defs flat_defs Some list_all_iff\<close>)
  qed
qed

section \<open>The copying loop\<close>

lemma range_DeepCopyInto_append:
  "range_DeepCopyInto T f src dst (is @ js) m =
     Option.bind (range_DeepCopyInto T f src dst is m) (range_DeepCopyInto T f src dst js)"
proof (induction "is" arbitrary: m)
  case (Cons i "is")
  show ?case by (simp add: ext [OF Cons.IH] Option.bind_assoc case_prod_unfold)
qed simp

text \<open>
  Elements copied into the array after \<open>m\<close>: each says what the one it is copied from says, and
  reaches only what was allocated after that array.
\<close>

definition elem_copied where
  "elem_copied val rch con m m' w v \<longleftrightarrow>
     val w m' \<and> con w m' = con v m \<and> rch w m' \<subseteq> {Suc (length m)..<length m'}"

lemma elem_copied_overwrite:
  assumes view: "memory_view val rch con" and w: "elem_copied val rch con m (m @ x # r) w v"
  shows "elem_copied val rch con m (m @ y # r @ s) w v"
proof -
  have w': "val w (m @ x # r)" "con w (m @ x # r) = con v m"
    "rch w (m @ x # r) \<subseteq> {Suc (length m)..<Suc (length m + length r)}"
    using w by (auto simp: elem_copied_def)
  note same = agree_on_overwrite [OF w'(3), of x y s]
  show ?thesis
    using w' memory_view.valid_frame [OF view w'(1) same] memory_view.reach_frame [OF view w'(1) same]
      memory_view.content_frame [OF view w'(1) same] by (fastforce simp: elem_copied_def)
qed

lemma range_step:
  assumes T: "elem_type_ok T" and f: "deep_copy val rch con f"
    and src: "slice_view T sl m = Some vs" and val: "\<forall>v \<in> set vs. val v m"
    and ws: "length ws = k" and k: "k < length vs" and n: "n = length vs"
    and dst: "dst = \<lparr>sl_array = length m, sl_off = 0, sl_len = n\<rparr>"
  shows "\<exists>w r'. range_DeepCopyInto T f sl dst [k] (m @ ty_array T (ws @ replicate (n - k) z) # r)
      = Some (m @ ty_array T ((ws @ [w]) @ replicate (n - Suc k) z) # r @ r')
    \<and> elem_copied val rch con m (m @ ty_array T ((ws @ [w]) @ replicate (n - Suc k) z) # r @ r')
        w (vs ! k)"
proof -
  note view = deep_copy.axioms(1) [OF f]
  let ?M = "m @ ty_array T (ws @ replicate (n - k) z) # r"
  let ?p = "\<lparr>pt_array = sl_array sl, pt_index = sl_off sl + k\<rparr>"
  let ?q = "\<lparr>pt_array = length m, pt_index = k\<rparr>"
  have len: "length vs = sl_len sl" and at: "ptr_get T ?p m = Some (vs ! k)"
    using src k by (auto simp: slice_view_def ptr_get_def bind_eq_Some_conv split: if_splits)
  have read: "ptr_get T ?p ?M = Some (vs ! k)"
    using at ptr_get_bound [OF at] by (subst ptr_get_frame [of _ m]) (auto simp: nth_append)
  have v: "val (vs ! k) m" using val k by simp
  have same: "agree_on (rch (vs ! k) m) m ?M"
    by (rule agree_on_append) (rule memory_view.reach_bound [OF view v])
  obtain w r' where w: "f (vs ! k) ?M = Some (w, ?M @ r')" "val w (?M @ r')"
    "con w (?M @ r') = con (vs ! k) ?M" "rch w (?M @ r') \<subseteq> {length ?M..<length ?M + length r'}"
    by (rule deep_copy.copy_returns [OF f memory_view.valid_frame [OF view v same]])
  let ?zs = "(ws @ [w]) @ replicate (n - Suc k) z"
  have "(ws @ replicate (n - k) z)[k := w] = ?zs"
    using ws k n by (simp add: list_update_append Suc_diff_Suc [symmetric])
  then have stored: "ptr_set T ?q w (?M @ r') = Some (m @ ty_array T ?zs # r @ r')"
    using ws k n T by (simp add: ptr_set_def)
  have "elem_copied val rch con m (m @ ty_array T (ws @ replicate (n - k) z) # r @ r') w (vs ! k)"
    using w(2-4) memory_view.content_frame [OF view v same] by (fastforce simp: elem_copied_def)
  from elem_copied_overwrite [OF view this, of "ty_array T ?zs" "[]"]
  have "elem_copied val rch con m (m @ ty_array T ?zs # r @ r') w (vs ! k)" by simp
  moreover have "range_DeepCopyInto T f sl dst [k] ?M = Some (m @ ty_array T ?zs # r @ r')"
    using read w(1) stored k len n dst by (simp add: elem_ptr_def)
  ultimately show ?thesis by blast
qed

lemma range_copies:
  assumes T: "elem_type_ok T" and f: "deep_copy val rch con f"
    and src: "slice_view T sl m = Some vs" and val: "\<forall>v \<in> set vs. val v m"
    and dst: "dst = \<lparr>sl_array = length m, sl_off = 0, sl_len = length vs\<rparr>"
    and k: "k \<le> length vs"
  shows "\<exists>ws r. length ws = k
    \<and> range_DeepCopyInto T f sl dst [0..<k] (m @ [ty_array T (replicate (length vs) z)])
        = Some (m @ ty_array T (ws @ replicate (length vs - k) z) # r)
    \<and> list_all2 (elem_copied val rch con m (m @ ty_array T (ws @ replicate (length vs - k) z) # r))
        ws (take k vs)"
  using k
proof (induction k)
  case (Suc k)
  note view = deep_copy.axioms(1) [OF f]
  obtain ws r where ws: "length ws = k"
    and run: "range_DeepCopyInto T f sl dst [0..<k] (m @ [ty_array T (replicate (length vs) z)])
        = Some (m @ ty_array T (ws @ replicate (length vs - k) z) # r)"
    and old: "list_all2 (elem_copied val rch con m
        (m @ ty_array T (ws @ replicate (length vs - k) z) # r)) ws (take k vs)"
    using Suc by auto
  obtain w r' where step: "range_DeepCopyInto T f sl dst [k]
        (m @ ty_array T (ws @ replicate (length vs - k) z) # r)
      = Some (m @ ty_array T ((ws @ [w]) @ replicate (length vs - Suc k) z) # r @ r')"
    and new: "elem_copied val rch con m
        (m @ ty_array T ((ws @ [w]) @ replicate (length vs - Suc k) z) # r @ r') w (vs ! k)"
    using range_step [OF T f src val ws _ refl dst] Suc.prems by fastforce
  have "list_all2 (elem_copied val rch con m
      (m @ ty_array T ((ws @ [w]) @ replicate (length vs - Suc k) z) # r @ r')) ws (take k vs)"
    by (rule list_all2_mono [OF old]) (rule elem_copied_overwrite [OF view])
  with new have "list_all2 (elem_copied val rch con m
      (m @ ty_array T ((ws @ [w]) @ replicate (length vs - Suc k) z) # r @ r'))
      (ws @ [w]) (take k vs @ [vs ! k])"
    by (intro list_all2_appendI) simp_all
  then show ?case
    using ws run step Suc.prems
    by (intro exI [of _ "ws @ [w]"] exI [of _ "r @ r'"])
      (simp add: range_DeepCopyInto_append take_Suc_conv_app_nth)
qed simp

lemma slice_deep_copy:
  assumes T: "elem_type_ok T" and f: "deep_copy val rch con f"
  shows "deep_copy (slice_valid T val) (slice_reach T rch) (slice_content T con)
    (deep_copy_slice T f)"
proof (intro deep_copy.intro deep_copy_axioms.intro)
  note view = deep_copy.axioms(1) [OF f]
  show "memory_view (slice_valid T val) (slice_reach T rch) (slice_content T con)"
    by (rule slice_mem_view [OF view])
  fix s m assume valid: "slice_valid T val s m"
  show "copied (slice_valid T val) (slice_reach T rch) (slice_content T con) s m
    (deep_copy_slice T f s m)"
  proof (cases s)
    case None
    then show ?thesis by (auto simp: copied_def slice_defs deep_copy_slice_def)
  next
    case (Some sl)
    obtain vs where vs: "slice_view T sl m = Some vs" and val: "\<forall>v \<in> set vs. val v m"
      using valid by (auto simp: Some slice_valid_Some)
    then have len: "sl_len sl = length vs" by (auto simp: slice_view_def bind_eq_Some_conv split: if_splits)
    let ?d = "\<lparr>sl_array = length m, sl_off = 0, sl_len = length vs\<rparr>"
    obtain ws r where ws: "length ws = length vs"
      and run: "range_DeepCopyInto T f sl ?d [0..<length vs]
          (m @ [ty_array T (replicate (length vs) (ty_zero T))]) = Some (m @ ty_array T ws # r)"
      and new: "list_all2 (elem_copied val rch con m (m @ ty_array T ws # r)) ws vs"
      using range_copies [OF T f vs val refl order_refl, of "ty_zero T"] by fastforce
    have elems: "elem_copied val rch con m (m @ ty_array T ws # r) (ws ! i) (vs ! i)"
      if "i < length vs" for i using list_all2_nthD2 [OF new that] .
    have same: "map (\<lambda>w. con w (m @ ty_array T ws # r)) ws = map (\<lambda>v. con v m) vs"
      by (rule nth_equalityI) (simp_all add: ws elems [unfolded elem_copied_def])
    show ?thesis
    proof (rule copiedI)
      show "deep_copy_slice T f s m = Some (Some ?d, m @ ty_array T ws # r)"
        using run by (simp add: Some deep_copy_slice_def go_make_def len)
      note here = slice_view_new [OF T ws, of m r]
      show "slice_valid T val (Some ?d) (m @ ty_array T ws # r)"
        using elems ws by (simp add: slice_valid_Some here all_set_conv_all_nth elem_copied_def)
      show "slice_content T con (Some ?d) (m @ ty_array T ws # r) = slice_content T con s m"
        using same vs by (simp add: slice_content_def here Some)
      have "rch w (m @ ty_array T ws # r) \<subseteq> {length m..}" if mem: "w \<in> set ws" for w
      proof -
        obtain i where "i < length vs" "w = ws ! i" using mem ws by (auto simp: in_set_conv_nth)
        with elems [of i] have "rch w (m @ ty_array T ws # r)
            \<subseteq> {Suc (length m)..<length (m @ ty_array T ws # r)}"
          by (simp add: elem_copied_def)
        then show ?thesis by (rule order_trans) auto
      qed
      then show "slice_reach T rch (Some ?d) (m @ ty_array T ws # r) \<subseteq> {length m..}"
        by (auto simp: slice_reach_def here)
    qed
  qed
qed

end
