(* ===== verification/Deep_Copy_Correct.thy ===== *)
theory Deep_Copy_Correct
  imports Deep_Copy Memory_Copy
begin

text \<open>
  The generated methods are deep copies: each is put together from the constructions of
  \<open>Memory_Copy\<close> in the shape of its type, up to the whole resource and the list of resources.
\<close>

section \<open>The types seen through memory\<close>

lemma elem_types_ok [simp]:
  "elem_type_ok string_type" "elem_type_ok resource_ref_type" "elem_type_ok temporary_wake_type"
  "elem_type_ok awake_window_type" "elem_type_ok target_type" "elem_type_ok spec_type"
  "elem_type_ok status_type" "elem_type_ok (schedule_type A)" "elem_type_ok (schedule_list_type A)"
  "elem_type_ok (meta_type z)"
  by (simp_all add: elem_type_ok_def string_type_def resource_ref_type_def temporary_wake_type_def
    awake_window_type_def target_type_def spec_type_def status_type_def schedule_type_def
    schedule_list_type_def meta_type_def)

text \<open>How the values of \<open>apimachinery\<close> are seen: one predicate for the valid values of each type.\<close>

record ('x, 'k) meta_view =
  mv_reach :: "'x \<Rightarrow> 'x cell list \<Rightarrow> nat set"
  mv_content :: "'x \<Rightarrow> 'x cell list \<Rightarrow> 'k"
  mv_ObjectMeta :: "'x \<Rightarrow> 'x cell list \<Rightarrow> bool"
  mv_ListMeta :: "'x \<Rightarrow> 'x cell list \<Rightarrow> bool"
  mv_LabelSelector :: "'x \<Rightarrow> 'x cell list \<Rightarrow> bool"
  mv_Condition :: "'x \<Rightarrow> 'x cell list \<Rightarrow> bool"
  mv_Time :: "'x \<Rightarrow> 'x cell list \<Rightarrow> bool"

definition window_valid where
  "window_valid = struct_valid wm_Days (slice_valid string_type flat_valid)"
definition window_reach where
  "window_reach = struct_reach wm_Days (slice_reach string_type flat_reach)"
definition window_content where
  "window_content = struct_content (\<lambda>w. (wm_From w, wm_To w)) wm_Days
     (slice_content string_type flat_content)"

definition target_refs :: "target_mem \<Rightarrow> slice option \<times> pointer option" where
  "target_refs t = (tm_Namespaces t, tm_Selector t)"
definition target_valid where
  "target_valid A V = struct_valid target_refs (pair_valid (slice_valid string_type flat_valid)
     (ptr_valid (meta_type (am_LabelSelector_zero A)) (mv_LabelSelector V)))"
definition target_reach where
  "target_reach A V = struct_reach target_refs (pair_reach (slice_reach string_type flat_reach)
     (ptr_reach (meta_type (am_LabelSelector_zero A)) (mv_reach V)))"
definition target_content where
  "target_content A V = struct_content tm_Mode target_refs
     (pair_content (slice_content string_type flat_content)
       (ptr_content (meta_type (am_LabelSelector_zero A)) (mv_content V)))"

definition spec_refs ::
  "spec_mem \<Rightarrow> slice option \<times> target_mem \<times> slice option \<times> slice option \<times> pointer option" where
  "spec_refs s = (pm_Awake s, pm_Target s, pm_Kinds s, pm_ExcludeRefs s, pm_TemporaryWake s)"
definition spec_valid where
  "spec_valid A V = struct_valid spec_refs
     (pair_valid (slice_valid awake_window_type window_valid)
     (pair_valid (target_valid A V)
     (pair_valid (slice_valid string_type flat_valid)
     (pair_valid (slice_valid resource_ref_type flat_valid)
       (ptr_valid temporary_wake_type flat_valid)))))"
definition spec_reach where
  "spec_reach A V = struct_reach spec_refs
     (pair_reach (slice_reach awake_window_type window_reach)
     (pair_reach (target_reach A V)
     (pair_reach (slice_reach string_type flat_reach)
     (pair_reach (slice_reach resource_ref_type flat_reach)
       (ptr_reach temporary_wake_type flat_reach)))))"
definition spec_content where
  "spec_content A V = struct_content (\<lambda>s. (pm_Timezone s, pm_SleepReplicas s, pm_DryRun s)) spec_refs
     (pair_content (slice_content awake_window_type window_content)
     (pair_content (target_content A V)
     (pair_content (slice_content string_type flat_content)
     (pair_content (slice_content resource_ref_type flat_content)
       (ptr_content temporary_wake_type flat_content)))))"

definition status_refs :: "status_mem \<Rightarrow> pointer option \<times> slice option" where
  "status_refs s = (um_NextTransition s, um_Conditions s)"
definition status_valid where
  "status_valid A V = struct_valid status_refs
     (pair_valid (ptr_valid (meta_type (am_Time_zero A)) (mv_Time V))
       (slice_valid (meta_type (am_Condition_zero A)) (mv_Condition V)))"
definition status_reach where
  "status_reach A V = struct_reach status_refs
     (pair_reach (ptr_reach (meta_type (am_Time_zero A)) (mv_reach V))
       (slice_reach (meta_type (am_Condition_zero A)) (mv_reach V)))"
definition status_content where
  "status_content A V = struct_content (\<lambda>s. (um_Phase s, um_ActiveWakes s, um_ArgocdManaged s)) status_refs
     (pair_content (ptr_content (meta_type (am_Time_zero A)) (mv_content V))
       (slice_content (meta_type (am_Condition_zero A)) (mv_content V)))"

definition schedule_refs :: "'x schedule_mem \<Rightarrow> 'x \<times> spec_mem \<times> status_mem" where
  "schedule_refs s = (sm_ObjectMeta s, sm_Spec s, sm_Status s)"
definition schedule_valid where
  "schedule_valid A V = struct_valid schedule_refs
     (pair_valid (mv_ObjectMeta V) (pair_valid (spec_valid A V) (status_valid A V)))"
definition schedule_reach where
  "schedule_reach A V = struct_reach schedule_refs
     (pair_reach (mv_reach V) (pair_reach (spec_reach A V) (status_reach A V)))"
definition schedule_content where
  "schedule_content A V = struct_content sm_TypeMeta schedule_refs
     (pair_content (mv_content V) (pair_content (spec_content A V) (status_content A V)))"

definition list_refs :: "'x schedule_list_mem \<Rightarrow> 'x \<times> slice option" where
  "list_refs l = (lm_ListMeta l, lm_Items l)"
definition list_valid where
  "list_valid A V = struct_valid list_refs
     (pair_valid (mv_ListMeta V) (slice_valid (schedule_type A) (schedule_valid A V)))"
definition list_reach where
  "list_reach A V = struct_reach list_refs
     (pair_reach (mv_reach V) (slice_reach (schedule_type A) (schedule_reach A V)))"
definition list_content where
  "list_content A V = struct_content lm_TypeMeta list_refs
     (pair_content (mv_content V) (slice_content (schedule_type A) (schedule_content A V)))"

section \<open>The flat methods and the windows\<close>

interpretation resource_ref: deep_copy flat_valid flat_reach flat_content ResourceRef_DeepCopyInto
  by unfold_locales (auto simp: flat_defs copied_def ResourceRef_DeepCopyInto_def)

interpretation temporary_wake:
  deep_copy flat_valid flat_reach flat_content TemporaryWake_DeepCopyInto
  by unfold_locales (auto simp: flat_defs copied_def TemporaryWake_DeepCopyInto_def)

lemma AwakeWindow_struct:
  "AwakeWindow_DeepCopyInto = struct_copy wm_Days (\<lambda>w p. w\<lparr>wm_Days := p\<rparr>) (copy_slice string_type)"
  by (intro ext) (simp add: AwakeWindow_DeepCopyInto_def struct_copy_def)

interpretation awake_window:
  deep_copy window_valid window_reach window_content AwakeWindow_DeepCopyInto
  unfolding window_valid_def window_reach_def window_content_def AwakeWindow_struct
  by (intro struct_deep_copy copy_slice_copies) simp_all

section \<open>The resource\<close>

text \<open>What the methods of \<open>apimachinery\<close> promise: they are deep copies themselves.\<close>

locale apimachinery =
  fixes A :: "'x apimachinery_methods" and V :: "('x, 'k) meta_view"
  assumes ObjectMeta: "deep_copy (mv_ObjectMeta V) (mv_reach V) (mv_content V) (am_ObjectMeta_DeepCopyInto A)"
    and ListMeta: "deep_copy (mv_ListMeta V) (mv_reach V) (mv_content V) (am_ListMeta_DeepCopyInto A)"
    and LabelSelector:
      "deep_copy (mv_LabelSelector V) (mv_reach V) (mv_content V) (am_LabelSelector_DeepCopyInto A)"
    and Condition: "deep_copy (mv_Condition V) (mv_reach V) (mv_content V) (am_Condition_DeepCopyInto A)"
    and Time: "deep_copy (ptr_valid (meta_type (am_Time_zero A)) (mv_Time V))
      (ptr_reach (meta_type (am_Time_zero A)) (mv_reach V))
      (ptr_content (meta_type (am_Time_zero A)) (mv_content V)) (am_Time_DeepCopy A)"

lemma Target_struct:
  "Target_DeepCopyInto A = struct_copy target_refs
     (\<lambda>t p. t\<lparr>tm_Namespaces := fst p, tm_Selector := snd p\<rparr>)
     (pair_copy (copy_slice string_type)
       (copy_pointer (meta_type (am_LabelSelector_zero A)) (am_LabelSelector_DeepCopyInto A)))"
  by (intro ext) (simp add: Target_DeepCopyInto_def struct_copy_def pair_copy_def target_refs_def
    Option.bind_assoc case_prod_unfold)

sublocale apimachinery \<subseteq> target:
  deep_copy "target_valid A V" "target_reach A V" "target_content A V" "Target_DeepCopyInto A"
  unfolding target_valid_def target_reach_def target_content_def Target_struct
  by (intro struct_deep_copy pair_deep_copy copy_slice_copies ptr_deep_copy LabelSelector)
    (simp_all add: target_refs_def)

lemma Spec_struct:
  "SleepScheduleSpec_DeepCopyInto A = struct_copy spec_refs
     (\<lambda>s (a, t, k, e, w). s\<lparr>pm_Awake := a, pm_Target := t, pm_Kinds := k, pm_ExcludeRefs := e,
        pm_TemporaryWake := w\<rparr>)
     (pair_copy (deep_copy_slice awake_window_type AwakeWindow_DeepCopyInto)
     (pair_copy (Target_DeepCopyInto A)
     (pair_copy (copy_slice string_type)
     (pair_copy (copy_slice resource_ref_type)
       (copy_pointer temporary_wake_type flat_copy)))))"
  by (intro ext) (simp add: SleepScheduleSpec_DeepCopyInto_def struct_copy_def pair_copy_def
    spec_refs_def Option.bind_assoc case_prod_unfold flat_copy_def [abs_def])

sublocale apimachinery \<subseteq> spec:
  deep_copy "spec_valid A V" "spec_reach A V" "spec_content A V" "SleepScheduleSpec_DeepCopyInto A"
  unfolding spec_valid_def spec_reach_def spec_content_def Spec_struct
  by (intro struct_deep_copy pair_deep_copy copy_slice_copies slice_deep_copy ptr_deep_copy
      awake_window.deep_copy_axioms target.deep_copy_axioms flat.deep_copy_axioms)
    (auto simp: spec_refs_def)

lemma Status_struct:
  "SleepScheduleStatus_DeepCopyInto A = struct_copy status_refs
     (\<lambda>s p. s\<lparr>um_NextTransition := fst p, um_Conditions := snd p\<rparr>)
     (pair_copy (\<lambda>p m. if p \<noteq> None then am_Time_DeepCopy A p m else Some (p, m))
       (deep_copy_slice (meta_type (am_Condition_zero A)) (am_Condition_DeepCopyInto A)))"
  by (intro ext) (simp add: SleepScheduleStatus_DeepCopyInto_def struct_copy_def pair_copy_def
    status_refs_def Option.bind_assoc case_prod_unfold)

text \<open>A copy that is skipped for nil.\<close>

lemma nil_deep_copy:
  assumes f: "deep_copy (ptr_valid T val) (ptr_reach T rch) (ptr_content T con) f"
  shows "deep_copy (ptr_valid T val) (ptr_reach T rch) (ptr_content T con)
    (\<lambda>p m. if p \<noteq> None then f p m else Some (p, m))"
proof (intro deep_copy.intro deep_copy_axioms.intro)
  show "memory_view (ptr_valid T val) (ptr_reach T rch) (ptr_content T con)"
    by (rule deep_copy.axioms(1) [OF f])
  fix p m assume "ptr_valid T val p m"
  from deep_copy.copies [OF f this]
  show "copied (ptr_valid T val) (ptr_reach T rch) (ptr_content T con) p m
    (if p \<noteq> None then f p m else Some (p, m))"
    by (cases p) (simp_all add: copied_def ptr_defs)
qed

sublocale apimachinery \<subseteq> status:
  deep_copy "status_valid A V" "status_reach A V" "status_content A V"
    "SleepScheduleStatus_DeepCopyInto A"
  unfolding status_valid_def status_reach_def status_content_def Status_struct
  by (intro struct_deep_copy pair_deep_copy slice_deep_copy nil_deep_copy Time Condition)
    (simp_all add: status_refs_def)

lemma Schedule_struct:
  "SleepSchedule_DeepCopyInto A = struct_copy schedule_refs
     (\<lambda>s (om, p, u). s\<lparr>sm_ObjectMeta := om, sm_Spec := p, sm_Status := u\<rparr>)
     (pair_copy (am_ObjectMeta_DeepCopyInto A)
       (pair_copy (SleepScheduleSpec_DeepCopyInto A) (SleepScheduleStatus_DeepCopyInto A)))"
  by (intro ext) (simp add: SleepSchedule_DeepCopyInto_def struct_copy_def pair_copy_def
    schedule_refs_def Option.bind_assoc case_prod_unfold)

sublocale apimachinery \<subseteq> schedule:
  deep_copy "schedule_valid A V" "schedule_reach A V" "schedule_content A V"
    "SleepSchedule_DeepCopyInto A"
  unfolding schedule_valid_def schedule_reach_def schedule_content_def Schedule_struct
  by (intro struct_deep_copy pair_deep_copy ObjectMeta spec.deep_copy_axioms status.deep_copy_axioms)
    (auto simp: schedule_refs_def)

lemma List_struct:
  "SleepScheduleList_DeepCopyInto A = struct_copy list_refs
     (\<lambda>l p. l\<lparr>lm_ListMeta := fst p, lm_Items := snd p\<rparr>)
     (pair_copy (am_ListMeta_DeepCopyInto A)
       (deep_copy_slice (schedule_type A) (SleepSchedule_DeepCopyInto A)))"
  by (intro ext) (simp add: SleepScheduleList_DeepCopyInto_def struct_copy_def pair_copy_def
    list_refs_def Option.bind_assoc case_prod_unfold)

sublocale apimachinery \<subseteq> schedule_list:
  deep_copy "list_valid A V" "list_reach A V" "list_content A V" "SleepScheduleList_DeepCopyInto A"
  unfolding list_valid_def list_reach_def list_content_def List_struct
  by (intro struct_deep_copy pair_deep_copy slice_deep_copy ListMeta schedule.deep_copy_axioms)
    (simp_all add: list_refs_def)

text \<open>And through pointers, as the resource and its list are copied in fact.\<close>

sublocale apimachinery \<subseteq> schedule_ptr:
  deep_copy "ptr_valid (schedule_type A) (schedule_valid A V)"
    "ptr_reach (schedule_type A) (schedule_reach A V)"
    "ptr_content (schedule_type A) (schedule_content A V)" "SleepSchedule_DeepCopy A"
  unfolding SleepSchedule_DeepCopy_def
  by (intro ptr_deep_copy schedule.deep_copy_axioms) simp

sublocale apimachinery \<subseteq> list_ptr:
  deep_copy "ptr_valid (schedule_list_type A) (list_valid A V)"
    "ptr_reach (schedule_list_type A) (list_reach A V)"
    "ptr_content (schedule_list_type A) (list_content A V)" "SleepScheduleList_DeepCopy A"
  unfolding SleepScheduleList_DeepCopy_def
  by (intro ptr_deep_copy schedule_list.deep_copy_axioms) simp

section \<open>Properties\<close>

lemma copy_pointer_not_nil:
  "copy_pointer T f (Some p) m = Some (w, m') \<Longrightarrow> \<exists>q. w = Some q"
  by (auto simp: copy_pointer_def go_new_def bind_eq_Some_conv)

lemma copy_pointer_nil: "copy_pointer T f None m = Some (None, m)"
  by (simp add: copy_pointer_def)

context apimachinery
begin

lemmas schedule_ptr_deep_copy = schedule_ptr.deep_copy_axioms
lemmas list_ptr_deep_copy = list_ptr.deep_copy_axioms

end

text \<open>
  C21: \<open>DeepCopy\<close> of a non-nil \<open>*SleepSchedule\<close> returns a non-nil pointer to a resource that says the
  same, and the two are independent: whatever is stored later in the arrays that one of them reaches
  (windows, days, target, kinds, exclusions, wake section, status, metadata), the other still says
  what it said.
\<close>

theorem DeepCopy_independent:
  assumes "apimachinery A V"
    and "ptr_valid (schedule_type A) (schedule_valid A V) (Some p) m"
  shows "\<exists>q m'. SleepSchedule_DeepCopy A (Some p) m = Some (Some q, m')
    \<and> ptr_content (schedule_type A) (schedule_content A V) (Some q) m'
        = ptr_content (schedule_type A) (schedule_content A V) (Some p) m
    \<and> (\<forall>m''. changes_only (ptr_reach (schedule_type A) (schedule_reach A V) (Some q) m') m' m''
          \<longrightarrow> ptr_content (schedule_type A) (schedule_content A V) (Some p) m''
              = ptr_content (schedule_type A) (schedule_content A V) (Some p) m)
    \<and> (\<forall>m''. changes_only (ptr_reach (schedule_type A) (schedule_reach A V) (Some p) m) m' m''
          \<longrightarrow> ptr_content (schedule_type A) (schedule_content A V) (Some q) m''
              = ptr_content (schedule_type A) (schedule_content A V) (Some p) m)"
proof -
  have dc: "deep_copy (ptr_valid (schedule_type A) (schedule_valid A V))
      (ptr_reach (schedule_type A) (schedule_reach A V))
      (ptr_content (schedule_type A) (schedule_content A V)) (SleepSchedule_DeepCopy A)"
    by (rule apimachinery.schedule_ptr_deep_copy [OF assms(1)])
  obtain w r where w: "SleepSchedule_DeepCopy A (Some p) m = Some (w, m @ r)"
    "ptr_content (schedule_type A) (schedule_content A V) w (m @ r)
       = ptr_content (schedule_type A) (schedule_content A V) (Some p) m"
    by (rule deep_copy.copy_returns [OF dc assms(2)])
  obtain q where q: "w = Some q"
    using copy_pointer_not_nil w(1) unfolding SleepSchedule_DeepCopy_def by blast
  show ?thesis
    using w deep_copy.original_unaffected [OF dc assms(2) w(1)]
      deep_copy.copy_unaffected [OF dc assms(2) w(1)] unfolding q by blast
qed

text \<open>
  C22: \<open>DeepCopyObject\<close> of a well-typed \<open>*SleepScheduleList\<close> does not fault and is type sound: the
  original stays well-typed, a nil list gives the nil interface, not an interface that holds a nil
  pointer, and any other list an interface of the list type that holds a well-typed list.
\<close>

theorem DeepCopyObject_well_typed:
  assumes "apimachinery A V"
    and "ptr_valid (schedule_list_type A) (list_valid A V) inp m"
  shows "\<exists>c m'. SleepScheduleList_DeepCopyObject A inp m
      = Some (map_option (\<lambda>q. ScheduleListObject (Some q)) c, m')
    \<and> (c = None \<longleftrightarrow> inp = None)
    \<and> ptr_valid (schedule_list_type A) (list_valid A V) inp m'
    \<and> ptr_valid (schedule_list_type A) (list_valid A V) c m'"
proof -
  have dc: "deep_copy (ptr_valid (schedule_list_type A) (list_valid A V))
      (ptr_reach (schedule_list_type A) (list_reach A V))
      (ptr_content (schedule_list_type A) (list_content A V)) (SleepScheduleList_DeepCopy A)"
    by (rule apimachinery.list_ptr_deep_copy [OF assms(1)])
  obtain w r where w: "SleepScheduleList_DeepCopy A inp m = Some (w, m @ r)"
    "ptr_valid (schedule_list_type A) (list_valid A V) w (m @ r)"
    by (rule deep_copy.copy_returns [OF dc assms(2)])
  have kept: "ptr_valid (schedule_list_type A) (list_valid A V) inp (m @ r)"
    by (rule memory_view.valid_frame [OF deep_copy.axioms(1) [OF dc] assms(2) agree_on_append])
      (rule memory_view.reach_bound [OF deep_copy.axioms(1) [OF dc] assms(2)])
  show ?thesis
  proof (cases inp)
    case None
    then show ?thesis
      using kept w(1) by (simp add: SleepScheduleList_DeepCopyObject_def
        SleepScheduleList_DeepCopy_def copy_pointer_nil)
  next
    case (Some p)
    obtain q where q: "w = Some q"
      using copy_pointer_not_nil w(1) unfolding SleepScheduleList_DeepCopy_def Some by blast
    then show ?thesis
      using w kept Some by (auto simp: SleepScheduleList_DeepCopyObject_def intro!: exI [of _ w])
  qed
qed

section \<open>Witnesses\<close>

text \<open>
  Methods for which every metadata value is a slice of names, and a memory where two windows share
  the array of their days.
\<close>

definition names_methods :: "slice option apimachinery_methods" where
  "names_methods = \<lparr>am_ObjectMeta_zero = None, am_ListMeta_zero = None, am_LabelSelector_zero = None,
     am_Condition_zero = None, am_Time_zero = None,
     am_ObjectMeta_DeepCopyInto = copy_slice string_type,
     am_ListMeta_DeepCopyInto = copy_slice string_type,
     am_LabelSelector_DeepCopyInto = copy_slice string_type,
     am_Condition_DeepCopyInto = copy_slice string_type,
     am_Time_DeepCopy = copy_pointer (meta_type None) (copy_slice string_type)\<rparr>"

definition names_view :: "(slice option, string list option) meta_view" where
  "names_view = \<lparr>mv_reach = slice_reach string_type flat_reach,
     mv_content = slice_content string_type flat_content,
     mv_ObjectMeta = slice_valid string_type flat_valid,
     mv_ListMeta = slice_valid string_type flat_valid,
     mv_LabelSelector = slice_valid string_type flat_valid,
     mv_Condition = slice_valid string_type flat_valid,
     mv_Time = slice_valid string_type flat_valid\<rparr>"

interpretation names: apimachinery names_methods names_view
  by (rule apimachinery.intro)
    (simp_all add: names_methods_def names_view_def copy_slice_copies ptr_deep_copy)

definition shared_days :: "slice option cell list" where
  "shared_days =
     [StringArray [''Mon'', ''Tue'', ''Wed''],
      AwakeWindowArray
        [\<lparr>wm_Days = Some \<lparr>sl_array = 0, sl_off = 0, sl_len = 2\<rparr>, wm_From = ''08:00'', wm_To = ''12:00''\<rparr>,
         \<lparr>wm_Days = Some \<lparr>sl_array = 0, sl_off = 1, sl_len = 2\<rparr>, wm_From = ''13:00'', wm_To = ''18:00''\<rparr>],
      TemporaryWakeArray [\<lparr>tw_MaxDuration = 4, tw_DefaultDuration = 1\<rparr>],
      ScheduleArray
        [\<lparr>sm_TypeMeta = \<lparr>ty_Kind = ''SleepSchedule'', ty_APIVersion = ''nyx.dev/v1alpha1''\<rparr>,
          sm_ObjectMeta = Some \<lparr>sl_array = 0, sl_off = 0, sl_len = 1\<rparr>,
          sm_Spec = spec_zero\<lparr>pm_Awake := Some \<lparr>sl_array = 1, sl_off = 0, sl_len = 2\<rparr>,
            pm_TemporaryWake := Some \<lparr>pt_array = 2, pt_index = 0\<rparr>\<rparr>,
          sm_Status = status_zero\<rparr>],
      ScheduleListArray
        [\<lparr>lm_TypeMeta = \<lparr>ty_Kind = ''SleepScheduleList'', ty_APIVersion = ''nyx.dev/v1alpha1''\<rparr>,
          lm_ListMeta = None, lm_Items = Some \<lparr>sl_array = 3, sl_off = 0, sl_len = 1\<rparr>\<rparr>]]"

lemma shared_days_valid:
  "ptr_valid (schedule_type names_methods) (schedule_valid names_methods names_view)
     (Some \<lparr>pt_array = 3, pt_index = 0\<rparr>) shared_days"
  by code_simp

lemma shared_days_list_valid:
  "ptr_valid (schedule_list_type names_methods) (list_valid names_methods names_view)
     (Some \<lparr>pt_array = 4, pt_index = 0\<rparr>) shared_days"
  by code_simp

theorem DeepCopy_independent_witness:
  "\<exists>q m'. SleepSchedule_DeepCopy names_methods (Some \<lparr>pt_array = 3, pt_index = 0\<rparr>) shared_days
      = Some (Some q, m')
    \<and> (\<forall>m''. changes_only (ptr_reach (schedule_type names_methods)
            (schedule_reach names_methods names_view) (Some q) m') m' m''
          \<longrightarrow> ptr_content (schedule_type names_methods) (schedule_content names_methods names_view)
                (Some \<lparr>pt_array = 3, pt_index = 0\<rparr>) m''
              = ptr_content (schedule_type names_methods) (schedule_content names_methods names_view)
                  (Some \<lparr>pt_array = 3, pt_index = 0\<rparr>) shared_days)"
  using DeepCopy_independent [OF names.apimachinery_axioms shared_days_valid] by blast

theorem DeepCopyObject_well_typed_witness:
  "\<exists>c m'. SleepScheduleList_DeepCopyObject names_methods (Some \<lparr>pt_array = 4, pt_index = 0\<rparr>) shared_days
      = Some (Some (ScheduleListObject (Some c)), m')"
  using DeepCopyObject_well_typed [OF names.apimachinery_axioms shared_days_list_valid]
  by auto

end
