(* ===== verification/Manager_Start.thy ===== *)
theory Manager_Start
  imports Go_Duration
begin

text \<open>
  How the process starts: \<open>cmd/main.go\<close>, with the registrations it triggers in
  \<open>internal/metrics\<close>, \<open>api/v1alpha1/groupversion_info.go\<close>, \<open>SetupWithManager\<close> and the webhook's
  setup. The process makes calls into \<open>controller-runtime\<close> and its libraries; which of them succeed,
  given those made before, is a parameter. \<open>flag.Parse\<close> is translated from the Go library. The options
  that \<open>zap\<close> and other libraries bind to the command line are a list of further flags over a value of
  their own.
\<close>

section \<open>Flags\<close>

record 'z main_flags =
  mf_metricsAddr :: string
  mf_probeAddr :: string
  mf_enableLeaderElection :: bool
  mf_leaseDuration :: duration
  mf_renewDeadline :: duration
  mf_retryPeriod :: duration
  mf_library :: 'z

definition default_flags :: "'z \<Rightarrow> 'z main_flags" where
  "default_flags z = \<lparr>mf_metricsAddr = '':8080'', mf_probeAddr = '':8081'',
     mf_enableLeaderElection = False, mf_leaseDuration = 15 * d_Second,
     mf_renewDeadline = 10 * d_Second, mf_retryPeriod = 2 * d_Second, mf_library = z\<rparr>"

text \<open>\<open>strconv.ParseBool\<close>\<close>

definition ParseBool :: "string \<Rightarrow> bool option" where
  "ParseBool s =
     (if s \<in> set [''1'', ''t'', ''T'', ''true'', ''TRUE'', ''True''] then Some True
      else if s \<in> set [''0'', ''f'', ''F'', ''false'', ''FALSE'', ''False''] then Some False
      else None)"

text \<open>A flag: whether it is boolean (and stands without a value), and what its \<open>Set\<close> does.\<close>

record 'z go_flag =
  gf_IsBool :: bool
  gf_Set :: "string \<Rightarrow> 'z main_flags \<Rightarrow> 'z main_flags option"

definition library_flag :: "bool \<times> (string \<Rightarrow> 'z \<Rightarrow> 'z option) \<Rightarrow> 'z go_flag" where
  "library_flag f = \<lparr>gf_IsBool = fst f,
     gf_Set = (\<lambda>v fl. map_option (\<lambda>z. fl\<lparr>mf_library := z\<rparr>) (snd f v (mf_library fl)))\<rparr>"

definition command_line ::
  "(string \<times> bool \<times> (string \<Rightarrow> 'z \<Rightarrow> 'z option)) list \<Rightarrow> (string \<times> 'z go_flag) list" where
  "command_line library =
     [(''metrics-bind-address'',
        \<lparr>gf_IsBool = False, gf_Set = (\<lambda>v fl. Some (fl\<lparr>mf_metricsAddr := v\<rparr>))\<rparr>),
      (''health-probe-bind-address'',
        \<lparr>gf_IsBool = False, gf_Set = (\<lambda>v fl. Some (fl\<lparr>mf_probeAddr := v\<rparr>))\<rparr>),
      (''leader-elect'',
        \<lparr>gf_IsBool = True,
         gf_Set = (\<lambda>v fl. map_option (\<lambda>b. fl\<lparr>mf_enableLeaderElection := b\<rparr>) (ParseBool v))\<rparr>),
      (''leader-elect-lease-duration'',
        \<lparr>gf_IsBool = False,
         gf_Set = (\<lambda>v fl. map_option (\<lambda>d. fl\<lparr>mf_leaseDuration := d\<rparr>) (ParseDuration v))\<rparr>),
      (''leader-elect-renew-deadline'',
        \<lparr>gf_IsBool = False,
         gf_Set = (\<lambda>v fl. map_option (\<lambda>d. fl\<lparr>mf_renewDeadline := d\<rparr>) (ParseDuration v))\<rparr>),
      (''leader-elect-retry-period'',
        \<lparr>gf_IsBool = False,
         gf_Set = (\<lambda>v fl. map_option (\<lambda>d. fl\<lparr>mf_retryPeriod := d\<rparr>) (ParseDuration v))\<rparr>)]
     @ map (\<lambda>(name, f). (name, library_flag f)) library"

text \<open>
  \<open>flag.Parse\<close>: \<open>-name\<close>, \<open>--name\<close>, with \<open>=value\<close> or the next argument as value; \<open>--\<close> and the first
  argument that is no flag end it. An error ends the process with code 2, an undefined \<open>-h\<close> or
  \<open>-help\<close> with code 0.
\<close>

datatype flag_error = ErrHelp | FlagError

text \<open>The name of a flag argument, and what follows an equals sign that is not its first letter.\<close>

definition flag_name :: "string \<Rightarrow> string" where
  "flag_name s = (if take 2 s = ''--'' then drop 2 s else drop 1 s)"

definition split_equals :: "string \<Rightarrow> string \<times> string option" where
  "split_equals name =
     (let n = length (takeWhile (\<lambda>c. c \<noteq> CHR ''='') name) in
      if n < length name then (take n name, Some (drop (Suc n) name)) else (name, None))"

fun parse_flags ::
  "(string \<times> 'z go_flag) list \<Rightarrow> string list \<Rightarrow> 'z main_flags \<Rightarrow> flag_error + 'z main_flags" where
  "parse_flags F [] fl = Inr fl"
| "parse_flags F (s # args) fl =
     (if length s < 2 \<or> take 1 s \<noteq> ''-'' \<or> s = ''--'' then Inr fl
      else if flag_name s = '''' \<or> take 1 (flag_name s) = ''-'' \<or> take 1 (flag_name s) = ''=''
      then Inl FlagError
      else case split_equals (flag_name s) of (name, val) \<Rightarrow>
        (case map_of F name of
           None \<Rightarrow> Inl (if name = ''help'' \<or> name = ''h'' then ErrHelp else FlagError)
         | Some f \<Rightarrow>
             if gf_IsBool f
             then (case gf_Set f (case val of None \<Rightarrow> ''true'' | Some v \<Rightarrow> v) fl of
                     None \<Rightarrow> Inl FlagError | Some fl' \<Rightarrow> parse_flags F args fl')
             else (case val of
                     Some v \<Rightarrow>
                       (case gf_Set f v fl of
                          None \<Rightarrow> Inl FlagError | Some fl' \<Rightarrow> parse_flags F args fl')
                   | None \<Rightarrow>
                       (case args of
                          [] \<Rightarrow> Inl FlagError
                        | v # rest \<Rightarrow>
                            (case gf_Set f v fl of
                               None \<Rightarrow> Inl FlagError | Some fl' \<Rightarrow> parse_flags F rest fl')))))"

section \<open>Calls\<close>

datatype collector_kind = GaugeVec | CounterVec

record collector =
  cl_Kind :: collector_kind
  cl_Name :: string
  cl_Help :: string
  cl_Labels :: "string list"

record manager_options =
  mo_MetricsBindAddress :: string
  mo_HealthProbeBindAddress :: string
  mo_LeaderElection :: bool
  mo_LeaderElectionID :: string
  mo_LeaderElectionReleaseOnCancel :: bool
  mo_LeaseDuration :: duration
  mo_RenewDeadline :: duration
  mo_RetryPeriod :: duration

text \<open>
  A \<open>SleepScheduleReconciler\<close> as it is set up: with the manager's client and scheme, the namespace
  and the name of the recorder.
\<close>

record reconciler_setup =
  rs_OperatorNamespace :: string
  rs_Recorder :: string

record controller_spec =
  cs_For :: string
  cs_Owns :: "string list"
  cs_Named :: string
  cs_Reconciler :: reconciler_setup

record webhook_spec =
  ws_Type :: string
  ws_Validator :: string

datatype startup_call =
    MustRegister "collector list"
  | AddClientGoToScheme
  | AddKnownTypes "string \<times> string" "string list"
  | AddToGroupVersion "string \<times> string"
  | SetLogger
  | GetConfigOrDie
  | NewManager manager_options
  | CompleteController controller_spec
  | CompleteWebhook webhook_spec
  | AddHealthzCheck string
  | AddReadyzCheck string
  | Start

text \<open>How the process ends: \<open>main\<close> returns, \<open>os.Exit\<close> after a line of the log, or a panic.\<close>

datatype process_end =
    Returned
  | Exit nat "string option"
  | Panic

text \<open>Whether a call succeeds, after the calls made before it.\<close>

type_synonym libraries = "startup_call list \<Rightarrow> startup_call \<Rightarrow> bool"

text \<open>A step makes calls; it goes on, or the process ends.\<close>

type_synonym step = "startup_call list \<Rightarrow> startup_call list \<times> process_end option"

definition make_call :: "libraries \<Rightarrow> startup_call \<Rightarrow> process_end \<Rightarrow> step" where
  "make_call lib c bad tr = (tr @ [c], if lib tr c then None else Some bad)"

fun run_steps :: "step list \<Rightarrow> step" where
  "run_steps [] tr = (tr, None)"
| "run_steps (p # ps) tr =
     (case p tr of (tr', Some e) \<Rightarrow> (tr', Some e) | (tr', None) \<Rightarrow> run_steps ps tr')"

section \<open>Registrations\<close>

definition metric_labels :: "string list" where
  "metric_labels = [''schedule'', ''namespace'']"

definition targetsAsleep :: collector where
  "targetsAsleep = \<lparr>cl_Kind = GaugeVec, cl_Name = ''nyx_targets_asleep'',
     cl_Help = ''Number of targeted workloads currently asleep, per SleepSchedule.'',
     cl_Labels = metric_labels\<rparr>"

definition targetsAwake :: collector where
  "targetsAwake = \<lparr>cl_Kind = GaugeVec, cl_Name = ''nyx_targets_awake'',
     cl_Help = ''Number of targeted workloads currently awake, per SleepSchedule.'',
     cl_Labels = metric_labels\<rparr>"

definition activeWakes :: collector where
  "activeWakes = \<lparr>cl_Kind = GaugeVec, cl_Name = ''nyx_active_wakes'',
     cl_Help = ''Number of active (non-expired) wake override entries, per SleepSchedule.'',
     cl_Labels = metric_labels\<rparr>"

definition overrideSecondsRemaining :: collector where
  "overrideSecondsRemaining = \<lparr>cl_Kind = GaugeVec, cl_Name = ''nyx_override_seconds_remaining'',
     cl_Help = ''Seconds until the earliest active wake override expires (0 when none), per SleepSchedule.'',
     cl_Labels = metric_labels\<rparr>"

definition restoreFailures :: collector where
  "restoreFailures = \<lparr>cl_Kind = CounterVec, cl_Name = ''nyx_restore_failures_total'',
     cl_Help = ''Total number of failed restore (wake) attempts, per SleepSchedule.'',
     cl_Labels = metric_labels\<rparr>"

definition metrics_init :: "libraries \<Rightarrow> step" where
  "metrics_init lib = make_call lib
     (MustRegister [targetsAsleep, targetsAwake, activeWakes, overrideSecondsRemaining, restoreFailures])
     Panic"

definition GroupVersion :: "string \<times> string" where
  "GroupVersion = (''nyx.dev'', ''v1alpha1'')"

text \<open>\<open>addKnownTypes\<close> returns no error; a conflicting registration panics.\<close>

definition addKnownTypes :: "libraries \<Rightarrow> step" where
  "addKnownTypes lib = run_steps
     [make_call lib (AddKnownTypes GroupVersion [''SleepSchedule'', ''SleepScheduleList'']) Panic,
      make_call lib (AddToGroupVersion GroupVersion) Panic]"

definition main_init :: "libraries \<Rightarrow> step" where
  "main_init lib = run_steps [make_call lib AddClientGoToScheme Panic, addKnownTypes lib]"

text \<open>The two setups return their error to \<open>main\<close>, which says how the process ends then.\<close>

definition SetupWithManager :: "libraries \<Rightarrow> reconciler_setup \<Rightarrow> process_end \<Rightarrow> step" where
  "SetupWithManager lib r = make_call lib
     (CompleteController \<lparr>cs_For = ''SleepSchedule'', cs_Owns = [''ConfigMap''],
        cs_Named = ''sleepschedule'', cs_Reconciler = r\<rparr>)"

definition SetupSleepScheduleWebhookWithManager :: "libraries \<Rightarrow> process_end \<Rightarrow> step" where
  "SetupSleepScheduleWebhookWithManager lib = make_call lib
     (CompleteWebhook \<lparr>ws_Type = ''SleepSchedule'', ws_Validator = ''SleepScheduleCustomValidator''\<rparr>)"

section \<open>main\<close>

definition getenv :: "string gomap \<Rightarrow> string \<Rightarrow> string" where
  "getenv env k = (case map_of env k of None \<Rightarrow> '''' | Some v \<Rightarrow> v)"

definition setup_failed :: "string \<Rightarrow> process_end" where
  "setup_failed msg = Exit 1 (Some msg)"

definition manager_options_of :: "'z main_flags \<Rightarrow> manager_options" where
  "manager_options_of fl = \<lparr>mo_MetricsBindAddress = mf_metricsAddr fl,
     mo_HealthProbeBindAddress = mf_probeAddr fl,
     mo_LeaderElection = mf_enableLeaderElection fl,
     mo_LeaderElectionID = ''k8s-nyx.nyx.dev'',
     mo_LeaderElectionReleaseOnCancel = True,
     mo_LeaseDuration = mf_leaseDuration fl,
     mo_RenewDeadline = mf_renewDeadline fl,
     mo_RetryPeriod = mf_retryPeriod fl\<rparr>"

definition operator_namespace :: "string gomap \<Rightarrow> string" where
  "operator_namespace env =
     (let ns = getenv env ''POD_NAMESPACE'' in if ns = '''' then ''nyx-system'' else ns)"

definition main_after_flags :: "libraries \<Rightarrow> string gomap \<Rightarrow> 'z main_flags \<Rightarrow> step" where
  "main_after_flags lib env fl = run_steps (
     [make_call lib SetLogger Panic,
      make_call lib GetConfigOrDie (Exit 1 None),
      make_call lib (NewManager (manager_options_of fl)) (setup_failed ''unable to start manager''),
      SetupWithManager lib
        \<lparr>rs_OperatorNamespace = operator_namespace env, rs_Recorder = ''k8s-nyx''\<rparr>
        (setup_failed ''unable to create controller'')]
     @ (if getenv env ''ENABLE_WEBHOOKS'' \<noteq> ''false''
        then [SetupSleepScheduleWebhookWithManager lib (setup_failed ''unable to create webhook'')]
        else [])
     @ [make_call lib (AddHealthzCheck ''healthz'') (setup_failed ''unable to set up health check''),
        make_call lib (AddReadyzCheck ''readyz'') (setup_failed ''unable to set up ready check''),
        make_call lib Start (setup_failed ''problem running manager'')])"

definition main_function ::
  "libraries \<Rightarrow> (string \<times> bool \<times> (string \<Rightarrow> 'z \<Rightarrow> 'z option)) list \<Rightarrow> 'z \<Rightarrow> string list
    \<Rightarrow> string gomap \<Rightarrow> step" where
  "main_function lib library z args env tr =
     (case parse_flags (command_line library) args (default_flags z) of
        Inl ErrHelp \<Rightarrow> (tr, Some (Exit 0 None))
      | Inl FlagError \<Rightarrow> (tr, Some (Exit 2 None))
      | Inr fl \<Rightarrow>
          (case main_after_flags lib env fl tr of
             (tr', None) \<Rightarrow> (tr', Some Returned)
           | (tr', Some e) \<Rightarrow> (tr', Some e)))"

text \<open>The process: the initialisation of the packages, imported ones first, then \<open>main\<close>.\<close>

definition process ::
  "libraries \<Rightarrow> (string \<times> bool \<times> (string \<Rightarrow> 'z \<Rightarrow> 'z option)) list \<Rightarrow> 'z \<Rightarrow> string list
    \<Rightarrow> string gomap \<Rightarrow> startup_call list \<times> process_end option" where
  "process lib library z args env =
     run_steps [metrics_init lib, main_init lib, main_function lib library z args env] []"

end
