(* ===== verification/Manager_Correct.thy ===== *)
theory Manager_Correct
  imports Manager_Start
begin

text \<open>
  What a start of the process guarantees: the manager runs only when everything has been registered.
\<close>

section \<open>Sequences of calls\<close>

text \<open>Every call of a sequence succeeded when its turn came.\<close>

definition calls_ok :: "libraries \<Rightarrow> startup_call list \<Rightarrow> startup_call list \<Rightarrow> bool" where
  "calls_ok lib tr cs \<longleftrightarrow> (\<forall>i < length cs. lib (tr @ take i cs) (cs ! i))"

lemma calls_ok_Nil [simp]: "calls_ok lib tr []"
  by (simp add: calls_ok_def)

lemma calls_ok_Cons [simp]: "calls_ok lib tr (c # cs) \<longleftrightarrow> lib tr c \<and> calls_ok lib (tr @ [c]) cs"
  by (auto simp: calls_ok_def nth_Cons less_Suc_eq_0_disj split: nat.split)

lemma calls_ok_append: "calls_ok lib tr (cs @ ds) \<longleftrightarrow> calls_ok lib tr cs \<and> calls_ok lib (tr @ cs) ds"
  by (induction cs arbitrary: tr) auto

lemma run_steps_append:
  "run_steps (ps @ qs) tr =
     (case run_steps ps tr of (tr', Some e) \<Rightarrow> (tr', Some e) | (tr', None) \<Rightarrow> run_steps qs tr')"
  by (induction ps arbitrary: tr) (auto split: prod.split option.split)

lemma run_steps_flatten: "run_steps (ps @ run_steps qs # rs) = run_steps (ps @ qs @ rs)"
proof
  have *: "run_steps (run_steps qs # rs) tr = run_steps (qs @ rs) tr" for tr
    by (simp add: run_steps_append)
  fix tr show "run_steps (ps @ run_steps qs # rs) tr = run_steps (ps @ qs @ rs) tr"
    by (simp only: run_steps_append [of ps] *)
qed

definition calls_of :: "libraries \<Rightarrow> (startup_call \<times> process_end) list \<Rightarrow> step list" where
  "calls_of lib cs = map (\<lambda>(c, bad). make_call lib c bad) cs"

lemma calls_of_simps [simp]:
  "calls_of lib [] = []"
  "calls_of lib ((c, bad) # cs) = make_call lib c bad # calls_of lib cs"
  "calls_of lib (cs @ ds) = calls_of lib cs @ calls_of lib ds"
  by (simp_all add: calls_of_def)

text \<open>A sequence of calls runs to its end, or stops at the first that fails.\<close>

lemma run_calls_cases:
  assumes "run_steps (calls_of lib cs) tr = (tr', e)"
  obtains (all) "e = None" "tr' = tr @ map fst cs" "calls_ok lib tr (map fst cs)"
  | (failed) k where "k < length cs" "e = Some (snd (cs ! k))"
      "tr' = tr @ take (Suc k) (map fst cs)" "calls_ok lib tr (take k (map fst cs))"
      "\<not> lib (tr @ take k (map fst cs)) (fst (cs ! k))"
  using assms
proof (induction cs arbitrary: tr thesis)
  case Nil
  then show ?case by simp
next
  case (Cons c cs)
  obtain call bad where c: "c = (call, bad)" by (cases c)
  show ?case
  proof (cases "lib tr call")
    case True
    then have "run_steps (calls_of lib cs) (tr @ [call]) = (tr', e)"
      using Cons.prems(3) by (simp add: c make_call_def)
    then show ?thesis
    proof (rule Cons.IH [rotated 2])
      assume "e = None" "tr' = (tr @ [call]) @ map fst cs" "calls_ok lib (tr @ [call]) (map fst cs)"
      then show ?thesis using True by (intro Cons.prems(1)) (simp_all add: c)
    next
      fix k assume "k < length cs" "e = Some (snd (cs ! k))"
        "tr' = (tr @ [call]) @ take (Suc k) (map fst cs)"
        "calls_ok lib (tr @ [call]) (take k (map fst cs))"
        "\<not> lib ((tr @ [call]) @ take k (map fst cs)) (fst (cs ! k))"
      then show ?thesis using True by (intro Cons.prems(2) [of "Suc k"]) (simp_all add: c)
    qed
  next
    case False
    then show ?thesis
      using Cons.prems(3) by (intro Cons.prems(2) [of 0]) (simp_all add: c make_call_def)
  qed
qed

section \<open>The start\<close>

text \<open>All calls of a start but the last, with how the process ends where one fails.\<close>

definition registrations :: "string gomap \<Rightarrow> 'z main_flags \<Rightarrow> (startup_call \<times> process_end) list" where
  "registrations env fl =
     [(MustRegister [targetsAsleep, targetsAwake, activeWakes, overrideSecondsRemaining,
         restoreFailures], Panic),
      (AddClientGoToScheme, Panic),
      (AddKnownTypes GroupVersion [''SleepSchedule'', ''SleepScheduleList''], Panic),
      (AddToGroupVersion GroupVersion, Panic),
      (SetLogger, Panic),
      (GetConfigOrDie, Exit 1 None),
      (NewManager (manager_options_of fl), setup_failed ''unable to start manager''),
      (CompleteController \<lparr>cs_For = ''SleepSchedule'', cs_Owns = [''ConfigMap''],
         cs_Named = ''sleepschedule'', cs_Reconciler = \<lparr>rs_OperatorNamespace = operator_namespace env,
           rs_Recorder = ''k8s-nyx''\<rparr>\<rparr>, setup_failed ''unable to create controller'')]
     @ (if getenv env ''ENABLE_WEBHOOKS'' \<noteq> ''false''
        then [(CompleteWebhook \<lparr>ws_Type = ''SleepSchedule'',
            ws_Validator = ''SleepScheduleCustomValidator''\<rparr>, setup_failed ''unable to create webhook'')]
        else [])
     @ [(AddHealthzCheck ''healthz'', setup_failed ''unable to set up health check''),
        (AddReadyzCheck ''readyz'', setup_failed ''unable to set up ready check'')]"

lemmas startup_defs = metrics_init_def main_init_def addKnownTypes_def SetupWithManager_def
  SetupSleepScheduleWebhookWithManager_def

lemma process_calls:
  assumes "parse_flags (command_line library) args (default_flags z) = Inr fl"
  shows "process lib library z args env =
    (case run_steps (calls_of lib (registrations env fl
        @ [(Start, setup_failed ''problem running manager'')])) [] of
       (tr, None) \<Rightarrow> (tr, Some Returned) | (tr, Some e) \<Rightarrow> (tr, Some e))"
proof -
  let ?init = "[metrics_init lib, main_init lib]" and ?main = "main_after_flags lib env fl"
  have "main_function lib library z args env tr =
      (case ?main tr of (tr', None) \<Rightarrow> (tr', Some Returned) | (tr', Some e) \<Rightarrow> (tr', Some e))" for tr
    by (simp add: main_function_def assms)
  then have "process lib library z args env =
      (case run_steps (?init @ [?main]) [] of
         (tr, None) \<Rightarrow> (tr, Some Returned) | (tr, Some e) \<Rightarrow> (tr, Some e))"
    unfolding process_def by (auto split: prod.split option.split)
  also have "run_steps (?init @ [?main]) [] = run_steps (calls_of lib (registrations env fl
        @ [(Start, setup_failed ''problem running manager'')])) []"
    using run_steps_flatten [of "[metrics_init lib]" "[make_call lib AddClientGoToScheme Panic, addKnownTypes lib]"
        "[?main]"]
      run_steps_flatten [of "[metrics_init lib, make_call lib AddClientGoToScheme Panic]"
        "[make_call lib (AddKnownTypes GroupVersion [''SleepSchedule'', ''SleepScheduleList'']) Panic,
          make_call lib (AddToGroupVersion GroupVersion) Panic]" "[?main]"]
      run_steps_flatten [of "[metrics_init lib, make_call lib AddClientGoToScheme Panic,
          make_call lib (AddKnownTypes GroupVersion [''SleepSchedule'', ''SleepScheduleList'']) Panic,
          make_call lib (AddToGroupVersion GroupVersion) Panic]" _ "[]"]
    by (simp del: run_steps.simps add: startup_defs main_after_flags_def registrations_def)
  finally show ?thesis .
qed

lemma started_flags:
  assumes "process lib library z args env = (tr, e)" and "Start \<in> set tr \<or> e = Some Returned"
  obtains fl where "parse_flags (command_line library) args (default_flags z) = Inr fl"
proof (cases "parse_flags (command_line library) args (default_flags z)")
  case (Inl err)
  then have "Start \<notin> set tr \<and> e \<noteq> Some Returned"
    using assms(1) by (cases err) (auto simp: process_def startup_defs main_function_def make_call_def
      split: if_splits)
  then show thesis using assms(2) by simp
qed (rule that)

lemma registrations_no_start: "Start \<notin> fst ` set (registrations env fl)"
  by (cases "getenv env ''ENABLE_WEBHOOKS'' = ''false''") (simp_all add: registrations_def)

lemma registrations_end: "c \<in> set (registrations env fl) \<Longrightarrow> snd c \<noteq> Returned"
  by (auto simp: registrations_def setup_failed_def split: if_splits)

lemma operator_namespace_not_empty: "operator_namespace env \<noteq> ''''"
  by (simp add: operator_namespace_def Let_def)

lemma registrations_distinct: "distinct (map fst (registrations env fl))"
  by (simp add: registrations_def)

text \<open>What precedes the creation of the manager, and what follows it.\<close>

definition before_manager :: "startup_call list" where
  "before_manager = [MustRegister [targetsAsleep, targetsAwake, activeWakes, overrideSecondsRemaining,
       restoreFailures], AddClientGoToScheme, AddKnownTypes GroupVersion [''SleepSchedule'', ''SleepScheduleList''],
     AddToGroupVersion GroupVersion, SetLogger, GetConfigOrDie]"

definition after_manager :: "string gomap \<Rightarrow> startup_call list" where
  "after_manager env =
     [CompleteController \<lparr>cs_For = ''SleepSchedule'', cs_Owns = [''ConfigMap''], cs_Named = ''sleepschedule'',
        cs_Reconciler = \<lparr>rs_OperatorNamespace = operator_namespace env, rs_Recorder = ''k8s-nyx''\<rparr>\<rparr>]
     @ (if getenv env ''ENABLE_WEBHOOKS'' \<noteq> ''false''
        then [CompleteWebhook \<lparr>ws_Type = ''SleepSchedule'', ws_Validator = ''SleepScheduleCustomValidator''\<rparr>]
        else [])
     @ [AddHealthzCheck ''healthz'', AddReadyzCheck ''readyz'']"

lemma registrations_split:
  "map fst (registrations env fl) = before_manager @ NewManager (manager_options_of fl) # after_manager env"
  by (simp add: registrations_def before_manager_def after_manager_def)

lemma before_manager_facts:
  "\<exists>cs. MustRegister cs \<in> set before_manager
     \<and> map cl_Name cs = [''nyx_targets_asleep'', ''nyx_targets_awake'', ''nyx_active_wakes'',
         ''nyx_override_seconds_remaining'', ''nyx_restore_failures_total'']
     \<and> map cl_Labels cs = replicate 5 [''schedule'', ''namespace'']"
  "{AddClientGoToScheme, AddKnownTypes (''nyx.dev'', ''v1alpha1'') [''SleepSchedule'', ''SleepScheduleList''],
     AddToGroupVersion (''nyx.dev'', ''v1alpha1'')} \<subseteq> set before_manager"
  by (simp_all add: before_manager_def GroupVersion_def metric_labels_def targetsAsleep_def targetsAwake_def
      activeWakes_def overrideSecondsRemaining_def restoreFailures_def eval_nat_numeral)

lemma after_manager_facts:
  "\<exists>ns. ns \<noteq> '''' \<and> (getenv env ''POD_NAMESPACE'' = '''' \<or> getenv env ''POD_NAMESPACE'' = ns)
     \<and> CompleteController \<lparr>cs_For = ''SleepSchedule'', cs_Owns = [''ConfigMap''], cs_Named = ''sleepschedule'',
         cs_Reconciler = \<lparr>rs_OperatorNamespace = ns, rs_Recorder = ''k8s-nyx''\<rparr>\<rparr> \<in> set (after_manager env)"
  "{AddHealthzCheck ''healthz'', AddReadyzCheck ''readyz''} \<subseteq> set (after_manager env)"
  "CompleteWebhook w \<in> set (after_manager env) \<longleftrightarrow> getenv env ''ENABLE_WEBHOOKS'' \<noteq> ''false''
     \<and> w = \<lparr>ws_Type = ''SleepSchedule'', ws_Validator = ''SleepScheduleCustomValidator''\<rparr>"
  by (auto simp: after_manager_def operator_namespace_def Let_def intro: exI [of _ "operator_namespace env"])

text \<open>
  C23: The manager is started, and \<open>main\<close> returns, only after everything is set up: the flags parsed,
  and each call before \<open>Start\<close> made once and with success. Before the manager is created, with the
  options of the flags, the five collectors are registered, each labelled by schedule and namespace, and
  the types of client-go and of the group \<open>nyx.dev/v1alpha1\<close> are in the scheme. After it come the
  controller, which watches \<open>SleepSchedule\<close>s and the \<open>ConfigMap\<close>s they own and whose checkpoint namespace
  is \<open>POD_NAMESPACE\<close> if that is set and in no case empty; the webhook with its validator, unless
  \<open>ENABLE_WEBHOOKS\<close> is \<open>false\<close>; the health and the ready check. The process then ends as \<open>Start\<close> answers:
  normally, or with code 1.
\<close>

theorem started_means_set_up:
  assumes "process lib library z args env = (tr, e)"
    and "Start \<in> set tr \<or> e = Some Returned"
  shows "\<exists>before after fl. let pre = before @ NewManager (manager_options_of fl) # after in
    tr = pre @ [Start] \<and> distinct tr \<and> calls_ok lib [] pre
    \<and> parse_flags (command_line library) args (default_flags z) = Inr fl
    \<and> (\<exists>cs. MustRegister cs \<in> set before
         \<and> map cl_Name cs = [''nyx_targets_asleep'', ''nyx_targets_awake'', ''nyx_active_wakes'',
             ''nyx_override_seconds_remaining'', ''nyx_restore_failures_total'']
         \<and> map cl_Labels cs = replicate 5 [''schedule'', ''namespace''])
    \<and> {AddClientGoToScheme, AddKnownTypes (''nyx.dev'', ''v1alpha1'') [''SleepSchedule'', ''SleepScheduleList''],
        AddToGroupVersion (''nyx.dev'', ''v1alpha1'')} \<subseteq> set before
    \<and> (\<exists>ns. ns \<noteq> '''' \<and> (getenv env ''POD_NAMESPACE'' = '''' \<or> getenv env ''POD_NAMESPACE'' = ns)
         \<and> CompleteController \<lparr>cs_For = ''SleepSchedule'', cs_Owns = [''ConfigMap''], cs_Named = ''sleepschedule'',
             cs_Reconciler = \<lparr>rs_OperatorNamespace = ns, rs_Recorder = ''k8s-nyx''\<rparr>\<rparr> \<in> set after)
    \<and> {AddHealthzCheck ''healthz'', AddReadyzCheck ''readyz''} \<subseteq> set after
    \<and> (\<forall>w. CompleteWebhook w \<in> set after \<longleftrightarrow> getenv env ''ENABLE_WEBHOOKS'' \<noteq> ''false''
         \<and> w = \<lparr>ws_Type = ''SleepSchedule'', ws_Validator = ''SleepScheduleCustomValidator''\<rparr>)
    \<and> e = Some (if lib pre Start then Returned else Exit 1 (Some ''problem running manager''))"
proof -
  obtain fl where fl: "parse_flags (command_line library) args (default_flags z) = Inr fl"
    using assms by (rule started_flags)
  let ?cs = "registrations env fl @ [(Start, setup_failed ''problem running manager'')]"
  let ?pre = "map fst (registrations env fl)"
  obtain e' where run: "run_steps (calls_of lib ?cs) [] = (tr, e')"
    and e: "e = Some (case e' of None \<Rightarrow> Returned | Some x \<Rightarrow> x)"
    using assms(1) unfolding process_calls [OF fl] by (auto split: prod.splits option.splits)
  have split: "tr = ?pre @ [Start] \<and> calls_ok lib [] ?pre
      \<and> e = Some (if lib ?pre Start then Returned else Exit 1 (Some ''problem running manager''))"
    using run
  proof (cases rule: run_calls_cases)
    case all
    then show ?thesis using e by (simp add: calls_ok_append)
  next
    case (failed k)
    have "\<not> k < length (registrations env fl)"
    proof
      assume k: "k < length (registrations env fl)"
      then have "e \<noteq> Some Returned"
        using failed(2) e registrations_end [OF nth_mem [OF k]] by (simp add: nth_append)
      moreover have "set tr \<subseteq> fst ` set (registrations env fl)"
        using k failed(3) by (auto simp: take_map dest: in_set_takeD)
      ultimately show False using assms(2) registrations_no_start by blast
    qed
    then have "k = length (registrations env fl)" using failed(1) by simp
    then show ?thesis using failed e by (simp add: nth_append setup_failed_def)
  qed
  have d: "distinct tr" using split registrations_distinct [of env fl] registrations_no_start by auto
  have w: "\<forall>w. CompleteWebhook w \<in> set (after_manager env) \<longleftrightarrow> getenv env ''ENABLE_WEBHOOKS'' \<noteq> ''false''
      \<and> w = \<lparr>ws_Type = ''SleepSchedule'', ws_Validator = ''SleepScheduleCustomValidator''\<rparr>"
    using after_manager_facts(3) by blast
  note split = split [unfolded registrations_split]
  show ?thesis unfolding Let_def
    by ((rule exI)+,
      (rule conjI, rule conjunct1 [OF split] d conjunct1 [OF conjunct2 [OF split]] fl before_manager_facts
        after_manager_facts(1,2) w)+, rule conjunct2 [OF conjunct2 [OF split]])
qed

lemma quiet_start:
  "snd (process (\<lambda>_ _. True) [] () [''--leader-elect'', ''-metrics-bind-address=0''] [])
     = Some Returned"
  by code_simp

theorem started_means_set_up_witness:
  "\<exists>before after fl w. fst (process (\<lambda>_ _. True) [] () [''--leader-elect'', ''-metrics-bind-address=0''] [])
       = (before @ NewManager (manager_options_of fl) # after) @ [Start]
     \<and> parse_flags (command_line []) [''--leader-elect'', ''-metrics-bind-address=0'']
         (default_flags ()) = Inr fl
     \<and> AddClientGoToScheme \<in> set before \<and> CompleteWebhook w \<in> set after"
proof -
  have on: "getenv [] ''ENABLE_WEBHOOKS'' \<noteq> ''false''" by code_simp
  let ?w = "\<lparr>ws_Type = ''SleepSchedule'', ws_Validator = ''SleepScheduleCustomValidator''\<rparr>"
  show ?thesis
    using started_means_set_up [OF prod.collapse [symmetric] disjI2 [OF quiet_start]] unfolding Let_def insert_subset
  proof (elim exE conjE, goal_cases)
    case (1 before after fl)
    note all = \<open>\<forall>w. CompleteWebhook w \<in> set after \<longleftrightarrow> _\<close>
    have "CompleteWebhook ?w \<in> set after"
      by (rule all [THEN spec, THEN iffD2]) (use on in simp)
    with 1(1) show ?case
      by (intro exI conjI)
        (assumption | rule \<open>parse_flags _ _ _ = _\<close> \<open>AddClientGoToScheme \<in> set before\<close>)+
  qed
qed

end
