(* ===== verification/Workload_Audit.thy ===== *)
theory Workload_Audit
  imports Workload_Recovery
begin

text \<open>
  Attribution of a pass: what a pass over the workloads writes to the audit log and, as Events on the
  schedule, to the cluster's event stream, and that no workload changes behind their back. The proof
  follows the shape of the handlers: steps that report nothing and touch no workload, and one patch
  with its report.
\<close>

section \<open>The specification\<close>

text \<open>An audit line of one action on one workload, and the Event that goes with it.\<close>

definition line_for :: "audit_info \<Rightarrow> sleep_schedule \<Rightarrow> string \<Rightarrow> wref \<Rightarrow> audit_line \<Rightarrow> bool" where
  "line_for info sch action ref l \<longleftrightarrow>
     al_Action l = action \<and> al_Who l = ai_Who info \<and> al_Why l = ai_Why info
     \<and> al_SleepSchedule l = ss_Namespace sch @ ''/'' @ ss_Name sch
     \<and> al_ObjectRef l = wr_Kind ref @ ''/'' @ wr_Namespace ref @ ''/'' @ wr_Name ref"

definition event_for :: "sleep_schedule \<Rightarrow> audit_line \<Rightarrow> event \<Rightarrow> bool" where
  "event_for sch l e \<longleftrightarrow>
     ev_Object e = schedule_key sch \<and> ev_Type e = ''Normal'' \<and> ev_Reason e = al_Action l
     \<and> (\<exists>m. ev_Message e = m @ '' ['' @ al_ObjectRef l @ '']'')"

text \<open>The Events on the schedule itself.\<close>

definition schedule_events :: "sleep_schedule \<Rightarrow> 'w state \<Rightarrow> event list" where
  "schedule_events sch s = filter (\<lambda>e. ev_Object e = schedule_key sch) (st_events s)"

definition told :: "sleep_schedule \<Rightarrow> 'w state \<Rightarrow> 'w state \<Rightarrow> audit_line list \<Rightarrow> event list \<Rightarrow> bool" where
  "told sch s s' ls es \<longleftrightarrow>
     st_audit s' = st_audit s @ ls \<and> schedule_events sch s' = schedule_events sch s @ es"

text \<open>
  The lines \<open>ls\<close> and Events \<open>es\<close> account for the workloads having gone from \<open>ob\<close> to \<open>ob'\<close>: every line
  is of one of the references, each has its Event if there is a recorder, a dry run has none, and every
  workload that is not what it was has a line.
\<close>

definition reported ::
  "audit_info \<Rightarrow> bool \<Rightarrow> sleep_schedule \<Rightarrow> string \<Rightarrow> wref set \<Rightarrow> (obj_key \<Rightarrow> kobj option) \<Rightarrow>
   (obj_key \<Rightarrow> kobj option) \<Rightarrow> audit_line list \<Rightarrow> event list \<Rightarrow> bool"
where
  "reported info rec sch action refs ob ob' ls es \<longleftrightarrow>
     (\<forall>l \<in> set ls. \<exists>ref \<in> refs. line_for info sch action ref l)
     \<and> (if rec then list_all2 (event_for sch) ls es else es = [])
     \<and> (sp_DryRun (ss_Spec sch) \<longrightarrow> ls = [])
     \<and> (\<forall>k. ob' k \<noteq> ob k \<longrightarrow> (\<exists>ref \<in> refs. ref_key ref = k \<and> (\<exists>l \<in> set ls. line_for info sch action ref l)))"

lemma reported_none [simp]: "reported info rec sch action refs ob ob [] []"
  by (simp add: reported_def)

lemma reported_append:
  assumes "reported info rec sch action A ob ob' ls es" and "reported info rec sch action B ob' ob'' ls' es'"
  shows "reported info rec sch action (A \<union> B) ob ob'' (ls @ ls') (es @ es')"
proof -
  have "\<exists>ref \<in> A \<union> B. ref_key ref = k \<and> (\<exists>l \<in> set (ls @ ls'). line_for info sch action ref l)"
    if k: "ob'' k \<noteq> ob k" for k
  proof (cases "ob' k = ob k")
    case True
    with k have "ob'' k \<noteq> ob' k" by simp
    with assms(2) obtain ref l where "ref \<in> B" "ref_key ref = k" "l \<in> set ls'" "line_for info sch action ref l"
      unfolding reported_def by metis
    then show ?thesis by auto
  next
    case False
    with assms(1) obtain ref l where "ref \<in> A" "ref_key ref = k" "l \<in> set ls" "line_for info sch action ref l"
      unfolding reported_def by metis
    then show ?thesis by auto
  qed
  then show ?thesis
    using assms by (auto simp: reported_def intro: list_all2_appendI)
qed

lemma told_trans: "told sch s s' ls es \<Longrightarrow> told sch s' s'' ls' es' \<Longrightarrow> told sch s s'' (ls @ ls') (es @ es')"
  by (simp add: told_def)

lemma told_same: "st_audit s' = st_audit s \<Longrightarrow> st_events s' = st_events s \<Longrightarrow> told sch s s' [] []"
  by (simp add: told_def schedule_events_def)

section \<open>Steps that leave workloads and reports alone\<close>

definition still :: "('w \<Rightarrow> cluster) \<Rightarrow> sleep_schedule \<Rightarrow> ('w, 'a) prog \<Rightarrow> bool" where
  "still content sch m \<longleftrightarrow>
     (\<forall>s. wp m (\<lambda>_ s'. cl_obj (content (st_api s')) = cl_obj (content (st_api s)) \<and> told sch s s' [] []) s)"

named_theorems still_rules \<open>steps that leave workloads and reports alone\<close>

lemma still_return [still_rules]: "still content sch (return_p x)"
  by (simp add: still_def wp_simps told_same)

lemma still_throw [still_rules]: "still content sch (throw_p e)"
  by (simp add: still_def wp_simps told_same)

lemma stillD: "still content sch m \<Longrightarrow>
    wp m (\<lambda>_ s'. cl_obj (content (st_api s')) = cl_obj (content (st_api s)) \<and> told sch s s' [] []) s"
  by (simp add: still_def)

lemma still_bind [still_rules]:
  assumes "still content sch m" and f: "\<And>x. still content sch (f x)"
  shows "still content sch (bind_p m f)"
  unfolding still_def wp_bind
proof
  fix s :: "'a state"
  let ?Q = "\<lambda>s s'. cl_obj (content (st_api s')) = cl_obj (content (st_api s)) \<and> told sch s s' [] []"
  have "wp (f x) (\<lambda>_. ?Q s) s1" if "?Q s s1" for x and s1 :: "'a state"
    by (rule wp_mono [OF stillD [OF f]]) (use that in \<open>auto simp: told_def\<close>)
  then show "wp m (\<lambda>r s'. case r of Inl e \<Rightarrow> ?Q s s' | Inr x \<Rightarrow> wp (f x) (\<lambda>_. ?Q s) s') s"
    by (intro wp_mono [OF stillD [OF assms(1)]]) (auto split: sum.split)
qed

lemma still_if [still_rules]:
  "(b \<Longrightarrow> still content sch m) \<Longrightarrow> (\<not> b \<Longrightarrow> still content sch n) \<Longrightarrow> still content sch (if b then m else n)"
  by simp

lemma still_option [still_rules]:
  "still content sch m \<Longrightarrow> (\<And>x. still content sch (f x)) \<Longrightarrow>
   still content sch (case v of None \<Rightarrow> m | Some x \<Rightarrow> f x)"
  by (cases v) simp_all

lemma not_schedule_key: "key_of x \<noteq> schedule_key sch"
  by (cases x) (simp_all add: key_of_def schedule_key_def)

lemma still_emit [still_rules]: "still content sch (emit rec obj reason message)"
  by (simp add: still_def emit_def wp_simps told_def schedule_events_def) 
    (simp add: wp_def prog_simps not_schedule_key)

lemma still_warn [still_rules]: "still content sch (warn rec obj reason message)"
  by (simp add: still_def warn_def wp_simps told_def schedule_events_def)
    (simp add: wp_def prog_simps not_schedule_key)

lemma still_when [still_rules]: "still content sch m \<Longrightarrow> still content sch (when_p b m)"
  by (simp add: still_def wp_simps told_same)

lemma still_view: "same_view content s s' \<Longrightarrow>
    cl_obj (content (st_api s')) = cl_obj (content (st_api s)) \<and> told sch s s' [] []"
  by (simp add: same_view_def told_same)

lemma still_trace: "same_trace s s' \<Longrightarrow> told sch s s' [] []"
  by (simp add: same_trace_def told_same)

lemma still_store [still_rules]:
  assumes "kube_laws (sr_Client st) content"
  shows "still content sch (GetRaw st ss key)" and "still content sch (Get st ss key)"
    and "still content sch (SetRaw st ss key v)" and "still content sch (Set_replicas st ss key n)"
    and "still content sch (Delete_entry st ss key)"
  unfolding still_def Set_replicas_def
  by (intro allI wp_GetRaw [OF assms] wp_Get [OF assms] wp_SetRaw [OF assms] wp_Delete_entry [OF assms];
      auto simp: still_trace dest: still_view entry_updD(1))+

lemma still_load:
  assumes "get_law content look get"
  shows "still content sch (load_or_nil (call (get ns n)))"
  unfolding still_def load_or_nil_def wp_try
  by (intro allI wp_call_get [OF assms]) (auto simp: wp_simps isNotFound_def dest: still_view)

lemma still_loads [still_rules]:
  assumes "kube_laws c content"
  shows "still content sch (loadDeployment c ref)" and "still content sch (loadStatefulSet c ref)"
    and "still content sch (getDaemonSet c ref)" and "still content sch (loadCronJob c ref)"
    and "still content sch (loadJob c ref)" and "still content sch (loadHPA c ref)"
    and "still content sch (load_or_nil (call (k_get_stateful_set c (wr_Namespace ref) (wr_Name ref))))"
  unfolding loadDeployment_def loadStatefulSet_def getDaemonSet_def loadCronJob_def loadJob_def loadHPA_def
  by (intro still_bind still_return still_load [OF kube_lawsD(10) [OF assms]]
      still_load [OF kube_lawsD(11) [OF assms]] still_load [OF kube_lawsD(12) [OF assms]]
      still_load [OF kube_lawsD(13) [OF assms]] still_load [OF kube_lawsD(14) [OF assms]]
      still_load [OF kube_lawsD(15) [OF assms]])+

section \<open>One patch and its report\<close>

definition att ::
  "('w \<Rightarrow> cluster) \<Rightarrow> audit_info \<Rightarrow> bool \<Rightarrow> sleep_schedule \<Rightarrow> string \<Rightarrow> wref set \<Rightarrow>
   (obj_key \<Rightarrow> kobj option) \<Rightarrow> ('w, 'a) prog \<Rightarrow> bool"
where
  "att content info rec sch action refs ob m \<longleftrightarrow>
     (\<forall>s. cl_obj (content (st_api s)) = ob \<longrightarrow>
        wp m (\<lambda>_ s'. \<exists>ls es. told sch s s' ls es
          \<and> reported info rec sch action refs ob (cl_obj (content (st_api s'))) ls es) s)"

named_theorems att_rules \<open>one rule per way a handler reports\<close>

lemma att_still:
  assumes "still content sch m"
  shows "att content info rec sch action refs ob m"
  unfolding att_def
proof (intro allI impI)
  fix s :: "'a state" assume "cl_obj (content (st_api s)) = ob"
  then show "wp m (\<lambda>_ s'. \<exists>ls es. told sch s s' ls es
      \<and> reported info rec sch action refs ob (cl_obj (content (st_api s'))) ls es) s"
    by (intro wp_mono [OF stillD [OF assms]] exI [of _ "[]"]) auto
qed

lemma att_if [att_rules]:
  "(b \<Longrightarrow> att content info rec sch action refs ob m) \<Longrightarrow>
   (\<not> b \<Longrightarrow> att content info rec sch action refs ob n) \<Longrightarrow>
   att content info rec sch action refs ob (if b then m else n)"
  by simp

lemma att_option [att_rules]:
  "(v = None \<Longrightarrow> att content info rec sch action refs ob m) \<Longrightarrow>
   (\<And>x. v = Some x \<Longrightarrow> att content info rec sch action refs ob (f x)) \<Longrightarrow>
   att content info rec sch action refs ob (case v of None \<Rightarrow> m | Some x \<Rightarrow> f x)"
  by (cases v) simp_all

lemmas att_quiet [att_rules] = att_still [OF still_return] att_still [OF still_throw]
  att_still [OF still_emit] att_still [OF still_warn]

text \<open>A step, then the rest: the reports add up.\<close>

lemma att_bind:
  assumes m: "att content info rec sch action A ob m"
    and f: "\<And>x ob'. att content info rec sch action B ob' (f x)"
  shows "att content info rec sch action (A \<union> B) ob (bind_p m f)"
  unfolding att_def wp_bind
proof (intro allI impI)
  fix s :: "'a state" assume ob: "cl_obj (content (st_api s)) = ob"
  let ?R = "\<lambda>refs s s' ls es. told sch s s' ls es \<and> reported info rec sch action refs
    (cl_obj (content (st_api s))) (cl_obj (content (st_api s'))) ls es"
  have step: "wp m (\<lambda>_ s1. \<exists>ls es. ?R A s s1 ls es) s" using m ob by (simp add: att_def)
  have rest: "wp (f x) (\<lambda>_ s2. \<exists>ls es. ?R (A \<union> B) s s2 ls es) s1" if "?R A s s1 ls es" for x ls es and s1 :: "'a state"
  proof -
    have "wp (f x) (\<lambda>_ s2. \<exists>ls es. ?R B s1 s2 ls es) s1" using f by (simp add: att_def)
    then show ?thesis
      by (rule wp_mono) (use that in \<open>blast intro: told_trans reported_append\<close>)
  qed
  have stop: "\<exists>ls es. ?R (A \<union> B) s s1 ls es" if "?R A s s1 ls es" for ls es and s1 :: "'a state"
    using that reported_append [OF _ reported_none, of info rec sch action A _ _ ls es B] by fastforce
  show "wp m (\<lambda>r s'. case r of
      Inl e \<Rightarrow> \<exists>ls es. told sch s s' ls es \<and> reported info rec sch action (A \<union> B) ob (cl_obj (content (st_api s'))) ls es
    | Inr x \<Rightarrow> wp (f x) (\<lambda>_ s'. \<exists>ls es. told sch s s' ls es
        \<and> reported info rec sch action (A \<union> B) ob (cl_obj (content (st_api s'))) ls es) s') s"
    by (rule wp_mono [OF step]) (use rest stop in \<open>auto simp: ob split: sum.split\<close>)
qed

lemma att_then_still:
  assumes "att content info rec sch action refs ob m" and "\<And>x. still content sch (f x)"
  shows "att content info rec sch action refs ob (bind_p m f)"
  using att_bind [OF assms(1) att_still [OF assms(2)], of "{}"] by simp

text \<open>A still step keeps what is known about the workloads.\<close>

lemma still_then_att:
  assumes m: "still content sch m" and f: "\<And>x. att content info rec sch action refs ob (f x)"
  shows "att content info rec sch action refs ob (bind_p m f)"
  unfolding att_def wp_bind
proof (intro allI impI)
  fix s :: "'a state" assume ob: "cl_obj (content (st_api s)) = ob"
  have "wp (f x) (\<lambda>_ s'. \<exists>ls es. told sch s s' ls es
      \<and> reported info rec sch action refs ob (cl_obj (content (st_api s'))) ls es) s1"
    if "cl_obj (content (st_api s1)) = ob" "told sch s s1 [] []" for x and s1 :: "'a state"
  proof -
    have "wp (f x) (\<lambda>_ s'. \<exists>ls es. told sch s1 s' ls es
        \<and> reported info rec sch action refs ob (cl_obj (content (st_api s'))) ls es) s1"
      using f that(1) by (simp add: att_def)
    then show ?thesis by (rule wp_mono) (use told_trans [OF that(2)] in fastforce)
  qed
  moreover have "\<exists>ls es. told sch s s1 ls es \<and> reported info rec sch action refs ob ob ls es"
    if "told sch s s1 [] []" for s1 :: "'a state"
    using that by (intro exI [of _ "[]"]) simp
  ultimately show "wp m (\<lambda>r s'. case r of
      Inl e \<Rightarrow> \<exists>ls es. told sch s s' ls es \<and> reported info rec sch action refs ob (cl_obj (content (st_api s'))) ls es
    | Inr x \<Rightarrow> wp (f x) (\<lambda>_ s'. \<exists>ls es. told sch s s' ls es
        \<and> reported info rec sch action refs ob (cl_obj (content (st_api s'))) ls es) s') s"
    by (intro wp_mono [OF stillD [OF m]]) (auto simp: ob split: sum.split)
qed

lemma report_lines:
  assumes "wr_Kind ref \<noteq> ''''"
  shows "wp (Record c ctx rec sch (wr_Kind ref) (wr_Namespace ref) (wr_Name ref) action text)
    (\<lambda>r s'. r = Inr () \<and> st_api s' = st_api s \<and> (\<exists>l es. told sch s s' [l] es
       \<and> line_for (FromContext ctx) sch action ref l
       \<and> (if rec then list_all2 (event_for sch) [l] es else es = []))) s"
  using assms
  by (auto simp: wp_def Record_eq told_def schedule_events_def line_for_def event_for_def object_ref_def
      list_all2_Cons1)

lemma emit_quiet:
  "wp (emit rec obj reason message) (\<lambda>r s'. r = Inr () \<and> st_api s' = st_api s \<and> told sch s s' [] []) s"
  by (simp add: emit_def wp_simps told_def schedule_events_def) (simp add: wp_def prog_simps not_schedule_key)

text \<open>A patch of the workload, the Event on it, and the record of the action.\<close>

lemma att_patch:
  assumes laws: "kube_laws c content" and kind: "wr_Kind ref \<noteq> ''''" and dry: "\<not> sp_DryRun (ss_Spec sch)"
    and y: "ob (ref_key ref) = Some y" "key_of y = ref_key ref" "key_of new = ref_key ref"
  shows "att content (FromContext ctx) rec sch action {ref} ob (bind_p (call (k_patch c y new)) (\<lambda>_.
    bind_p (emit rec new action m1) (\<lambda>_.
    Record c ctx rec sch (wr_Kind ref) (wr_Namespace ref) (wr_Name ref) action m2)))"
  unfolding att_def
proof (intro allI impI)
  fix s :: "'a state" assume ob: "cl_obj (content (st_api s)) = ob"
  let ?R = "\<lambda>s'. \<exists>ls es. told sch s s' ls es
    \<and> reported (FromContext ctx) rec sch action {ref} ob (cl_obj (content (st_api s'))) ls es"
  have report: "wp (bind_p (emit rec new action m1) (\<lambda>_.
      Record c ctx rec sch (wr_Kind ref) (wr_Namespace ref) (wr_Name ref) action m2)) (\<lambda>_. ?R) s1"
    if s1: "cl_obj (content (st_api s1)) = ob(ref_key ref \<mapsto> stored new)" "told sch s s1 [] []" for s1 :: "'a state"
  proof -
    have "reported (FromContext ctx) rec sch action {ref} ob (ob(ref_key ref \<mapsto> stored new)) [l] es"
      if "line_for (FromContext ctx) sch action ref l" "if rec then list_all2 (event_for sch) [l] es else es = []"
      for l es
      using that dry by (auto simp: reported_def)
    then show ?thesis
      unfolding wp_bind
      by (intro wp_mono [OF emit_quiet [where sch = sch]])
        (use s1 in \<open>auto intro!: wp_mono [OF report_lines [OF kind]] simp: told_def\<close>)
  qed
  have none: "?R s1" if "cl_obj (content (st_api s1)) = ob" "told sch s s1 [] []" for s1 :: "'a state"
    by (intro exI [of _ "[]"]) (use that in simp)
  show "wp (bind_p (call (k_patch c y new)) (\<lambda>_. bind_p (emit rec new action m1) (\<lambda>_.
      Record c ctx rec sch (wr_Kind ref) (wr_Namespace ref) (wr_Name ref) action m2))) (\<lambda>_. ?R) s"
    unfolding wp_bind [of "call _"]
    by (rule wp_patch [OF laws])
      (use y ob none report in \<open>auto simp: told_same same_view_def patch_effect_def put_obj_at\<close>)
qed

lemma bind_assoc: "bind_p (bind_p m f) g = bind_p m (\<lambda>x. bind_p (f x) g)"
  by (auto simp: bind_p_def fun_eq_iff split: prod.split sum.split)

lemma att_patch_then:
  assumes laws: "kube_laws c content" and kind: "wr_Kind ref \<noteq> ''''" and dry: "\<not> sp_DryRun (ss_Spec sch)"
    and y: "ob (ref_key ref) = Some y" "key_of y = ref_key ref" "key_of new = ref_key ref"
    and K: "still content sch K"
  shows "att content (FromContext ctx) rec sch action {ref} ob (bind_p (call (k_patch c y new)) (\<lambda>_.
    bind_p (emit rec new action m1) (\<lambda>_.
    bind_p (Record c ctx rec sch (wr_Kind ref) (wr_Namespace ref) (wr_Name ref) action m2) (\<lambda>_. K))))"
  using att_then_still [OF att_patch [where ob = ob, OF laws kind dry y] K] unfolding bind_assoc .

section \<open>The handlers\<close>

text \<open>What a load says of the object it returns.\<close>

lemma load_then_att:
  assumes still: "still content sch load"
    and load: "\<And>cl. cluster_wf cl \<Longrightarrow> cl_obj cl = ob \<Longrightarrow> csp content load cl (\<lambda>r _. \<forall>x. r = Inr x \<longrightarrow> F x)"
    and wf: "\<And>w. cluster_wf (content w)"
    and f: "\<And>x. F x \<Longrightarrow> att content info rec sch action refs ob (f x)"
  shows "att content info rec sch action refs ob (bind_p load f)"
proof -
  have "wp (bind_p load f) (\<lambda>_ s'. \<exists>ls es. told sch s s' ls es
      \<and> reported info rec sch action refs ob (cl_obj (content (st_api s'))) ls es) s"
    if ob: "cl_obj (content (st_api s)) = ob" for s :: "'a state"
  proof -
    obtain r s1 where run: "load s = (r, s1)" by fastforce
    have k: "cl_obj (content (st_api s1)) = ob" "told sch s s1 [] []"
      using stillD [OF still, of s] run ob by (simp_all add: wp_def)
    have F: "\<forall>x. r = Inr x \<longrightarrow> F x"
      by (rule cspD [OF load [OF wf ob] run])
    show ?thesis
    proof (cases r)
      case (Inl e)
      then show ?thesis using run k by (auto simp: wp_def bind_p_def intro!: exI [of _ "[]"])
    next
      case (Inr x)
      from f [of x] F Inr k(1) have "wp (f x) (\<lambda>_ s'. \<exists>ls es. told sch s1 s' ls es
          \<and> reported info rec sch action refs ob (cl_obj (content (st_api s'))) ls es) s1"
        by (simp add: att_def)
      then have "wp (f x) (\<lambda>_ s'. \<exists>ls es. told sch s s' ls es
          \<and> reported info rec sch action refs ob (cl_obj (content (st_api s'))) ls es) s1"
        by (rule wp_mono) (use told_trans [OF k(2)] in fastforce)
      then show ?thesis using run Inr by (simp add: wp_def bind_p_def)
    qed
  qed
  then show ?thesis by (simp add: att_def)
qed

lemma att_patchReplicas:
  assumes laws: "kube_laws c content" and kind: "wr_Kind ref \<noteq> ''''"
    and y: "ob (ref_key ref) = Some (ro_obj w)" "key_of (ro_obj w) = ref_key ref"
      "\<And>n. key_of (ro_setReplicas w n) = ref_key ref"
  shows "att content (FromContext ctx) rec sch action {ref} ob
    (patchReplicas c ctx rec sch ref w want (sp_DryRun (ss_Spec sch)) action)"
  unfolding patchReplicas_def Let_def
  by (intro att_rules att_patch [where ob = ob, OF laws kind _ y]) simp_all

lemma att_sleepReplica:
  assumes laws: "kube_laws (sr_Client st) content" and kind: "wr_Kind ref \<noteq> ''''"
    and load: "loads_own content (sr_Client st) load ref" "still content sch (load (sr_Client st) ref)"
  shows "att content (FromContext ctx) rec sch ''Slept'' {ref} ob (sleepReplica load (sr_Client st) ctx rec st sch ref)"
  unfolding sleepReplica_def
proof (rule load_then_att [OF load(2) load(1) [unfolded loads_own_def, rule_format] kube_lawsD(19) [OF laws],
      where F = "\<lambda>ow. \<forall>w. ow = Some w \<longrightarrow> ob (ref_key ref) = Some (ro_obj w) \<and> key_of (ro_obj w) = ref_key ref
        \<and> (\<forall>n. key_of (ro_setReplicas w n) = ref_key ref)"], goal_cases)
  case (5 x)
  then show ?case unfolding Let_def
    by (intro att_rules still_then_att att_patchReplicas [OF laws kind]; (intro still_rules laws)?) auto
qed auto

lemma att_restoreReplica:
  assumes laws: "kube_laws (sr_Client st) content" and kind: "wr_Kind ref \<noteq> ''''"
    and load: "loads_own content (sr_Client st) load ref" "still content sch (load (sr_Client st) ref)"
  shows "att content (FromContext ctx) rec sch ''Woke'' {ref} ob (restoreReplica load (sr_Client st) ctx rec st sch ref)"
  unfolding restoreReplica_def
proof (rule load_then_att [OF load(2) load(1) [unfolded loads_own_def, rule_format] kube_lawsD(19) [OF laws],
      where F = "\<lambda>ow. \<forall>w. ow = Some w \<longrightarrow> ob (ref_key ref) = Some (ro_obj w) \<and> key_of (ro_obj w) = ref_key ref
        \<and> (\<forall>n. key_of (ro_setReplicas w n) = ref_key ref)"], goal_cases)
  case (5 x)
  then show ?case unfolding Let_def
    by (intro att_rules still_then_att [OF still_store(2) [OF laws]] att_then_still [OF att_patchReplicas [OF laws kind]];
        (intro still_rules laws)?) auto
qed auto

lemma att_suspend:
  assumes laws: "kube_laws (sr_Client st) content" and kind: "wr_Kind ref \<noteq> ''''"
    and w: "ob (ref_key ref) = Some (so_obj w)" "key_of (so_obj w) = ref_key ref"
      "\<And>b. key_of (so_setSuspend w b) = ref_key ref"
  shows "att content (FromContext ctx) rec sch ''Slept'' {ref} ob (sleepSuspend (sr_Client st) ctx rec st sch ref w)"
    and "att content (FromContext ctx) rec sch ''Woke'' {ref} ob (restoreSuspend (sr_Client st) ctx rec st sch ref w)"
  unfolding sleepSuspend_def restoreSuspend_def Let_def
  by (intro att_rules still_then_att [OF still_store(1) [OF laws]] still_then_att [OF still_store(3) [OF laws]]
      att_patch [where ob = ob, OF laws kind _ w] att_patch_then [where ob = ob, OF laws kind _ w]
      still_rules laws; simp)+

text \<open>The loads of the kinds that record JSON.\<close>

lemma att_load:
  assumes laws: "kube_laws c content"
  shows "wr_Kind ref = KindCronJob \<Longrightarrow>
      (\<And>x. ob (ref_key ref) = Some (KCronJob x) \<Longrightarrow> key_of (KCronJob x) = ref_key ref \<Longrightarrow>
        att content (FromContext ctx) rec sch action {ref} ob (f1 x)) \<Longrightarrow>
      att content (FromContext ctx) rec sch action {ref} ob
        (bind_p (loadCronJob c ref) (\<lambda>v. case v of None \<Rightarrow> return_p () | Some x \<Rightarrow> f1 x))"
    and "wr_Kind ref = KindJob \<Longrightarrow>
      (\<And>x. ob (ref_key ref) = Some (KJob x) \<Longrightarrow> key_of (KJob x) = ref_key ref \<Longrightarrow>
        att content (FromContext ctx) rec sch action {ref} ob (f2 x)) \<Longrightarrow>
      att content (FromContext ctx) rec sch action {ref} ob
        (bind_p (loadJob c ref) (\<lambda>v. case v of None \<Rightarrow> return_p () | Some x \<Rightarrow> f2 x))"
    and "wr_Kind ref = KindDaemonSet \<Longrightarrow>
      (\<And>x. ob (ref_key ref) = Some (KDaemonSet x) \<Longrightarrow> key_of (KDaemonSet x) = ref_key ref \<Longrightarrow>
        att content (FromContext ctx) rec sch action {ref} ob (f3 x)) \<Longrightarrow>
      att content (FromContext ctx) rec sch action {ref} ob
        (bind_p (getDaemonSet c ref) (\<lambda>v. case v of None \<Rightarrow> return_p () | Some x \<Rightarrow> f3 x))"
    and "wr_Kind ref = KindHPA \<Longrightarrow>
      (\<And>x. ob (ref_key ref) = Some (KHPA x) \<Longrightarrow> key_of (KHPA x) = ref_key ref \<Longrightarrow>
        att content (FromContext ctx) rec sch action {ref} ob (f4 x)) \<Longrightarrow>
      att content (FromContext ctx) rec sch action {ref} ob
        (bind_p (loadHPA c ref) (\<lambda>v. case v of None \<Rightarrow> return_p () | Some x \<Rightarrow> f4 x))"
  subgoal by (rule load_then_att [OF still_loads(4) [OF laws] csp_any_load(3) [OF laws] kube_lawsD(19) [OF laws],
        where F = "\<lambda>v. \<forall>x. v = Some x \<longrightarrow> ob (ref_key ref) = Some (KCronJob x) \<and> key_of (KCronJob x) = ref_key ref"])
      (auto intro!: att_rules)
  subgoal by (rule load_then_att [OF still_loads(5) [OF laws] csp_any_load(4) [OF laws] kube_lawsD(19) [OF laws],
        where F = "\<lambda>v. \<forall>x. v = Some x \<longrightarrow> ob (ref_key ref) = Some (KJob x) \<and> key_of (KJob x) = ref_key ref"])
      (auto intro!: att_rules)
  subgoal by (rule load_then_att [OF still_loads(3) [OF laws] csp_any_load(5) [OF laws] kube_lawsD(19) [OF laws],
        where F = "\<lambda>v. \<forall>x. v = Some x \<longrightarrow> ob (ref_key ref) = Some (KDaemonSet x) \<and> key_of (KDaemonSet x) = ref_key ref"])
      (auto intro!: att_rules)
  subgoal by (rule load_then_att [OF still_loads(6) [OF laws] csp_any_load(6) [OF laws] kube_lawsD(19) [OF laws],
        where F = "\<lambda>v. \<forall>x. v = Some x \<longrightarrow> ob (ref_key ref) = Some (KHPA x) \<and> key_of (KHPA x) = ref_key ref"])
      (auto intro!: att_rules)
  done

lemma att_suspend_kinds:
  assumes laws: "kube_laws (sr_Client st) content"
  shows "wr_Kind ref = KindCronJob \<Longrightarrow>
      att content (FromContext ctx) rec sch ''Slept'' {ref} ob (cronJob_Sleep (sr_Client st) ctx rec st sch ref)"
    and "wr_Kind ref = KindCronJob \<Longrightarrow>
      att content (FromContext ctx) rec sch ''Woke'' {ref} ob (cronJob_Restore (sr_Client st) ctx rec st sch ref)"
    and "wr_Kind ref = KindJob \<Longrightarrow>
      att content (FromContext ctx) rec sch ''Slept'' {ref} ob (job_Sleep (sr_Client st) ctx rec st sch ref)"
    and "wr_Kind ref = KindJob \<Longrightarrow>
      att content (FromContext ctx) rec sch ''Woke'' {ref} ob (job_Restore (sr_Client st) ctx rec st sch ref)"
  unfolding cronJob_Sleep_def cronJob_Restore_def job_Sleep_def job_Restore_def
  by (intro att_load(1,2) [OF laws] att_rules att_suspend [OF laws];
      simp add: kind_defs cronJobSuspendObj_def jobSuspendObj_def key_of_def)+

lemma att_daemonSet:
  assumes laws: "kube_laws (sr_Client st) content" and kind: "wr_Kind ref = KindDaemonSet"
  shows "att content (FromContext ctx) rec sch ''Slept'' {ref} ob (daemonSet_Sleep (sr_Client st) ctx rec st sch ref)"
    and "att content (FromContext ctx) rec sch ''Woke'' {ref} ob (daemonSet_Restore (sr_Client st) ctx rec st sch ref)"
proof -
  have k: "wr_Kind ref \<noteq> ''''" by (simp add: kind kind_defs)
  have new: "key_of (KDaemonSet (d\<lparr>ds_NodeSelector := v\<rparr>)) = key_of (KDaemonSet d)" for d v
    by (simp add: key_of_def)
  show "att content (FromContext ctx) rec sch ''Slept'' {ref} ob (daemonSet_Sleep (sr_Client st) ctx rec st sch ref)"
    unfolding daemonSet_Sleep_def Let_def
    by (intro att_load(3) [OF laws kind] att_rules still_then_att [OF still_store(1) [OF laws]]
        still_then_att [OF still_if] att_patch [where ob = ob, OF laws k] still_store [OF laws] still_rules)
      (simp_all add: new)
  show "att content (FromContext ctx) rec sch ''Woke'' {ref} ob (daemonSet_Restore (sr_Client st) ctx rec st sch ref)"
    unfolding daemonSet_Restore_def Let_def
    by (intro att_load(3) [OF laws kind] att_rules still_then_att [OF still_store(1) [OF laws]]
        att_patch_then [where ob = ob, OF laws k] still_store [OF laws]) (simp_all add: new)
qed

lemma att_hpa:
  assumes laws: "kube_laws (sr_Client st) content" and kind: "wr_Kind ref = KindHPA"
  shows "att content (FromContext ctx) rec sch ''Slept'' {ref} ob (hpa_Sleep (sr_Client st) ctx rec st sch ref)"
    and "att content (FromContext ctx) rec sch ''Woke'' {ref} ob (hpa_Restore (sr_Client st) ctx rec st sch ref)"
proof -
  have k: "wr_Kind ref \<noteq> ''''" by (simp add: kind kind_defs)
  have new: "key_of (KHPA (h\<lparr>hp_MinReplicas := a, hp_MaxReplicas := b\<rparr>)) = key_of (KHPA h)" for h a b
    by (simp add: key_of_def)
  show "att content (FromContext ctx) rec sch ''Slept'' {ref} ob (hpa_Sleep (sr_Client st) ctx rec st sch ref)"
    unfolding hpa_Sleep_def Let_def
    by (intro att_load(4) [OF laws kind] att_rules still_then_att [OF still_store(1) [OF laws]]
        still_then_att [OF still_store(3) [OF laws]] still_then_att [OF still_when [OF still_warn]]
        att_patch [where ob = ob, OF laws k]) (simp_all add: new)
  show "att content (FromContext ctx) rec sch ''Woke'' {ref} ob (hpa_Restore (sr_Client st) ctx rec st sch ref)"
    unfolding hpa_Restore_def Let_def case_prod_beta
    by (intro att_load(4) [OF laws kind] att_rules still_then_att [OF still_store(1) [OF laws]]
        att_patch_then [where ob = ob, OF laws k] still_store [OF laws]) (simp_all add: new)
qed

lemma att_statefulSet_Sleep:
  assumes laws: "kube_laws (sr_Client st) content" and kind: "wr_Kind ref = KindStatefulSet"
  shows "att content (FromContext ctx) rec sch ''Slept'' {ref} ob (statefulSet_Sleep (sr_Client st) ctx rec st sch ref)"
  unfolding statefulSet_Sleep_def
  by (intro still_then_att [OF still_loads(7) [OF laws]] att_rules
      att_sleepReplica [OF laws _ loads_own_kinds(2) [OF laws kind] still_loads(2) [OF laws]])
    (simp add: kind kind_defs)

lemma handler_att:
  assumes laws: "kube_laws (sr_Client st) content" and h: "h \<in> set default_handlers" and kind: "wr_Kind ref = h_Kind h"
  shows "att content (FromContext ctx) rec sch ''Slept'' {ref} ob (h_Sleep h (sr_Client st) ctx rec st sch ref)"
    and "att content (FromContext ctx) rec sch ''Woke'' {ref} ob (h_Restore h (sr_Client st) ctx rec st sch ref)"
proof -
  have k: "wr_Kind ref \<noteq> ''''" using h kind by (cases rule: default_handler_cases) (simp_all add: handlers kind_defs)
  note replica = att_sleepReplica [OF laws k] att_restoreReplica [OF laws k]
  note loads = loads_own_kinds [OF laws] still_loads [OF laws]
  show "att content (FromContext ctx) rec sch ''Slept'' {ref} ob (h_Sleep h (sr_Client st) ctx rec st sch ref)"
    "att content (FromContext ctx) rec sch ''Woke'' {ref} ob (h_Restore h (sr_Client st) ctx rec st sch ref)"
    using h
    by (cases rule: default_handler_cases;
        use kind replica loads att_suspend_kinds [OF laws] att_daemonSet [OF laws] att_hpa [OF laws]
          att_statefulSet_Sleep [OF laws] in \<open>simp add: handlers\<close>)+
qed

section \<open>A pass\<close>

lemma apply_refs_att:
  fixes sl :: "'w sleeper"
  assumes laws: "kube_laws (sl_Client sl) content" and st: "sr_Client (sl_Store sl) = sl_Client sl"
  shows "att content (FromContext ctx) (sl_Recorder sl) sch (if asleep then ''Slept'' else ''Woke'') (set refs) ob
    (apply_refs sl Default_registry ctx sch asleep refs)"
proof (induction refs arbitrary: ob)
  case Nil
  show ?case by (simp add: att_rules)
next
  case (Cons ref refs)
  show ?case
  proof (cases "registry_Get (Default_registry :: 'w registry) (wr_Kind ref)")
    case None
    then show ?thesis by (simp add: att_rules)
  next
    case (Some h)
    from Default_registry_Get [OF this] have hm: "h \<in> set default_handlers" "wr_Kind ref = h_Kind h" by auto
    note step = handler_att [of "sl_Store sl", unfolded st, OF laws hm]
    have "att content (FromContext ctx) (sl_Recorder sl) sch (if asleep then ''Slept'' else ''Woke'') ({ref} \<union> set refs) ob
      (bind_p ((if asleep then h_Sleep h else h_Restore h) (sl_Client sl) ctx (sl_Recorder sl) (sl_Store sl) sch ref)
        (\<lambda>_. apply_refs sl Default_registry ctx sch asleep refs))"
      by (rule att_bind [OF _ Cons.IH]) (use step in simp)
    then show ?thesis by (simp add: Some)
  qed
qed

text \<open>
  C34: Every change is accounted for. Whatever a pass is over and however it ends, it appends lines to
  the audit log, each with the actor and the reason the sleeper was built with (the operator's name if
  it was given none), the action of the phase, the schedule that drove it and one of the workloads it
  was to act on; with a recorder each line has its Event on the schedule, in the same order and naming
  the workload, without one there is none. Every workload that is not what it was before the pass has a
  line that names it; and a dry run has no line, so it changed no workload.
\<close>

theorem Apply_attributed:
  assumes "kube_laws (sl_Client sl) content" and "sr_Client (sl_Store sl) = sl_Client sl"
    and "sleeper_registry sl = Default_registry" and "Apply sl ctx sch asleep refs s = (r, s')"
  shows "\<exists>ls es. st_audit s' = st_audit s @ ls
    \<and> filter (\<lambda>e. ev_Object e = schedule_key sch) (st_events s')
        = filter (\<lambda>e. ev_Object e = schedule_key sch) (st_events s) @ es
    \<and> (\<forall>l \<in> set ls. al_Who l = (if sl_Who sl = '''' then ''k8s-nyx'' else sl_Who sl) \<and> al_Why l = sl_Why sl
         \<and> al_Action l = (if asleep then ''Slept'' else ''Woke'')
         \<and> al_SleepSchedule l = ss_Namespace sch @ ''/'' @ ss_Name sch
         \<and> (\<exists>ref \<in> set refs. al_ObjectRef l = wr_Kind ref @ ''/'' @ wr_Namespace ref @ ''/'' @ wr_Name ref))
    \<and> (if sl_Recorder sl
       then list_all2 (\<lambda>l e. ev_Type e = ''Normal'' \<and> ev_Reason e = al_Action l
              \<and> (\<exists>m. ev_Message e = m @ '' ['' @ al_ObjectRef l @ '']'')) ls es
       else es = [])
    \<and> (\<forall>k. cl_obj (content (st_api s')) k \<noteq> cl_obj (content (st_api s)) k \<longrightarrow>
         (\<exists>ref \<in> set refs. ref_key ref = k
            \<and> (\<exists>l \<in> set ls. al_ObjectRef l = wr_Kind ref @ ''/'' @ wr_Namespace ref @ ''/'' @ wr_Name ref)))
    \<and> (sp_DryRun (ss_Spec sch) \<longrightarrow> ls = [])"
proof -
  let ?ctx = "NewContext ctx \<lparr>ai_Who = sl_Who sl, ai_Why = sl_Why sl\<rparr>"
  have run: "apply_refs sl Default_registry ?ctx sch asleep refs s = (r, s')"
    using assms(3,4) by (simp add: Apply_def)
  have who: "ai_Who (FromContext ?ctx) = (if sl_Who sl = '''' then ''k8s-nyx'' else sl_Who sl)"
    "ai_Why (FromContext ?ctx) = sl_Why sl"
    by (simp_all add: FromContext_def NewContext_def DefaultActor_def Let_def)
  from apply_refs_att [OF assms(1,2), of ?ctx sch asleep refs "cl_obj (content (st_api s))"] run
  obtain ls es where t: "told sch s s' ls es"
    "reported (FromContext ?ctx) (sl_Recorder sl) sch (if asleep then ''Slept'' else ''Woke'') (set refs)
      (cl_obj (content (st_api s))) (cl_obj (content (st_api s'))) ls es"
    by (auto simp: att_def wp_def dest!: spec [of _ s])
  from t(2) show ?thesis
    using t(1) unfolding reported_def told_def schedule_events_def line_for_def event_for_def who
    by (intro exI [of _ ls] exI [of _ es]) (auto elim!: list_all2_mono split: if_splits)
qed

text \<open>A pass on behalf of \<open>alice\<close> pins the HPA; the audit log says so, and so does an Event on the schedule.\<close>

theorem Apply_attributed_witness:
  "let a = Apply (mem_sleeper\<lparr>sl_Who := ''alice''\<rparr>) None office_hours True demo_refs (mem_state (demo_mem []))
   in (\<exists>l \<in> set (st_audit (snd a)). al_ObjectRef l = ''HorizontalPodAutoscaler/dev/web''
         \<and> al_Who l = ''alice'' \<and> al_Why l = ''asleep window'' \<and> al_Action l = ''Slept''
         \<and> al_SleepSchedule l = ''team-a/office'')
      \<and> filter (\<lambda>e. ev_Object e = schedule_key office_hours) (st_events (snd a)) \<noteq> []"
proof -
  let ?sl = "mem_sleeper\<lparr>sl_Who := ''alice''\<rparr>" and ?s = "mem_state (demo_mem [])"
  let ?a = "Apply ?sl None office_hours True demo_refs ?s" and ?k = "key_of (KHPA demo_hpa)"
  have env: "kube_laws (sl_Client ?sl) mem_content" "sr_Client (sl_Store ?sl) = sl_Client ?sl"
    "sleeper_registry ?sl = Default_registry"
    using mem_sleeper_env by (simp_all add: sleeper_registry_def)
  have changed: "cl_obj (mem_content (st_api (snd ?a))) ?k \<noteq> cl_obj (mem_content (st_api ?s)) ?k"
    and refs: "\<forall>ref \<in> set demo_refs. ref_key ref = ?k \<longrightarrow>
      wr_Kind ref @ ''/'' @ wr_Namespace ref @ ''/'' @ wr_Name ref = ''HorizontalPodAutoscaler/dev/web''"
    and start: "st_audit ?s = []" "st_events ?s = []"
    and names: "ss_Namespace office_hours @ ''/'' @ ss_Name office_hours = ''team-a/office''"
      "sl_Who ?sl = ''alice''" "sl_Why ?sl = ''asleep window''" "sl_Recorder ?sl"
    by code_simp+
  have who: "(if ''alice'' = '''' then ''k8s-nyx'' else ''alice'') = ''alice''" by simp
  from Apply_attributed [OF env prod.collapse [symmetric, of ?a], unfolded names(1-3) eqTrueI [OF names(4)] start append_Nil if_True who]
  obtain ls es where
    log: "st_audit (snd ?a) = ls" "filter (\<lambda>e. ev_Object e = schedule_key office_hours) (st_events (snd ?a))
      = filter (\<lambda>e. ev_Object e = schedule_key office_hours) [] @ es"
    and each: "\<forall>l \<in> set ls. al_Who l = ''alice'' \<and> al_Why l = ''asleep window'' \<and> al_Action l = ''Slept''
      \<and> al_SleepSchedule l = ''team-a/office'' \<and> (\<exists>ref \<in> set demo_refs.
          al_ObjectRef l = wr_Kind ref @ ''/'' @ wr_Namespace ref @ ''/'' @ wr_Name ref)"
    and ev: "list_all2 (\<lambda>l e. ev_Type e = ''Normal'' \<and> ev_Reason e = al_Action l
      \<and> (\<exists>m. ev_Message e = m @ '' ['' @ al_ObjectRef l @ '']'')) ls es"
    and acc: "\<forall>k. cl_obj (mem_content (st_api (snd ?a))) k \<noteq> cl_obj (mem_content (st_api ?s)) k \<longrightarrow>
      (\<exists>ref \<in> set demo_refs. ref_key ref = k
        \<and> (\<exists>l \<in> set ls. al_ObjectRef l = wr_Kind ref @ ''/'' @ wr_Namespace ref @ ''/'' @ wr_Name ref))"
    by (elim exE conjE) (rule that; assumption)
  from acc changed refs obtain l where l: "l \<in> set ls" "al_ObjectRef l = ''HorizontalPodAutoscaler/dev/web''"
    by metis
  then have "es \<noteq> []" using ev by auto
  then have "filter (\<lambda>e. ev_Object e = schedule_key office_hours) (st_events (snd ?a)) \<noteq> []"
    unfolding log(2) by simp
  with each l show ?thesis unfolding Let_def log(1) by blast
qed

end
