(* ===== verification/Metrics_Trace.thy ===== *)
theory Metrics_Trace
  imports Audit_Metrics
begin

text \<open>
  What the metrics show after any number of updates. The reconciler touches the collectors through
  \<open>Set\<close>, \<open>IncRestoreFailure\<close> and \<open>Delete\<close> of \<open>internal/metrics\<close> alone; a run of the operator is a sequence of
  such calls, for all schedules mixed. The specification reads the sequence backwards, as an observer
  would: the latest \<open>Set\<close> or \<open>Delete\<close> of a schedule decides its gauges, and its counter is the number of
  its increments.
\<close>

section \<open>The calls\<close>

datatype metric_call =
    CallSet string string bool nat nat "nat \<times> nat"
  | CallInc string string
  | CallDelete string string

fun metric_step :: "metric_call \<Rightarrow> metrics \<Rightarrow> metrics" where
  "metric_step (CallSet ns n asleep targets wakes left) = metrics_Set ns n asleep targets wakes left"
| "metric_step (CallInc ns n) = metrics_IncRestoreFailure ns n"
| "metric_step (CallDelete ns n) = metrics_Delete ns n"

definition metric_run :: "metric_call list \<Rightarrow> metrics" where
  "metric_run cs = foldl (\<lambda>m c. metric_step c m) \<lparr>mt_targetsAsleep = [], mt_targetsAwake = [], mt_activeWakes = [],
     mt_overrideSecondsRemaining = [], mt_restoreFailures = []\<rparr> cs"

section \<open>The specification\<close>

text \<open>The arguments of the latest \<open>Set\<close> of a schedule that no \<open>Delete\<close> follows; the latest call comes first.\<close>

fun latest :: "string \<Rightarrow> string \<Rightarrow> metric_call list \<Rightarrow> (bool \<times> nat \<times> nat \<times> (nat \<times> nat)) option" where
  "latest ns n [] = None"
| "latest ns n (CallSet ns' n' asleep targets wakes left # cs) =
     (if ns' = ns \<and> n' = n then Some (asleep, targets, wakes, left) else latest ns n cs)"
| "latest ns n (CallDelete ns' n' # cs) = (if ns' = ns \<and> n' = n then None else latest ns n cs)"
| "latest ns n (CallInc ns' n' # cs) = latest ns n cs"

definition failures :: "string \<Rightarrow> string \<Rightarrow> metric_call list \<Rightarrow> nat" where
  "failures ns n cs = count_list cs (CallInc ns n)"

text \<open>A float that is exactly a whole number.\<close>

definition float_is :: "nat \<times> nat \<Rightarrow> nat \<Rightarrow> bool" where
  "float_is x c \<longleftrightarrow> fst x = c * 2 ^ snd x"

section \<open>The counter is exact\<close>

lemma float_div_multiple:
  assumes "m < 2 ^ 53" and "0 < b"
  shows "float_div (m * b) b = (m * 2 ^ (55 + bit_size b), 55 + bit_size b)"
proof -
  define k where "k = 55 + bit_size b"
  define j where "j = bit_size (m * 2 ^ k) - 53"
  have n: "m * b * 2 ^ k div b = m * 2 ^ k" using assms(2) by (simp add: mult.commute mult.left_commute)
  have "m * 2 ^ k < 2 ^ 53 * 2 ^ k" using assms(1) by (intro mult_strict_right_mono) simp_all
  then have "m * 2 ^ k < 2 ^ (53 + k)" by (simp only: power_add)
  from bit_size_le [OF this] have "j \<le> k" by (simp add: j_def)
  then have "(2 :: nat) ^ j dvd m * 2 ^ k" by (intro dvd_mult le_imp_power_dvd)
  then obtain q where q: "m * 2 ^ k = 2 ^ j * q" by (rule dvdE)
  have "m * b * 2 ^ k = b * 2 ^ j * q" using q by (metis mult.assoc mult.commute)
  then have "div_nearest (m * b * 2 ^ k) (b * 2 ^ j) * 2 ^ j = m * 2 ^ k"
    using assms(2) q by (simp add: div_nearest_def)
  then show ?thesis
    by (simp only: float_div_def Let_def k_def [symmetric] n j_def [symmetric])
qed

lemma float_of_nat_is: "c < 2 ^ 53 \<Longrightarrow> float_is (float_of_nat c) c"
  by (simp add: float_is_def float_of_nat_code)

lemma float_add_one:
  assumes "float_is x c" and "Suc c < 2 ^ 53"
  shows "float_is (float_add x (float_of_nat 1)) (Suc c)"
proof -
  have one: "float_of_nat 1 = (2 ^ 56, 56)" by (simp add: float_of_nat_code)
  have "fst x * 2 ^ 56 + 2 ^ 56 * 2 ^ snd x = Suc c * 2 ^ (snd x + 56)"
    using assms(1) by (simp add: float_is_def power_add algebra_simps)
  then show ?thesis
    unfolding float_is_def float_add_def one fst_conv snd_conv
    using float_div_multiple [OF assms(2), of "2 ^ (snd x + 56)"] by (simp only: fst_conv snd_conv) simp
qed

section \<open>What the collectors show\<close>

lemma metric_run_snoc: "metric_run (cs @ [c]) = metric_step c (metric_run cs)"
  by (simp add: metric_run_def)

lemmas series_defs = series_set_def series_delete_def update_conv' delete_conv'

definition gauges_shown :: "metrics \<Rightarrow> string \<times> string \<Rightarrow> (bool \<times> nat \<times> nat \<times> (nat \<times> nat)) option \<Rightarrow> bool" where
  "gauges_shown m lv l \<longleftrightarrow>
     map_of (mt_targetsAsleep m) lv = map_option (\<lambda>(a, t, w, s). float_of_nat (if a then t else 0)) l
     \<and> map_of (mt_targetsAwake m) lv = map_option (\<lambda>(a, t, w, s). float_of_nat (if a then 0 else t)) l
     \<and> map_of (mt_activeWakes m) lv = map_option (\<lambda>(a, t, w, s). float_of_nat w) l
     \<and> map_of (mt_overrideSecondsRemaining m) lv = map_option (\<lambda>(a, t, w, s). s) l"

lemma gauges_latest: "gauges_shown (metric_run cs) (n, ns) (latest ns n (rev cs))"
proof (induction cs rule: rev_induct)
  case Nil
  show ?case by (simp add: gauges_shown_def metric_run_def)
next
  case (snoc c cs)
  show ?case
    by (cases c)
      (use snoc in \<open>auto simp: gauges_shown_def metric_run_snoc metrics_Set_def metrics_IncRestoreFailure_def
        metrics_Delete_def Let_def series_defs\<close>)
qed

lemma counter_counts:
  assumes "failures ns n cs < 2 ^ 53"
  shows "case map_of (mt_restoreFailures (metric_run cs)) (n, ns) of
      None \<Rightarrow> failures ns n cs = 0
    | Some x \<Rightarrow> 0 < failures ns n cs \<and> float_is x (failures ns n cs)"
  using assms
proof (induction cs rule: rev_induct)
  case Nil
  show ?case by (simp add: metric_run_def failures_def)
next
  case (snoc c cs)
  have IH: "case map_of (mt_restoreFailures (metric_run cs)) (n, ns) of
      None \<Rightarrow> failures ns n cs = 0
    | Some x \<Rightarrow> 0 < failures ns n cs \<and> float_is x (failures ns n cs)"
    using snoc by (simp add: failures_def split: if_splits)
  show ?case
  proof (cases "c = CallInc ns n")
    case True
    have less: "Suc (failures ns n cs) < 2 ^ 53" using snoc.prems True by (simp add: failures_def)
    define old where "old = (case map_of (mt_restoreFailures (metric_run cs)) (n, ns) of
      None \<Rightarrow> float_of_nat 0 | Some x \<Rightarrow> x)"
    have "float_is old (failures ns n cs)"
      using IH float_of_nat_is [of 0] by (auto simp: old_def split: option.splits)
    from float_add_one [OF this less] show ?thesis
      by (simp add: True metric_run_snoc metrics_IncRestoreFailure_def Let_def series_defs failures_def
          old_def [symmetric])
  next
    case False
    then have "failures ns n (cs @ [c]) = failures ns n cs" by (simp add: failures_def)
    moreover have "map_of (mt_restoreFailures (metric_run (cs @ [c]))) (n, ns)
        = map_of (mt_restoreFailures (metric_run cs)) (n, ns)"
      using False by (cases c) (auto simp: metric_run_snoc metrics_Set_def metrics_IncRestoreFailure_def
          metrics_Delete_def Let_def series_defs)
    ultimately show ?thesis using IH by (auto split: option.splits)
  qed
qed

text \<open>
  C35: After any sequence of calls, for all schedules mixed, the collectors show of each schedule what
  its own calls say. If its latest call that is no increment is a \<open>Set\<close>, the gauge of the phase that was
  applied holds the number of targets and that of the other phase holds zero, and the two wake gauges
  hold the values of that call; if it is a \<open>Delete\<close>, or there is none, the four gauges are absent. Its
  counter is exactly the number of its increments, deletions in between or not, as long as that number
  is below \<open>2 ^ 53\<close>; it is absent before the first.
\<close>

theorem metrics_follow_calls:
  assumes "failures ns n cs < 2 ^ 53"
  shows "(case latest ns n (rev cs) of
      None \<Rightarrow>
        map_of (mt_targetsAsleep (metric_run cs)) (n, ns) = None
        \<and> map_of (mt_targetsAwake (metric_run cs)) (n, ns) = None
        \<and> map_of (mt_activeWakes (metric_run cs)) (n, ns) = None
        \<and> map_of (mt_overrideSecondsRemaining (metric_run cs)) (n, ns) = None
    | Some (asleep, targets, wakes, left) \<Rightarrow>
        map_of (mt_targetsAsleep (metric_run cs)) (n, ns) = Some (float_of_nat (if asleep then targets else 0))
        \<and> map_of (mt_targetsAwake (metric_run cs)) (n, ns) = Some (float_of_nat (if asleep then 0 else targets))
        \<and> map_of (mt_activeWakes (metric_run cs)) (n, ns) = Some (float_of_nat wakes)
        \<and> map_of (mt_overrideSecondsRemaining (metric_run cs)) (n, ns) = Some left)
    \<and> (case map_of (mt_restoreFailures (metric_run cs)) (n, ns) of
      None \<Rightarrow> failures ns n cs = 0
    | Some x \<Rightarrow> 0 < failures ns n cs \<and> fst x = failures ns n cs * 2 ^ snd x)"
  using gauges_latest [of cs n ns] counter_counts [OF assms]
  by (auto simp: gauges_shown_def float_is_def split: option.splits)

text \<open>Two schedules; one fails twice, sleeps, is deleted and fails once more.\<close>

definition metric_day :: "metric_call list" where
  "metric_day = [CallInc ''dev'' ''a'', CallInc ''dev'' ''a'', CallSet ''dev'' ''a'' True 3 0 (0, 0),
     CallSet ''dev'' ''b'' True 5 1 (2, 0), CallDelete ''dev'' ''a'', CallInc ''dev'' ''a'']"

theorem metrics_follow_calls_witness:
  "map_of (mt_targetsAsleep (metric_run metric_day)) (''a'', ''dev'') = None
   \<and> map_of (mt_targetsAsleep (metric_run metric_day)) (''b'', ''dev'') = Some (float_of_nat 5)
   \<and> (\<exists>x. map_of (mt_restoreFailures (metric_run metric_day)) (''a'', ''dev'') = Some x \<and> fst x = 3 * 2 ^ snd x)"
proof -
  have f: "failures ''dev'' ''a'' metric_day = 3" "failures ''dev'' ''b'' metric_day = 0"
    and l: "latest ''dev'' ''a'' (rev metric_day) = None"
      "latest ''dev'' ''b'' (rev metric_day) = Some (True, 5, 1, (2, 0))" by code_simp+
  have "failures ''dev'' ''a'' metric_day < 2 ^ 53" "failures ''dev'' ''b'' metric_day < 2 ^ 53" using f by simp_all
  from metrics_follow_calls [OF this(1)] metrics_follow_calls [OF this(2)] show ?thesis
    unfolding f l by (auto split: option.splits)
qed

end
