(* ===== verification/Spec2Isabelle.thy ===== *)
theory Spec2Isabelle
  imports Schedule_Correct Webhook Checkpoint_Correct Reconcile_Live Reconcile_Idempotent
    Deep_Copy_Correct Manager_Correct Workload_Audit Metrics_Trace
begin

text \<open>
  A verification library for k8s-nyx, the Kubernetes operator that puts workloads to sleep outside the
  awake windows of a \<open>SleepSchedule\<close> and gives them back, exactly as they were, inside.

  The program and where it is modelled (paths under \<open>src/\<close>):

    \<^item> \<open>api/v1alpha1/sleepschedule_types.go\<close>, the schedule object and its schema: \<open>Api_Types\<close>.

    \<^item> \<open>internal/schedule/evaluator.go\<close>, the awake state and the next transition: \<open>Schedule_Eval\<close>; what
      it means is \<open>Schedule_Correct\<close>. Times are instants in nanoseconds (\<open>Go_Time\<close>, with the parts of
      the package \<open>time\<close> the code calls); a location is its sequence of zones.

    \<^item> \<open>internal/webhook/v1alpha1\<close>, admission: \<open>Webhook\<close>, with the link to the evaluator and to the
      override values.

    \<^item> \<open>internal/wake\<close>, the values of the wake ConfigMap: \<open>Wake_Override\<close>, on \<open>Go_Duration\<close>
      (\<open>time.ParseDuration\<close>) and \<open>Go_RFC3339\<close>.

    \<^item> \<open>internal/checkpoint/store.go\<close>, the Secret with the originals: \<open>Checkpoint_Store\<close> and
      \<open>Checkpoint_Correct\<close>.

    \<^item> \<open>internal/audit\<close> and \<open>internal/metrics\<close>: \<open>Audit_Metrics\<close>. \<open>Workload_Audit\<close> shows that the audit log
      accounts for what a pass changes, \<open>Metrics_Trace\<close> what the collectors show after any sequence of
      updates.

    \<^item> \<open>internal/workload\<close>: the six handlers are \<open>Workload_Handlers\<close> (with \<open>Go_JSON\<close> for what they store),
      registry, target resolution and dispatch are \<open>Workload_Dispatch\<close>. Their proofs are
      \<open>Workload_Correct\<close> and \<open>Workload_Kinds\<close> (each kind), \<open>Workload_Frame\<close> (what a handler leaves
      alone), \<open>Workload_Recovery\<close> (the originals come back), \<open>Workload_Safety\<close> (dry runs, confinement,
      guards), \<open>Workload_Sleep\<close> (what a successful sleeping pass has done, and what becomes of an interrupted
      sleep), \<open>Workload_Live\<close> (passes succeed
      where the API answers), \<open>Workload_Idempotent\<close> (a second pass changes nothing) and \<open>Resolve_Correct\<close>
      (which workloads a spec selects).

    \<^item> \<open>internal/controller/sleepschedule_controller.go\<close>, the reconcile pass: \<open>Reconciler\<close>; proofs in
      \<open>Wake_Pass\<close> (the override's life), \<open>Reconcile_Correct\<close> (the two halves of a pass),
      \<open>Reconcile_Passes\<close> (whole passes and sequences of them), \<open>Reconcile_Live\<close> (a healthy pass completes)
      and \<open>Reconcile_Idempotent\<close> (a repeated pass changes nothing).

    \<^item> \<open>api/v1alpha1/zz_generated.deepcopy.go\<close>: \<open>Deep_Copy\<close>, on the arrays, slices and pointers of
      \<open>Go_Memory\<close>. \<open>Memory_Copy\<close> has the interface \<open>deep_copy\<close> and the constructions under which it is
      closed, \<open>Deep_Copy_Correct\<close> instantiates it for every type. The other theories treat objects as
      immutable values; these say why a copied resource may be treated so.

    \<^item> \<open>cmd/main.go\<close> and the registrations in \<open>groupversion_info.go\<close>, \<open>metrics.go\<close>, the controller and
      the webhook: \<open>Manager_Start\<close>, as the sequence of calls that a start makes; \<open>Manager_Correct\<close>.

  Programs and their world. A handler, a store operation and a pass are programs over a state
  (\<open>Kube_Api\<close>): an abstract API world, the Events, the audit trail and the metrics; errors are values
  of \<open>go_error\<close>. The API client is the parameter \<open>kube\<close>, a record of its calls. What the proofs use of it
  is \<open>kube_laws\<close> (\<open>Kube_Cluster\<close>): a read shows the stored object or an error, a write that returns no
  error had its documented effect and one that fails had none, any call may fail at any time.
  \<open>kube_healthy\<close> adds that calls whose precondition holds succeed. Locales state the interfaces:
  what a store promises, what a recovery step promises; \<open>Kube_Memory\<close> is an in-memory API server
  with optimistic locking and injected faults that satisfies every law and on which the witnesses
  evaluate. \<open>Cluster_Spec\<close> holds the rules, one per call, by which programs are verified.

  What the lemmas show, by group: the evaluator returns (\<open>Evaluate_returns\<close>) and its next transition is
  the first flip of the state; admitted specs never fail in it; override values parse, clamp, stamp and
  expire; a recorded original is never overwritten, nor lost while reads are fresh (one stale read is enough
  to lose it: \<open>stale_delete_loses_entry\<close>); a successful sleeping pass puts to sleep what no guard holds back,
  an interrupted sleep of a Deployment, StatefulSet or DaemonSet included, but not one of a CronJob, Job or
  HPA (\<open>interrupted_sleep_not_retried\<close>); every workload a pass changes is named in the audit log, with who
  and why; after any passes, failures included, one successful waking pass
  restores the original object of any kind, and with a healthy API it does succeed; a reconcile pass stores
  the truth in the status, stays within its own objects, writes no workload in a dry run, and once its
  status is not \<open>Asleep\<close> every workload it wants has been given back; with a healthy API it returns
  without an error, and repeated at the same instant it changes nothing; a deep copy and its original
  say the same and are independent; the manager starts only when all has been registered.

  Bounds and fuel. The day loop of the evaluator and the whole pass are options, \<open>None\<close> for not
  returning; the loop returns whenever the offsets of the location differ by less than a day.
  \<open>retry.OnError\<close> repeats an unspecified number of times. Replica counts are 32-bit words.

  Not modelled: operational log lines; \<open>status.conditions\<close> in the resource that the passes read, which
  no code but the deep copies touches; what \<open>controller-runtime\<close> and \<open>apimachinery\<close> do with what is
  registered, which is not in the repository (the deep copies of their types are assumed to be deep
  copies, the success of their calls is a parameter); manifests, charts and tests.
\<close>

end
